(* ===== verification/GoBase.thy ===== *)
theory GoBase
  imports Main "HOL-Library.AList" "HOL-Library.Monad_Syntax" "HOL-Library.Code_Target_Numeral"
begin

text \<open>
  The prelude: the parts of the Go language and run time that every component uses.
  Go maps are association lists with distinct keys (\<open>gomap\<close>); buffered channels are records
  (\<open>gochan\<close>) kept in a heap, a list indexed by the channel's address, because several
  components share a channel by reference; instants are nanoseconds since the zero
  \<open>time.Time\<close>. A computation of type \<open>'a option\<close> is \<open>None\<close> where the Go code would panic
  (nil dereference, send on or close of a closed channel) or block for ever while it holds the
  service mutex. Error returns are values of a sum type, never \<open>None\<close>.
\<close>

named_theorems gomap_simps \<open>lookups and key sets of updated Go maps\<close>
named_theorems chan_simps \<open>channel operations on explicit channels\<close>

section \<open>Go maps\<close>

type_synonym ('k, 'v) gomap = "('k \<times> 'v) list"

definition mget :: "('k, 'v) gomap \<Rightarrow> 'k \<Rightarrow> 'v option" where
  "mget m k = map_of m k"

definition mput :: "'k \<Rightarrow> 'v \<Rightarrow> ('k, 'v) gomap \<Rightarrow> ('k, 'v) gomap" where
  "mput k v m = AList.update k v m"

definition mdel :: "'k \<Rightarrow> ('k, 'v) gomap \<Rightarrow> ('k, 'v) gomap" where
  "mdel k m = AList.delete k m"

definition mkeys :: "('k, 'v) gomap \<Rightarrow> 'k list" where
  "mkeys m = map fst m"

definition mwf :: "('k, 'v) gomap \<Rightarrow> bool" where
  "mwf m \<longleftrightarrow> distinct (mkeys m)"

text \<open>Reading a missing key of a slice- or string-valued Go map gives the zero value.\<close>

definition mget0 :: "('k, 'v list) gomap \<Rightarrow> 'k \<Rightarrow> 'v list" where
  "mget0 m k = (case mget m k of None \<Rightarrow> [] | Some v \<Rightarrow> v)"

locale kv_store =
  fixes empty :: 'm
    and get :: "'m \<Rightarrow> 'k \<Rightarrow> 'v option"
    and put :: "'k \<Rightarrow> 'v \<Rightarrow> 'm \<Rightarrow> 'm"
    and del :: "'k \<Rightarrow> 'm \<Rightarrow> 'm"
    and invar :: "'m \<Rightarrow> bool"
  assumes get_empty: "get empty k = None"
    and get_put: "get (put k v m) k' = (if k' = k then Some v else get m k')"
    and get_del: "get (del k m) k' = (if k' = k then None else get m k')"
    and invar_empty: "invar empty"
    and invar_put: "invar m \<Longrightarrow> invar (put k v m)"
    and invar_del: "invar m \<Longrightarrow> invar (del k m)"
begin

lemma get_put_same: "get (put k v m) k = Some v"
  by (simp add: get_put)

lemma get_put_other: "k' \<noteq> k \<Longrightarrow> get (put k v m) k' = get m k'"
  by (simp add: get_put)

lemma get_del_same: "get (del k m) k = None"
  by (simp add: get_del)

lemma put_del_get: "get (put k v (del k m)) k' = get (put k v m) k'"
  by (simp add: get_put get_del)

lemma all_entries_put:
  assumes "\<And>k' v'. get m k' = Some v' \<Longrightarrow> P k' v'" and "P k v" and "get (put k v m) k' = Some v'"
  shows "P k' v'"
  using assms by (auto simp: get_put split: if_splits)

lemma all_entries_del:
  assumes "\<And>k' v'. get m k' = Some v' \<Longrightarrow> P k' v'" and "get (del k m) k' = Some v'"
  shows "P k' v'"
  using assms by (auto simp: get_del split: if_splits)

end

lemma mget_mput: "mget (mput k v m) k' = (if k' = k then Some v else mget m k')"
  by (simp add: mget_def mput_def update_conv')

lemma mget_mdel: "mget (mdel k m) k' = (if k' = k then None else mget m k')"
  by (auto simp: mget_def mdel_def delete_conv' )

interpretation gm: kv_store "[]" mget mput mdel mwf
  by unfold_locales
    (simp_all add: mget_mput mget_mdel,
      simp_all add: mget_def mwf_def mkeys_def mput_def mdel_def distinct_update distinct_delete)

lemmas gomap_lookup [simp, gomap_simps] = mget_mput mget_mdel gm.get_empty

lemma mget0_mput [simp, gomap_simps]:
  "mget0 (mput k v m) k' = (if k' = k then v else mget0 m k')"
  by (simp add: mget0_def)

lemma mget0_mdel [simp, gomap_simps]:
  "mget0 (mdel k m) k' = (if k' = k then [] else mget0 m k')"
  by (simp add: mget0_def)

lemma mget0_empty [simp, gomap_simps]: "mget0 [] k = []"
  by (simp add: mget0_def)

lemma mwf_Nil [simp]: "mwf []"
  by (rule gm.invar_empty)

lemma mwf_mput [simp]: "mwf m \<Longrightarrow> mwf (mput k v m)"
  by (rule gm.invar_put)

lemma mwf_mdel [simp]: "mwf m \<Longrightarrow> mwf (mdel k m)"
  by (rule gm.invar_del)

lemma mget_in_keys: "mget m k = Some v \<Longrightarrow> k \<in> set (mkeys m)"
  by (auto simp: mget_def mkeys_def dest: map_of_SomeD intro: rev_image_eqI)

lemma mget_None_iff: "mget m k = None \<longleftrightarrow> k \<notin> set (mkeys m)"
  by (auto simp: mget_def mkeys_def map_of_eq_None_iff)

lemma mget_in_set: "mget m k = Some v \<Longrightarrow> (k, v) \<in> set m"
  by (simp add: mget_def map_of_SomeD)

lemma in_set_mget: "mwf m \<Longrightarrow> (k, v) \<in> set m \<Longrightarrow> mget m k = Some v"
  by (simp add: mget_def mwf_def mkeys_def)

lemma mkeys_mput: "set (mkeys (mput k v m)) = insert k (set (mkeys m))"
  by (auto simp: mkeys_def mput_def dom_update)

subsection \<open>Summing over a map\<close>

text \<open>\<open>msum f m\<close> is a loop \<open>for _, v := range m { total += f(v) }\<close>.\<close>

definition msum :: "('v \<Rightarrow> int) \<Rightarrow> ('k, 'v) gomap \<Rightarrow> int" where
  "msum f m = sum_list (map (f \<circ> snd) m)"

lemma msum_Nil [simp]: "msum f [] = 0"
  by (simp add: msum_def)

lemma msum_Cons [simp]: "msum f (p # m) = f (snd p) + msum f m"
  by (simp add: msum_def)

lemma msum_mput_new: "mget m k = None \<Longrightarrow> msum f (mput k v m) = msum f m + f v"
  by (induction m) (auto simp: mput_def mget_def)

lemma msum_mput_old:
  "mwf m \<Longrightarrow> mget m k = Some u \<Longrightarrow> msum f (mput k v m) = msum f m - f u + f v"
  by (induction m) (auto simp: mput_def mget_def mwf_def mkeys_def split: if_splits)

lemma msum_zero: "(\<forall>p \<in> set m. f (snd p) = 0) \<Longrightarrow> msum f m = 0"
  by (induction m) auto

lemma msum_nonneg: "(\<forall>p \<in> set m. 0 \<le> f (snd p)) \<Longrightarrow> 0 \<le> msum f m"
  by (induction m) auto

lemma msum_count:
  "(\<forall>p \<in> set m. f (snd p) = (if P (snd p) then c else 0)) \<Longrightarrow>
   msum f m = c * int (length (filter P (map snd m)))"
  by (induction m) (auto simp: algebra_simps)

section \<open>Buffered channels\<close>

record 'a gochan =
  cbuf :: "'a list"
  ccap :: nat
  cclosed :: bool

definition make_chan :: "nat \<Rightarrow> 'a gochan" where
  "make_chan n = \<lparr>cbuf = [], ccap = n, cclosed = False\<rparr>"

text \<open>
  \<open>select { case ch <- v: default: }\<close>: the flag says whether the value was sent. A send on a
  closed channel panics even inside a \<open>select\<close>.
\<close>

definition try_send :: "'a \<Rightarrow> 'a gochan \<Rightarrow> ('a gochan \<times> bool) option" where
  "try_send v c =
     (if cclosed c then None
      else if length (cbuf c) < ccap c then Some (c\<lparr>cbuf := cbuf c @ [v]\<rparr>, True)
      else Some (c, False))"

text \<open>A plain send \<open>ch <- v\<close> by the goroutine that holds the mutex: \<open>None\<close> if it would block.\<close>

definition send :: "'a \<Rightarrow> 'a gochan \<Rightarrow> 'a gochan option" where
  "send v c = (if \<not> cclosed c \<and> length (cbuf c) < ccap c
     then Some (c\<lparr>cbuf := cbuf c @ [v]\<rparr>) else None)"

definition close_chan :: "'a gochan \<Rightarrow> 'a gochan option" where
  "close_chan c = (if cclosed c then None else Some (c\<lparr>cclosed := True\<rparr>))"

definition recv :: "'a gochan \<Rightarrow> ('a \<times> 'a gochan) option" where
  "recv c = (case cbuf c of [] \<Rightarrow> None | v # vs \<Rightarrow> Some (v, c\<lparr>cbuf := vs\<rparr>))"

type_synonym 'a chan_heap = "'a gochan list"

text \<open>\<open>heap_get\<close> reads the channel at an address, \<open>None\<close> for the nil channel.\<close>

definition heap_get :: "'a chan_heap \<Rightarrow> nat \<Rightarrow> 'a gochan option" where
  "heap_get h a = (if a < length h then Some (h ! a) else None)"

definition chan_open :: "'a chan_heap \<Rightarrow> nat \<Rightarrow> bool" where
  "chan_open h a \<longleftrightarrow> a < length h \<and> \<not> cclosed (h ! a)"

definition chan_bounded :: "'a gochan \<Rightarrow> bool" where
  "chan_bounded c \<longleftrightarrow> length (cbuf c) \<le> ccap c"

lemma heap_get_open: "chan_open h a \<Longrightarrow> heap_get h a = Some (h ! a)"
  by (simp add: chan_open_def heap_get_def)

lemma chan_open_update:
  "chan_open (h[a := c]) b \<longleftrightarrow> b < length h \<and> (if a = b then \<not> cclosed c else chan_open h b)"
  by (auto simp: chan_open_def)

lemma chan_open_append: "chan_open (h @ [c]) b \<longleftrightarrow> chan_open h b \<or> (b = length h \<and> \<not> cclosed c)"
  by (auto simp: chan_open_def nth_append)

lemma try_send_open:
  "\<not> cclosed c \<Longrightarrow> try_send v c = Some (if length (cbuf c) < ccap c
     then (c\<lparr>cbuf := cbuf c @ [v]\<rparr>, True) else (c, False))"
  by (simp add: try_send_def)

lemma try_send_total: "\<not> cclosed c \<Longrightarrow> \<exists>c' b. try_send v c = Some (c', b)"
  by (cases "length (cbuf c) < ccap c") (auto simp: try_send_def)

lemma try_send_keeps:
  "try_send v c = Some (c', b) \<Longrightarrow> cclosed c' = cclosed c \<and> ccap c' = ccap c \<and> \<not> cclosed c"
  by (auto simp: try_send_def split: if_splits)

lemma try_send_bounded: "chan_bounded c \<Longrightarrow> try_send v c = Some (c', b) \<Longrightarrow> chan_bounded c'"
  by (auto simp: try_send_def chan_bounded_def split: if_splits)

section \<open>Time\<close>

type_synonym time = int
type_synonym duration = int

definition maxDuration :: duration where "maxDuration = 2 ^ 63 - 1"
definition minDuration :: duration where "minDuration = - (2 ^ 63)"

text \<open>\<open>t.Sub(u)\<close> saturates at the range of an \<open>int64\<close>.\<close>

definition time_sub :: "time \<Rightarrow> time \<Rightarrow> duration" where
  "time_sub t u = max minDuration (min maxDuration (t - u))"

definition is_zero_time :: "time \<Rightarrow> bool" where
  "is_zero_time t \<longleftrightarrow> t = 0"

definition second :: duration where "second = 1000000000"

definition millisecond :: duration where "millisecond = 1000000"

section \<open>Lists\<close>

text \<open>\<open>append(xs[:i], xs[i+1:]...)\<close>.\<close>

definition remove_at :: "nat \<Rightarrow> 'a list \<Rightarrow> 'a list" where
  "remove_at i xs = take i xs @ drop (Suc i) xs"

lemma length_remove_at: "i < length xs \<Longrightarrow> length (remove_at i xs) = length xs - 1"
  by (simp add: remove_at_def)

lemma remove_at_split: "i < length xs \<Longrightarrow> xs = take i xs @ xs ! i # drop (Suc i) xs"
  by (rule id_take_nth_drop)

lemma distinct_remove_at: "distinct xs \<Longrightarrow> distinct (remove_at i xs)"
  by (auto simp: remove_at_def distinct_append set_take_disj_set_drop_if_distinct)

lemma set_remove_at:
  assumes "distinct xs" and "i < length xs"
  shows "set (remove_at i xs) = set xs - {xs ! i}"
proof -
  have "distinct (take i xs @ xs ! i # drop (Suc i) xs)"
    using assms id_take_nth_drop by metis
  moreover have "set xs = set (take i xs @ xs ! i # drop (Suc i) xs)"
    using assms id_take_nth_drop by metis
  ultimately show ?thesis by (auto simp: remove_at_def)
qed

lemma set_remove_at_subset: "set (remove_at i xs) \<subseteq> set xs"
  by (auto simp: remove_at_def dest: in_set_takeD in_set_dropD)

end
