(* ===== verification/GoStrings.thy ===== *)
theory GoStrings
  imports GoBase
begin

text \<open>
  Go strings are byte sequences, here \<open>string\<close> (a \<open>char\<close> is a byte). This theory models what
  the program uses of \<open>unicode/utf8\<close>, \<open>strings\<close>, \<open>strconv\<close>, \<open>fmt\<close> and
  \<open>encoding/hex\<close>: decoding and encoding of runes, the conversions between strings and rune
  slices, \<open>RuneCountInString\<close>, \<open>TrimSpace\<close>, decimal and hexadecimal printing; and the two
  helpers of the program that are pure string functions, \<open>newID\<close> and the sequence key of
  \<open>SubmitFragment\<close>.
\<close>

section \<open>UTF-8\<close>

definition byte :: "char \<Rightarrow> nat" where
  "byte c = of_char c"

definition RuneError :: nat where "RuneError = 0xFFFD"

text \<open>The number of bytes a leading byte announces, 0 for a byte that starts no rune.\<close>

definition first_len :: "nat \<Rightarrow> nat" where
  "first_len b =
     (if b < 0x80 then 1
      else if 0xC2 \<le> b \<and> b \<le> 0xDF then 2
      else if 0xE0 \<le> b \<and> b \<le> 0xEF then 3
      else if 0xF0 \<le> b \<and> b \<le> 0xF4 then 4
      else 0)"

text \<open>The range the second byte must be in (surrogates and overlong forms are refused).\<close>

definition accept_lo :: "nat \<Rightarrow> nat" where
  "accept_lo b = (if b = 0xE0 then 0xA0 else if b = 0xF0 then 0x90 else 0x80)"

definition accept_hi :: "nat \<Rightarrow> nat" where
  "accept_hi b = (if b = 0xED then 0x9F else if b = 0xF4 then 0x8F else 0xBF)"

definition isCont :: "char \<Rightarrow> bool" where
  "isCont c \<longleftrightarrow> 0x80 \<le> byte c \<and> byte c \<le> 0xBF"

fun valid_seq :: "string \<Rightarrow> bool" where
  "valid_seq [] = False"
| "valid_seq [c0] = (first_len (byte c0) = 1)"
| "valid_seq (c0 # c1 # cs) =
     (first_len (byte c0) = 2 + length cs \<and>
      accept_lo (byte c0) \<le> byte c1 \<and> byte c1 \<le> accept_hi (byte c0) \<and> list_all isCont cs)"

text \<open>The width of the first rune of a string: \<open>DecodeRuneInString\<close>'s second result.\<close>

definition head_width :: "string \<Rightarrow> nat" where
  "head_width s =
     (case s of [] \<Rightarrow> 0
      | c # _ \<Rightarrow> (let n = first_len (byte c) in if valid_seq (take n s) then n else 1))"

fun seq_value :: "string \<Rightarrow> nat" where
  "seq_value [a] = byte a"
| "seq_value [a, b] = (byte a mod 32) * 64 + byte b mod 64"
| "seq_value [a, b, c] = (byte a mod 16) * 4096 + (byte b mod 64) * 64 + byte c mod 64"
| "seq_value [a, b, c, d] =
     (byte a mod 8) * 262144 + (byte b mod 64) * 4096 + (byte c mod 64) * 64 + byte d mod 64"
| "seq_value _ = RuneError"

definition seg_rune :: "string \<Rightarrow> nat" where
  "seg_rune s = (if valid_seq s then seq_value s else RuneError)"

definition DecodeRuneInString :: "string \<Rightarrow> nat \<times> nat" where
  "DecodeRuneInString s = (seg_rune (take (head_width s) s), head_width s)"

lemma valid_seq_length: "valid_seq s \<Longrightarrow> length s = first_len (byte (hd s))"
  by (cases s rule: valid_seq.cases) auto

lemma valid_take:
  assumes "valid_seq (take (first_len (byte c)) (c # cs))"
  shows "0 < first_len (byte c)" and "first_len (byte c) \<le> length (c # cs)"
proof -
  show pos: "0 < first_len (byte c)" using assms by (cases "first_len (byte c)") auto
  show "first_len (byte c) \<le> length (c # cs)"
    using valid_seq_length [OF assms] pos by (cases "first_len (byte c)") auto
qed

lemma head_width_pos: "s \<noteq> [] \<Longrightarrow> 0 < head_width s"
  using valid_take(1) by (cases s) (auto simp: head_width_def Let_def)

lemma head_width_le: "head_width s \<le> length s"
proof (cases s)
  case (Cons c cs)
  show ?thesis using valid_take(2) [of c cs] Cons by (auto simp: head_width_def Let_def)
qed (simp add: head_width_def)

text \<open>The successive rune encodings a \<open>range\<close> loop over the string visits.\<close>

function segs :: "string \<Rightarrow> string list" where
  "segs s = (if s = [] then [] else take (head_width s) s # segs (drop (head_width s) s))"
  by pat_completeness auto
termination
  by (relation "measure length") (auto simp: head_width_pos)

declare segs.simps [simp del]

lemma segs_Nil [simp]: "segs [] = []"
  by (simp add: segs.simps)

lemma segs_step: "s \<noteq> [] \<Longrightarrow> segs s = take (head_width s) s # segs (drop (head_width s) s)"
  by (subst segs.simps) simp

text \<open>\<open>[]rune(s)\<close>.\<close>

definition runes :: "string \<Rightarrow> nat list" where
  "runes s = map seg_rune (segs s)"

definition RuneCountInString :: "string \<Rightarrow> nat" where
  "RuneCountInString s = length (segs s)"

definition valid_utf8 :: "string \<Rightarrow> bool" where
  "valid_utf8 s = list_all valid_seq (segs s)"

definition valid_rune :: "nat \<Rightarrow> bool" where
  "valid_rune r \<longleftrightarrow> r \<le> 0x10FFFF \<and> \<not> (0xD800 \<le> r \<and> r \<le> 0xDFFF)"

definition encode_rune :: "nat \<Rightarrow> string" where
  "encode_rune r0 =
     (let r = (if valid_rune r0 then r0 else RuneError) in
      if r < 0x80 then [char_of r]
      else if r < 0x800 then [char_of (0xC0 + r div 64), char_of (0x80 + r mod 64)]
      else if r < 0x10000 then
        [char_of (0xE0 + r div 4096), char_of (0x80 + r div 64 mod 64), char_of (0x80 + r mod 64)]
      else
        [char_of (0xF0 + r div 262144), char_of (0x80 + r div 4096 mod 64),
         char_of (0x80 + r div 64 mod 64), char_of (0x80 + r mod 64)])"

text \<open>\<open>string(rs)\<close> for a rune slice \<open>rs\<close>.\<close>

definition string_of_runes :: "nat list \<Rightarrow> string" where
  "string_of_runes rs = concat (map encode_rune rs)"

subsection \<open>Segments\<close>

lemma concat_segs [simp]: "concat (segs s) = s"
proof (induction s rule: segs.induct)
  case (1 s)
  then show ?case by (cases "s = []") (simp_all add: segs_step)
qed

lemma segs_eq_Nil [simp]: "segs s = [] \<longleftrightarrow> s = []"
  by (metis concat.simps(1) concat_segs segs_Nil)

lemma segs_nonempty: "t \<in> set (segs s) \<Longrightarrow> t \<noteq> []"
proof (induction s rule: segs.induct)
  case (1 s)
  show ?case
  proof (cases "s = []")
    case False
    then have "t = take (head_width s) s \<or> t \<in> set (segs (drop (head_width s) s))"
      using "1.prems" segs_step [OF False] by simp
    then show ?thesis using "1.IH" [OF False] head_width_pos [OF False] False by auto
  qed (use "1.prems" in simp)
qed

lemma RuneCount_Nil [simp]: "RuneCountInString [] = 0"
  by (simp add: RuneCountInString_def)

lemma RuneCount_pos: "s \<noteq> [] \<Longrightarrow> 0 < RuneCountInString s"
  by (simp add: RuneCountInString_def)

lemma RuneCount_le_length: "RuneCountInString s \<le> length s"
  unfolding RuneCountInString_def
proof (induction s rule: segs.induct)
  case (1 s)
  show ?case
  proof (cases "s = []")
    case False
    then have "length (segs (drop (head_width s) s)) \<le> length s - head_width s"
      using "1.IH" by simp
    then show ?thesis using False head_width_pos [OF False] head_width_le [of s]
      by (simp add: segs_step)
  qed simp
qed

lemma cont_not_first: "isCont c \<Longrightarrow> first_len (byte c) = 0"
  by (auto simp: isCont_def first_len_def)

lemma valid_seq_tail_cont: "valid_seq (c # cs) \<Longrightarrow> list_all isCont cs"
  by (cases cs) (auto simp: isCont_def accept_lo_def accept_hi_def split: if_splits)

lemma segs_cont: "isCont c \<Longrightarrow> segs (c # s) = [c] # segs s"
  using cont_not_first [of c] by (simp add: segs_step head_width_def)

lemma RuneCount_cont_append:
  "list_all isCont xs \<Longrightarrow> RuneCountInString (xs @ ys) = length xs + RuneCountInString ys"
  unfolding RuneCountInString_def by (induction xs) (auto simp: segs_cont)

lemma head_width_append_same:
  assumes "a \<noteq> []" and "head_width (a @ b) \<le> length a"
  shows "head_width (a @ b) = head_width a"
proof -
  obtain c cs where a: "a = c # cs" using assms(1) by (cases a) auto
  let ?n = "first_len (byte c)"
  have tk: "take ?n (a @ b) = take ?n a" if "?n \<le> length a"
    using that by simp
  have "?n \<le> length a" if "valid_seq (take ?n a)"
    using valid_take(2) [of c cs] that a by simp
  with tk show ?thesis
    using assms(2) a unfolding head_width_def by (auto simp: Let_def split: if_splits)
qed

lemma truncated_head:
  assumes "a \<noteq> []" and "length a < head_width (a @ b)"
  shows "list_all isCont (tl a)" and "RuneCountInString a = length a"
    and "list_all isCont (take (head_width (a @ b) - length a) b)"
proof -
  obtain c cs where a: "a = c # cs" using assms(1) by (cases a) auto
  let ?n = "first_len (byte c)"
  have valid: "valid_seq (take ?n (a @ b))" and n: "head_width (a @ b) = ?n"
    using assms(2) a by (auto simp: head_width_def Let_def split: if_splits)
  have tk: "take ?n (a @ b) = c # cs @ take (?n - length a) b"
    using assms(2) n a by (simp add: take_Cons')
  have cont: "list_all isCont (cs @ take (?n - length a) b)"
    using valid unfolding tk by (rule valid_seq_tail_cont)
  then show "list_all isCont (tl a)" "list_all isCont (take (head_width (a @ b) - length a) b)"
    using a n by simp_all
  have "\<not> valid_seq (take ?n a)"
    using assms(2) n a valid_take(2) [of c cs] by auto
  then have "head_width a = 1" using a by (simp add: head_width_def Let_def)
  then show "RuneCountInString a = length a"
    using a cont RuneCount_cont_append [of cs "[]"]
    by (simp add: RuneCountInString_def segs_step)
qed

lemma RuneCount_subadditive:
  "RuneCountInString (a @ b) \<le> RuneCountInString a + RuneCountInString b"
proof (induction a rule: measure_induct_rule [where f = length])
  case (less a)
  show ?case
  proof (cases "a = []")
    case False
    let ?w = "head_width (a @ b)"
    have step: "RuneCountInString (a @ b) = Suc (RuneCountInString (drop ?w (a @ b)))"
      using False by (simp add: RuneCountInString_def segs_step)
    show ?thesis
    proof (cases "?w \<le> length a")
      case True
      then have w: "?w = head_width a" using False by (rule head_width_append_same [rotated])
      have "RuneCountInString (drop ?w a @ b) \<le> RuneCountInString (drop ?w a) + RuneCountInString b"
        using less.IH head_width_pos [OF False] False w by simp
      moreover have "RuneCountInString a = Suc (RuneCountInString (drop ?w a))"
        using False w by (simp add: RuneCountInString_def segs_step)
      ultimately show ?thesis using step True by simp
    next
      case big: False
      then have t: "length a < ?w" by simp
      let ?k = "?w - length a"
      have "RuneCountInString b = length (take ?k b) + RuneCountInString (drop ?k b)"
        using RuneCount_cont_append [OF truncated_head(3) [OF False t], of "drop ?k b"] by simp
      moreover have "RuneCountInString a \<ge> 1" using truncated_head(2) [OF False t] False
        by (cases a) auto
      ultimately show ?thesis using step big by simp
    qed
  qed simp
qed


subsection \<open>Encoding and decoding\<close>

lemma byte_char_of: "n < 256 \<Longrightarrow> byte (char_of n) = n"
  by (simp add: byte_def)

lemma char_of_byte [simp]: "char_of (byte c) = c"
  by (simp add: byte_def)

lemma valid_RuneError [simp]: "valid_rune RuneError"
  by (simp add: valid_rune_def RuneError_def)

lemma rune_split:
  fixes q :: nat
  shows "q = q div 64 * 64 + q mod 64" and "q div 64 = q div 4096 * 64 + q div 64 mod 64"
    and "q div 4096 = q div 262144 * 64 + q div 4096 mod 64"
proof -
  show "q = q div 64 * 64 + q mod 64" by simp
  have "q div 64 = q div 64 div 64 * 64 + q div 64 mod 64" by simp
  then show "q div 64 = q div 4096 * 64 + q div 64 mod 64" by (simp add: div_mult2_eq [symmetric])
  have "q div 4096 = q div 4096 div 64 * 64 + q div 4096 mod 64" by simp
  then show "q div 4096 = q div 262144 * 64 + q div 4096 mod 64"
    by (simp add: div_mult2_eq [symmetric])
qed

lemma mod_tags:
  fixes y :: nat
  shows "y < 64 \<Longrightarrow> (128 + y) mod 64 = y" and "y < 32 \<Longrightarrow> (192 + y) mod 32 = y"
    and "y < 16 \<Longrightarrow> (224 + y) mod 16 = y" and "y < 8 \<Longrightarrow> (240 + y) mod 8 = y"
  using mod_mult_self2 [of y 64 2] mod_mult_self2 [of y 32 6] mod_mult_self2 [of y 16 14]
    mod_mult_self2 [of y 8 30]
  by (simp_all add: add.commute)

lemma mod64_less: "(x::nat) mod 64 < 64"
  by simp

text \<open>The four shapes of an encoding, with the bounds on their parts.\<close>

lemma encode_rune_cases:
  assumes "valid_rune q"
  obtains (one) "q < 128" "encode_rune q = [char_of q]"
  | (two) x z where "q = x * 64 + z" "2 \<le> x" "x < 32" "z < 64"
      "encode_rune q = [char_of (192 + x), char_of (128 + z)]"
  | (three) w y z where "q = (w * 64 + y) * 64 + z" "w < 16" "y < 64" "z < 64"
      "w = 0 \<Longrightarrow> 32 \<le> y" "w = 13 \<Longrightarrow> y < 32"
      "encode_rune q = [char_of (224 + w), char_of (128 + y), char_of (128 + z)]"
  | (four) v w y z where "q = ((v * 64 + w) * 64 + y) * 64 + z" "v < 5" "w < 64" "y < 64" "z < 64"
      "v = 0 \<Longrightarrow> 16 \<le> w" "v = 4 \<Longrightarrow> w < 16"
      "encode_rune q =
         [char_of (240 + v), char_of (128 + w), char_of (128 + y), char_of (128 + z)]"
proof -
  note d = rune_split [of q]
  have m: "q mod 64 < 64" "q div 64 mod 64 < 64" "q div 4096 mod 64 < 64" by simp_all
  consider "q < 128" | "128 \<le> q" "q < 2048" | "2048 \<le> q" "q < 65536" | "65536 \<le> q"
    by linarith
  then show thesis
  proof cases
    case 1
    then show thesis using assms one by (simp add: encode_rune_def)
  next
    case 2
    have "2 \<le> q div 64" "q div 64 < 32" using 2 by simp_all
    then show thesis using two [OF d(1)] m 2 assms by (simp add: encode_rune_def)
  next
    case 3
    have "q div 4096 < 16" using 3 by simp
    moreover have "q = (q div 4096 * 64 + q div 64 mod 64) * 64 + q mod 64"
      using d(1,2) by simp
    moreover have "32 \<le> q div 64 mod 64" if "q div 4096 = 0"
      using that d(1,2) m 3 by simp
    moreover have "q div 64 mod 64 < 32" if "q div 4096 = 13"
    proof -
      have "q < 55296 \<or> 57344 \<le> q" using assms by (auto simp: valid_rune_def)
      then show ?thesis using that d(1,2) m by linarith
    qed
    ultimately show thesis using three [of "q div 4096" "q div 64 mod 64" "q mod 64"] m 3 assms
      by (simp add: encode_rune_def)
  next
    case 4
    have q: "q = ((q div 262144 * 64 + q div 4096 mod 64) * 64 + q div 64 mod 64) * 64 + q mod 64"
      using d by simp
    have "q \<le> 1114111" using assms by (simp add: valid_rune_def)
    then have "q div 262144 < 5" by simp
    moreover have "16 \<le> q div 4096 mod 64" if "q div 262144 = 0"
      using that d m 4 by linarith
    moreover have "q div 4096 mod 64 < 16" if "q div 262144 = 4"
      using that d m \<open>q \<le> 1114111\<close> by linarith
    ultimately show thesis
      using four [OF q] m 4 assms by (simp add: encode_rune_def)
  qed
qed

lemma encode_rune_total: "encode_rune r = encode_rune (if valid_rune r then r else RuneError)"
  by (simp add: encode_rune_def)

lemmas first_byte_defs = first_len_def accept_lo_def accept_hi_def isCont_def byte_char_of

lemma encode_rune_valid_seq: "valid_seq (encode_rune r)"
proof -
  define q where "q = (if valid_rune r then r else RuneError)"
  have "valid_rune q" by (simp add: q_def)
  then have "valid_seq (encode_rune q)"
    by (cases rule: encode_rune_cases) (auto simp: first_byte_defs)
  then show ?thesis by (subst encode_rune_total) (simp add: q_def)
qed

lemma seq_value_encode: "valid_rune r \<Longrightarrow> seq_value (encode_rune r) = r"
  by (erule encode_rune_cases) (simp_all add: byte_char_of mod_tags)

lemma head_width_valid_append: "valid_seq s \<Longrightarrow> head_width (s @ t) = length s"
  using valid_seq_length [of s] unfolding head_width_def
  by (cases s) (auto simp: take_Cons' Let_def)

lemma segs_valid_append: "valid_seq s \<Longrightarrow> segs (s @ t) = s # segs t"
  using head_width_valid_append [of s t] by (subst segs_step) auto

lemma segs_string_of_runes: "segs (string_of_runes rs) = map encode_rune rs"
  by (induction rs)
    (auto simp: string_of_runes_def segs_valid_append encode_rune_valid_seq)

lemma segs_concat_valid: "list_all valid_seq ss \<Longrightarrow> segs (concat ss) = ss"
  by (induction ss) (auto simp: segs_valid_append)

lemma segs_append_valid: "valid_utf8 a \<Longrightarrow> segs (a @ b) = segs a @ segs b"
proof -
  assume "valid_utf8 a"
  then have v: "list_all valid_seq (segs a)" by (simp add: valid_utf8_def)
  have "segs (concat ss @ b) = ss @ segs b" if "list_all valid_seq ss" for ss
    using that by (induction ss) (auto simp: segs_valid_append)
  from this [OF v] show ?thesis by simp
qed

lemma RuneCount_append_valid:
  "valid_utf8 a \<Longrightarrow> RuneCountInString (a @ b) = RuneCountInString a + RuneCountInString b"
  by (simp add: RuneCountInString_def segs_append_valid)

lemma valid_utf8_append: "valid_utf8 a \<Longrightarrow> valid_utf8 b \<Longrightarrow> valid_utf8 (a @ b)"
  by (simp add: valid_utf8_def segs_append_valid)

lemma valid_utf8_Nil [simp]: "valid_utf8 []"
  by (simp add: valid_utf8_def)

lemma valid_utf8_string_of_runes [simp]: "valid_utf8 (string_of_runes rs)"
  by (auto simp: valid_utf8_def segs_string_of_runes list_all_iff encode_rune_valid_seq)

lemma RuneCount_string_of_runes [simp]: "RuneCountInString (string_of_runes rs) = length rs"
  by (simp add: RuneCountInString_def segs_string_of_runes)

lemma length_runes: "length (runes s) = RuneCountInString s"
  by (simp add: runes_def RuneCountInString_def)

text \<open>Decoding inverts encoding on every list of Unicode scalar values.\<close>

lemma runes_string_of_runes: "list_all valid_rune rs \<Longrightarrow> runes (string_of_runes rs) = rs"
  unfolding runes_def segs_string_of_runes
  by (induction rs) (auto simp: seg_rune_def encode_rune_valid_seq seq_value_encode)

lemma byte_split: "lo \<le> byte c \<Longrightarrow> \<exists>x. byte c = lo + x \<and> c = char_of (lo + x)"
  by (rule exI [of _ "byte c - lo"]) simp

lemma digit64:
  fixes q z :: nat
  assumes "z < 64"
  shows "(q * 64 + z) mod 64 = z" and "(q * 64 + z) div 64 = q"
  using assms by simp_all

lemma encode_two: "2 \<le> x \<Longrightarrow> x < 32 \<Longrightarrow> z < 64 \<Longrightarrow>
  encode_rune (x * 64 + z) = [char_of (192 + x), char_of (128 + z)]"
  by (simp add: encode_rune_def valid_rune_def)

lemma encode_three:
  assumes "w < 16" "y < 64" "z < 64" "w = 0 \<Longrightarrow> 32 \<le> y" "w = 13 \<Longrightarrow> y < 32"
  shows "encode_rune (w * 4096 + y * 64 + z) = [char_of (224 + w), char_of (128 + y), char_of (128 + z)]"
proof -
  let ?r = "w * 4096 + y * 64 + z"
  have lo: "\<not> ?r < 128" "\<not> ?r < 2048" "?r < 65536" using assms by (cases "w = 0"; simp)+
  have "valid_rune ?r" using assms by (cases "w < 13"; cases "w = 13") (auto simp: valid_rune_def)
  moreover have "?r div 4096 = w" "?r div 64 mod 64 = y" "?r mod 64 = z"
  proof -
    have a: "?r = (w * 64 + y) * 64 + z" by simp
    show "?r mod 64 = z" unfolding a by (rule digit64(1)) fact
    have b: "?r div 64 = w * 64 + y" unfolding a by (rule digit64(2)) fact
    show "?r div 64 mod 64 = y" unfolding b by (rule digit64(1)) fact
    have "?r div 4096 = ?r div 64 div 64" by (simp add: div_mult2_eq [symmetric])
    then show "?r div 4096 = w" unfolding b using digit64(2) [OF assms(2)] by simp
  qed
  ultimately show ?thesis using lo by (simp add: encode_rune_def Let_def)
qed

lemma encode_four:
  assumes "v < 5" "w < 64" "y < 64" "z < 64" "v = 0 \<Longrightarrow> 16 \<le> w" "v = 4 \<Longrightarrow> w < 16"
  shows "encode_rune (v * 262144 + w * 4096 + y * 64 + z) =
    [char_of (240 + v), char_of (128 + w), char_of (128 + y), char_of (128 + z)]"
proof -
  let ?r = "v * 262144 + w * 4096 + y * 64 + z"
  have lo: "\<not> ?r < 128" "\<not> ?r < 2048" "\<not> ?r < 65536" using assms by (cases "v = 0"; simp)+
  have "?r \<le> 1114111" using assms by (cases "v = 4"; simp)
  then have "valid_rune ?r" using lo by (auto simp: valid_rune_def)
  moreover have "?r div 262144 = v" "?r div 4096 mod 64 = w" "?r div 64 mod 64 = y" "?r mod 64 = z"
  proof -
    have a: "?r = ((v * 64 + w) * 64 + y) * 64 + z" by simp
    show "?r mod 64 = z" unfolding a by (rule digit64(1)) fact
    have b: "?r div 64 = (v * 64 + w) * 64 + y" unfolding a by (rule digit64(2)) fact
    show "?r div 64 mod 64 = y" unfolding b by (rule digit64(1)) fact
    have "?r div 4096 = ?r div 64 div 64" by (simp add: div_mult2_eq [symmetric])
    then have c: "?r div 4096 = v * 64 + w" unfolding b using digit64(2) [OF assms(3)] by simp
    show "?r div 4096 mod 64 = w" unfolding c by (rule digit64(1)) fact
    have "?r div 262144 = ?r div 4096 div 64" by (simp add: div_mult2_eq [symmetric])
    then show "?r div 262144 = v" unfolding c using digit64(2) [OF assms(2)] by simp
  qed
  ultimately show ?thesis using lo by (simp add: encode_rune_def Let_def)
qed

lemma first_len_range:
  "first_len b = 1 \<Longrightarrow> b < 128"
  "first_len b = 2 \<Longrightarrow> 194 \<le> b \<and> b < 224"
  "first_len b = 3 \<Longrightarrow> 224 \<le> b \<and> b < 240"
  "first_len b = 4 \<Longrightarrow> 240 \<le> b \<and> b < 245"
  by (auto simp: first_len_def split: if_splits)

lemma first_len_le: "first_len b \<le> 4"
  by (simp add: first_len_def)

lemma encode_seq_value:
  assumes "valid_seq s"
  shows "encode_rune (seq_value s) = s"
proof -
  consider (one) a where "s = [a]" | (two) a b where "s = [a, b]" | (three) a b c where "s = [a, b, c]"
    | (four) a b c d where "s = [a, b, c, d]"
  proof -
    have "length s \<le> 4" using valid_seq_length [OF assms] first_len_le by metis
    then show thesis using assms that by (cases s rule: seq_value.cases) auto
  qed
  then show ?thesis
  proof cases
    case one
    then have "byte a < 128" using assms first_len_range(1) by simp
    then show ?thesis using one by (simp add: encode_rune_def valid_rune_def)
  next
    case two
    then have *: "194 \<le> byte a" "byte a < 224" "128 \<le> byte b" "byte b \<le> 191"
      using assms first_len_range(2) [of "byte a"] by (auto simp: accept_lo_def accept_hi_def split: if_splits)
    obtain x where x: "byte a = 192 + x" "a = char_of (192 + x)" using byte_split [of 192 a] * by auto
    obtain z where z: "byte b = 128 + z" "b = char_of (128 + z)" using byte_split [of 128 b] * by auto
    show ?thesis using two * x(1) z(1) encode_two [of x z] x(2) [symmetric] z(2) [symmetric] mod_tags(2) [of x]
      mod_tags(1) [of z] by simp
  next
    case three
    then have *: "224 \<le> byte a" "byte a < 240" "128 \<le> byte b" "byte b \<le> 191" "128 \<le> byte c" "byte c \<le> 191"
      "byte a = 224 \<Longrightarrow> 160 \<le> byte b" "byte a = 237 \<Longrightarrow> byte b \<le> 159"
      using assms first_len_range(3) [of "byte a"]
      by (auto simp: accept_lo_def accept_hi_def isCont_def split: if_splits)
    obtain w where x: "byte a = 224 + w" "a = char_of (224 + w)" using byte_split [of 224 a] * by auto
    obtain y where y: "byte b = 128 + y" "b = char_of (128 + y)" using byte_split [of 128 b] * by auto
    obtain z where z: "byte c = 128 + z" "c = char_of (128 + z)" using byte_split [of 128 c] * by auto
    have "encode_rune (w * 4096 + y * 64 + z) = [a, b, c]"
      by (subst encode_three) (use * x(1) y(1) z(1) x(2) [symmetric] y(2) [symmetric] z(2) [symmetric] in auto)
    then show ?thesis using three * x(1) y(1) z(1) mod_tags(3) [of w] mod_tags(1) [of y] mod_tags(1) [of z]
      by simp
  next
    case four
    then have *: "240 \<le> byte a" "byte a < 245" "128 \<le> byte b" "byte b \<le> 191" "128 \<le> byte c" "byte c \<le> 191"
      "128 \<le> byte d" "byte d \<le> 191" "byte a = 240 \<Longrightarrow> 144 \<le> byte b" "byte a = 244 \<Longrightarrow> byte b \<le> 143"
      using assms first_len_range(4) [of "byte a"]
      by (auto simp: accept_lo_def accept_hi_def isCont_def split: if_splits)
    obtain v where x: "byte a = 240 + v" "a = char_of (240 + v)" using byte_split [of 240 a] * by auto
    obtain w where w: "byte b = 128 + w" "b = char_of (128 + w)" using byte_split [of 128 b] * by auto
    obtain y where y: "byte c = 128 + y" "c = char_of (128 + y)" using byte_split [of 128 c] * by auto
    obtain z where z: "byte d = 128 + z" "d = char_of (128 + z)" using byte_split [of 128 d] * by auto
    have "encode_rune (v * 262144 + w * 4096 + y * 64 + z) = [a, b, c, d]"
      by (subst encode_four) (use * x(1) w(1) y(1) z(1) x(2) [symmetric] w(2) [symmetric] y(2) [symmetric]
        z(2) [symmetric] in auto)
    then show ?thesis using four * x(1) w(1) y(1) z(1) mod_tags(4) [of v] mod_tags(1) [of w]
      mod_tags(1) [of y] mod_tags(1) [of z] by simp
  qed
qed

text \<open>Encoding inverts decoding on every valid string.\<close>

lemma string_of_runes_runes: "valid_utf8 s \<Longrightarrow> string_of_runes (runes s) = s"
proof -
  assume "valid_utf8 s"
  then have "list_all valid_seq (segs s)" by (simp add: valid_utf8_def)
  then have "map (encode_rune \<circ> seg_rune) (segs s) = segs s"
    by (intro map_idI) (auto simp: list_all_iff seg_rune_def encode_seq_value)
  then show "string_of_runes (runes s) = s"
    by (simp add: string_of_runes_def runes_def)
qed

section \<open>Trimming, printing, identifiers\<close>

text \<open>\<open>unicode.IsSpace\<close>.\<close>

definition is_space :: "nat \<Rightarrow> bool" where
  "is_space r \<longleftrightarrow> (9 \<le> r \<and> r \<le> 13) \<or> r = 0x20 \<or> r = 0x85 \<or> r = 0xA0 \<or> r = 0x1680 \<or>
     (0x2000 \<le> r \<and> r \<le> 0x200A) \<or> r = 0x2028 \<or> r = 0x2029 \<or> r = 0x202F \<or> r = 0x205F \<or> r = 0x3000"

definition TrimSpace :: "string \<Rightarrow> string" where
  "TrimSpace s =
     concat (rev (dropWhile (is_space \<circ> seg_rune) (rev (dropWhile (is_space \<circ> seg_rune) (segs s)))))"

definition HasPrefix :: "string \<Rightarrow> string \<Rightarrow> bool" where
  "HasPrefix s p \<longleftrightarrow> take (length p) s = p"

definition HasSuffix :: "string \<Rightarrow> string \<Rightarrow> bool" where
  "HasSuffix s p \<longleftrightarrow> HasPrefix (rev s) (rev p)"

text \<open>\<open>strconv.Itoa\<close> and \<open>fmt\<close>'s \<open>%d\<close>.\<close>

definition digit :: "nat \<Rightarrow> char" where
  "digit d = char_of (48 + d)"

fun itoa_nat :: "nat \<Rightarrow> string" where
  "itoa_nat n = (if n < 10 then [digit n] else itoa_nat (n div 10) @ [digit (n mod 10)])"

declare itoa_nat.simps [simp del]

definition itoa :: "int \<Rightarrow> string" where
  "itoa i = (if i < 0 then CHR ''-'' # itoa_nat (nat (- i)) else itoa_nat (nat i))"

definition hex_digit :: "nat \<Rightarrow> char" where
  "hex_digit d = (if d < 10 then char_of (48 + d) else char_of (87 + d))"

definition hexEncode :: "string \<Rightarrow> string" where
  "hexEncode bs = concat (map (\<lambda>b. [hex_digit (byte b div 16), hex_digit (byte b mod 16)]) bs)"

text \<open>
  \<open>newID\<close> reads twelve random bytes; its second source is the clock, used when the operating
  system refuses randomness. The randomness is an argument: every operation that makes
  identifiers takes the entropy of its successive \<open>newID\<close> calls.
\<close>

datatype entropy = Entropy string | NoEntropy int

fun newID :: "string \<Rightarrow> entropy \<Rightarrow> string" where
  "newID prefix (Entropy b) = prefix @ ''_'' @ hexEncode b"
| "newID prefix (NoEntropy nanos) = prefix @ ''_'' @ itoa nanos"

text \<open>\<open>fmt.Sprintf("%s:%d", sessionID, clientSeq)\<close> in \<open>SubmitFragment\<close>.\<close>

definition seqKey :: "string \<Rightarrow> int \<Rightarrow> string" where
  "seqKey sessionID clientSeq = sessionID @ '':'' @ itoa clientSeq"

subsection \<open>Trimming\<close>

lemma TrimSpace_Nil [simp]: "TrimSpace [] = []"
  by (simp add: TrimSpace_def)

lemma valid_utf8_TrimSpace: "valid_utf8 s \<Longrightarrow> valid_utf8 (TrimSpace s)"
proof -
  assume "valid_utf8 s"
  then have "list_all valid_seq
      (rev (dropWhile (is_space \<circ> seg_rune) (rev (dropWhile (is_space \<circ> seg_rune) (segs s)))))"
    by (auto simp: valid_utf8_def list_all_iff dest!: set_dropWhileD)
  then show ?thesis
    unfolding valid_utf8_def TrimSpace_def by (simp add: segs_concat_valid)
qed

subsection \<open>Printed numbers are unambiguous\<close>

definition digits_value :: "string \<Rightarrow> nat" where
  "digits_value s = foldl (\<lambda>a c. 10 * a + (byte c - 48)) 0 s"

lemma digits_value_itoa_nat: "digits_value (itoa_nat n) = n"
proof (induction n rule: itoa_nat.induct)
  case (1 n)
  then show ?case
    by (subst itoa_nat.simps) (auto simp: digits_value_def digit_def byte_char_of)
qed

lemma itoa_nat_digits: "c \<in> set (itoa_nat n) \<Longrightarrow> 48 \<le> byte c \<and> byte c \<le> 57"
proof (induction n rule: itoa_nat.induct)
  case (1 n)
  then show ?case
    by (subst (asm) itoa_nat.simps) (auto simp: digit_def byte_char_of split: if_splits)
qed

lemma itoa_nat_nonempty [simp]: "itoa_nat n \<noteq> []"
  by (subst itoa_nat.simps) simp

lemma itoa_nonempty [simp]: "itoa i \<noteq> []"
  by (simp add: itoa_def)

lemma itoa_inj: "itoa i = itoa j \<Longrightarrow> i = j"
proof -
  assume eq: "itoa i = itoa j"
  have no_minus: "CHR ''-'' \<notin> set (itoa_nat n)" for n
    using itoa_nat_digits [of "CHR ''-''" n] by (auto simp: byte_def)
  have inj: "m = n" if "itoa_nat m = itoa_nat n" for m n
    using that digits_value_itoa_nat by metis
  show ?thesis
  proof (cases "i < 0"; cases "j < 0")
    assume "i < 0" "\<not> j < 0"
    then show ?thesis using eq no_minus [of "nat j"] unfolding itoa_def by (metis list.set_intros(1))
  next
    assume "\<not> i < 0" "j < 0"
    then show ?thesis using eq no_minus [of "nat i"] unfolding itoa_def by (metis list.set_intros(1))
  qed (use eq inj in \<open>force simp: itoa_def\<close>)+
qed

lemma itoa_no_colon: "CHR '':'' \<notin> set (itoa i)"
proof -
  have "CHR '':'' \<notin> set (itoa_nat n)" for n
    using itoa_nat_digits [of "CHR '':''" n] by (auto simp: byte_def)
  then show ?thesis by (simp add: itoa_def)
qed

lemma last_sep_unique:
  assumes "xs @ c # ys = xs' @ c # ys'" and "c \<notin> set ys" and "c \<notin> set ys'"
  shows "xs = xs' \<and> ys = ys'"
  using assms by (auto simp: append_eq_append_conv2 append_eq_Cons_conv Cons_eq_append_conv)

lemma first_sep_unique:
  assumes "xs @ c # ys = xs' @ c # ys'" and "c \<notin> set xs" and "c \<notin> set xs'"
  shows "xs = xs' \<and> ys = ys'"
  using assms by (auto simp: append_eq_append_conv2 append_eq_Cons_conv Cons_eq_append_conv)

lemma seqKey_inj: "seqKey sid n = seqKey sid' n' \<Longrightarrow> sid = sid' \<and> n = n'"
  using last_sep_unique [of sid "CHR '':''" "itoa n" sid' "itoa n'"] itoa_no_colon itoa_inj
  by (auto simp: seqKey_def)

lemma hex_digit_inj: "m < 16 \<Longrightarrow> n < 16 \<Longrightarrow> hex_digit m = hex_digit n \<Longrightarrow> m = n"
proof -
  assume *: "m < 16" "n < 16" "hex_digit m = hex_digit n"
  have val: "byte (hex_digit k) = (if k < 10 then 48 + k else 87 + k)" if "k < 16" for k
  proof -
    have "48 + k < 256" "87 + k < 256" using that by simp_all
    then show ?thesis unfolding hex_digit_def using byte_char_of by presburger
  qed
  have "byte (hex_digit m) = byte (hex_digit n)" using *(3) by simp
  then show ?thesis unfolding val [OF *(1)] val [OF *(2)] using *(1,2)
    by (simp split: if_splits)
qed

lemma hexEncode_Cons: "hexEncode (b # bs) =
    hex_digit (byte b div 16) # hex_digit (byte b mod 16) # hexEncode bs"
  by (simp add: hexEncode_def)

lemma byte_less: "byte c < 256"
  using char_of_byte [of c] by (cases c) (simp add: byte_def)

lemma byte_inj: "byte a = byte b \<Longrightarrow> a = b"
  by (metis char_of_byte)

lemma hexEncode_inj: "hexEncode a = hexEncode b \<Longrightarrow> a = b"
proof (induction a arbitrary: b)
  case Nil
  then show ?case by (cases b) (auto simp: hexEncode_def)
next
  case (Cons x xs)
  then obtain y ys where b: "b = y # ys" by (cases b) (auto simp: hexEncode_def)
  have bound: "byte c div 16 < 16" for c using byte_less [of c] by simp
  have "byte x div 16 = byte y div 16" "byte x mod 16 = byte y mod 16"
    using Cons.prems b hex_digit_inj [OF bound [of x] bound [of y]]
      hex_digit_inj [of "byte x mod 16" "byte y mod 16"]
    by (auto simp: hexEncode_Cons)
  then have "byte x = byte y" by (metis div_mult_mod_eq)
  moreover have "xs = ys" using Cons b by (auto simp: hexEncode_Cons)
  ultimately show ?case using b byte_inj by auto
qed

lemma newID_inj: "newID p (Entropy a) = newID p (Entropy b) \<Longrightarrow> a = b"
  by (simp add: hexEncode_inj)

lemma newID_nonempty [simp]: "newID p e \<noteq> []"
  by (cases e) auto

lemma newID_prefix:
  assumes "newID p e = newID q e'" and "CHR ''_'' \<notin> set p" and "CHR ''_'' \<notin> set q"
  shows "p = q"
  using assms by (cases e; cases e') (auto dest!: first_sep_unique)

end
