(* ===== verification/CoreTypes.thy ===== *)
theory CoreTypes
  imports GoStrings
begin

text \<open>
  The data model of \<open>internal/core\<close> (\<open>types.go\<close> and the declarations of \<open>service.go\<close>): the
  constants, the enumerations, the structs as records, the sentinel errors as a datatype, and
  the \<open>Service\<close> struct itself. A \<open>*Request\<close> is reachable only through \<open>s.requests\<close> under its
  own \<open>ID\<close>, so a pointer is modelled by the key and mutation through it by storing the record
  back (\<open>put_req\<close>). Channels are shared by reference: the two channel heaps of the record hold
  every channel ever made.
\<close>

section \<open>Constants and enumerations\<close>

definition SignupGrant :: int where "SignupGrant = 20"
definition QuestionCost :: int where "QuestionCost = 5"
definition BaseAnswerReward :: int where "BaseAnswerReward = 10"
definition InputLimitChars :: nat where "InputLimitChars = 100000"
definition OutputLimitChars :: int where "OutputLimitChars = 128000"

definition AssignedTimeout :: duration where "AssignedTimeout = 30 * second"
definition StreamingInactivityTimeout :: duration where
  "StreamingInactivityTimeout = 60 * second"

lemmas point_defs = SignupGrant_def QuestionCost_def BaseAnswerReward_def

datatype RequestStatus =
  StatusCreated | StatusQueued | StatusAssigned | StatusTyping | StatusStreaming
| StatusCompleted | StatusTimeoutCompleted | StatusRequeued | StatusAbandoned

text \<open>A reaction arrives as an arbitrary string; \<open>ReactionOther\<close> is every other spelling.\<close>

datatype Reaction = ReactionNone | ReactionLike | ReactionDislike | ReactionOther string

datatype FinishReason = FinishUnset | FinishStop | FinishLength | FinishPartial

definition KindHuman :: string where "KindHuman = ''human''"
definition KindAIPersona :: string where "KindAIPersona = ''ai_persona''"
definition KindFallback :: string where "KindFallback = ''fallback''"

lemmas kind_defs = KindHuman_def KindAIPersona_def KindFallback_def

section \<open>Records\<close>

record Message =
  Role :: string
  Content :: string

record User =
  UsrID :: string
  AccountName :: string
  UsrNickname :: string
  PasswordHash :: string
  UsrCreatedAt :: time

record Session =
  SesID :: string
  Token :: string
  SesUserID :: string
  Guest :: bool
  SesKind :: string
  SesNickname :: string
  SesCreatedAt :: time

record Request =
  ReqID :: string
  RequesterID :: string
  RequesterSessionID :: string
  RequesterGuest :: bool
  RequesterKind :: string
  AllowAIAnswers :: bool
  Messages :: "Message list"
  Model :: string
  Status :: RequestStatus
  ResponderSessionID :: string
  ResponderUserID :: string
  ResponderGuest :: bool
  ResponderKind :: string
  ResponderDisplay :: string
  PreferredResponderSessionID :: string
  BoardEligible :: bool
  FrozenPoints :: int
  QuestionCharged :: bool
  OutputLimit :: int
  ReqFinish :: FinishReason
  ReqReaction :: Reaction
  CreatedAt :: time
  UpdatedAt :: time
  CompletedAt :: time

record Conversation =
  CnvID :: string
  OwnerUserID :: string
  GuestSessionID :: string
  Title :: string
  Archived :: bool
  CnvCreatedAt :: time
  CnvUpdatedAt :: time

record ConversationMessage =
  MsgID :: string
  Seq :: nat
  MsgRole :: string
  MsgContent :: string
  SourceKind :: string
  MsgRequestID :: string
  MsgCreatedAt :: time

record Fragment =
  FrgID :: string
  FrgRequestID :: string
  FrgSessionID :: string
  ClientSeq :: int
  FrgText :: string
  FrgCreatedAt :: time

record PointEntry =
  PtsID :: string
  PtsUserID :: string
  PtsRequestID :: string
  PtsKind :: string
  Delta :: int
  PtsCreatedAt :: time

record Balance =
  Total :: int
  Held :: int
  Available :: int

definition zeroBalance :: Balance where
  "zeroBalance = \<lparr>Total = 0, Held = 0, Available = 0\<rparr>"

datatype StreamEvent =
  StreamEventFragment string string
| StreamEventDone string FinishReason

record AssignedRequest =
  AsgRequestID :: string
  AsgRequesterKind :: string
  AsgMessages :: "Message list"
  AsgCreatedAt :: time

record BoardTicket =
  TktRequestID :: string
  Category :: string
  TktStatus :: RequestStatus
  TktResponderKind :: string
  TktResponderDisplay :: string
  TktReaction :: Reaction
  AnswerLength :: nat
  TktCreatedAt :: time

record UserDTO =
  DtoID :: string
  DtoAccountName :: string
  DtoNickname :: string
  DtoGuest :: bool

record AuthResult =
  AuthToken :: string
  AuthUser :: UserDTO
  AuthBalance :: Balance

section \<open>Errors\<close>

text \<open>The sentinel errors, then the errors made in place with \<open>fmt.Errorf\<close>, then bcrypt's own.\<close>

datatype error =
  ErrAccountExists | ErrInvalidCredentials | ErrUnauthorized | ErrPasswordMismatch
| ErrInsufficientPoints | ErrInputTooLarge | ErrOutputTooLarge | ErrNoActiveAssignment
| ErrCommittedImmutable | ErrAlreadyCompleted | ErrCannotSkipCommitted | ErrReactionNotAllowed
| ErrRequestNotFound | ErrResponderUnavailable | ErrConversationNotFound
| ErrFieldsRequired | ErrClientSeqNotPositive | ErrFragmentTextRequired
| ErrFinishBeforeFragment | ErrInvalidReaction
| ErrBcrypt

section \<open>The service state\<close>

record service =
  usersByAccount :: "(string, string) gomap"
  users :: "(string, User) gomap"
  sessionsByTok :: "(string, Session) gomap"
  ledger :: "PointEntry list"
  requests :: "(string, Request) gomap"
  fragments :: "(string, Fragment list) gomap"
  seqSeen :: "(string, (string, Fragment) gomap) gomap"
  queue :: "string list"
  activeByRes :: "(string, string) gomap"
  available :: "string list"
  responders :: "(string, nat) gomap"
  acceptAI :: "(string, bool) gomap"
  subscribers :: "(string, nat list) gomap"
  conversations :: "(string, Conversation) gomap"
  convMessages :: "(string, ConversationMessage list) gomap"
  assignChans :: "AssignedRequest chan_heap"
  streamChans :: "StreamEvent chan_heap"

definition NewService :: service where
  "NewService = \<lparr>usersByAccount = [], users = [], sessionsByTok = [], ledger = [],
     requests = [], fragments = [], seqSeen = [], queue = [], activeByRes = [],
     available = [], responders = [], acceptAI = [], subscribers = [],
     conversations = [], convMessages = [], assignChans = [], streamChans = []\<rparr>"

definition put_req :: "Request \<Rightarrow> service \<Rightarrow> service" where
  "put_req r s = s\<lparr>requests := mput (ReqID r) r (requests s)\<rparr>"

text \<open>The result of an operation: the new state with an error or a value, \<open>None\<close> for a panic.\<close>

type_synonym 'a outcome = "(service \<times> (error + 'a)) option"

abbreviation fail :: "service \<Rightarrow> error \<Rightarrow> 'a outcome" where
  "fail s e \<equiv> Some (s, Inl e)"

abbreviation ok :: "service \<Rightarrow> 'a \<Rightarrow> 'a outcome" where
  "ok s v \<equiv> Some (s, Inr v)"

end
