(* ===== verification/CoreService.thy ===== *)
theory CoreService
  imports CoreTypes
begin

text \<open>
  The operations of the in-memory \<open>Service\<close> (\<open>internal/core/service.go\<close>), in an order that
  lets each use the ones it calls. Every exported method holds \<open>s.mu\<close> for its whole body, so a
  method is one atomic function on the state. \<open>rnd\<close> is the entropy of the successive \<open>newID\<close>
  calls of the operation, \<open>now\<close> the value of \<open>time.Now()\<close>. Where Go ranges over a map and the
  order shows in the result, the iteration order is an argument (\<open>ord\<close>).
\<close>

section \<open>Pure helpers\<close>

definition isTerminal :: "RequestStatus \<Rightarrow> bool" where
  "isTerminal status \<longleftrightarrow>
     status = StatusCompleted \<or> status = StatusTimeoutCompleted \<or> status = StatusAbandoned"

definition KindOrHuman :: "string \<Rightarrow> string" where
  "KindOrHuman kind = (if kind = [] then KindHuman else kind)"

definition rewardFor :: "Reaction \<Rightarrow> int" where
  "rewardFor reaction =
     (case reaction of
        ReactionLike \<Rightarrow> BaseAnswerReward * 2
      | ReactionDislike \<Rightarrow> 8
      | _ \<Rightarrow> BaseAnswerReward)"

definition validateInput :: "Message list \<Rightarrow> error option" where
  "validateInput messages =
     (if sum_list (map (\<lambda>m. RuneCountInString (Content m)) messages) > InputLimitChars
      then Some ErrInputTooLarge else None)"

fun contains :: "string list \<Rightarrow> string \<Rightarrow> bool" where
  "contains [] target = False"
| "contains (v # vs) target = (if v = target then True else contains vs target)"

definition cloneRequest :: "Request \<Rightarrow> Request" where
  "cloneRequest req = req"

section \<open>Sessions, ledger, balance\<close>

definition createSessionLocked ::
  "entropy \<Rightarrow> entropy \<Rightarrow> string \<Rightarrow> bool \<Rightarrow> string \<Rightarrow> string \<Rightarrow> time \<Rightarrow> service \<Rightarrow> service \<times> Session"
where
  "createSessionLocked e1 e2 userID guest nickname kind now s =
     (let session = \<lparr>SesID = newID ''ses'' e1, Token = newID ''tok'' e2, SesUserID = userID,
            Guest = guest, SesKind = kind, SesNickname = nickname, SesCreatedAt = now\<rparr>
      in (s\<lparr>sessionsByTok := mput (Token session) session (sessionsByTok s)\<rparr>, session))"

definition sessionByIDLocked :: "service \<Rightarrow> string \<Rightarrow> Session option" where
  "sessionByIDLocked s sessionID =
     find (\<lambda>session. SesID session = sessionID) (map snd (sessionsByTok s))"

definition addLedgerLocked ::
  "entropy \<Rightarrow> string \<Rightarrow> string \<Rightarrow> string \<Rightarrow> int \<Rightarrow> time \<Rightarrow> service \<Rightarrow> service"
where
  "addLedgerLocked e userID requestID kind delta now s =
     s\<lparr>ledger := ledger s @ [\<lparr>PtsID = newID ''pts'' e, PtsUserID = userID,
        PtsRequestID = requestID, PtsKind = kind, Delta = delta, PtsCreatedAt = now\<rparr>]\<rparr>"

definition ledgerTotal :: "string \<Rightarrow> PointEntry list \<Rightarrow> int" where
  "ledgerTotal userID es =
     sum_list (map (\<lambda>entry. if PtsUserID entry = userID then Delta entry else 0) es)"

definition heldOf :: "string \<Rightarrow> Request \<Rightarrow> int" where
  "heldOf userID req =
     (if RequesterID req = userID \<and> FrozenPoints req > 0 \<and> \<not> isTerminal (Status req)
      then FrozenPoints req else 0)"

definition balanceLocked :: "service \<Rightarrow> string \<Rightarrow> Balance" where
  "balanceLocked s userID =
     (let total = ledgerTotal userID (ledger s);
          held = msum (heldOf userID) (requests s)
      in \<lparr>Total = total, Held = held, Available = total - held\<rparr>)"

definition balanceForSessionLocked :: "service \<Rightarrow> Session \<Rightarrow> Balance" where
  "balanceForSessionLocked s session =
     (if Guest session \<or> SesUserID session = [] then zeroBalance
      else balanceLocked s (SesUserID session))"

definition authResultLocked :: "service \<Rightarrow> Session \<Rightarrow> AuthResult option" where
  "authResultLocked s session = do {
     dto \<leftarrow> (if \<not> Guest session then
              map_option (\<lambda>user. \<lparr>DtoID = UsrID user, DtoAccountName = AccountName user,
                DtoNickname = UsrNickname user, DtoGuest = False\<rparr>)
                (mget (users s) (SesUserID session))
            else Some \<lparr>DtoID = SesID session, DtoAccountName = [],
                DtoNickname = SesNickname session, DtoGuest = Guest session\<rparr>);
     Some \<lparr>AuthToken = Token session, AuthUser = dto,
           AuthBalance = balanceForSessionLocked s session\<rparr>
   }"

section \<open>Streams\<close>

definition answerTextLocked :: "service \<Rightarrow> string \<Rightarrow> string" where
  "answerTextLocked s requestID = concat (map FrgText (mget0 (fragments s) requestID))"

fun eventRequestID :: "StreamEvent \<Rightarrow> string" where
  "eventRequestID (StreamEventFragment rid _) = rid"
| "eventRequestID (StreamEventDone rid _) = rid"

fun sendAll :: "StreamEvent \<Rightarrow> nat list \<Rightarrow> StreamEvent chan_heap \<Rightarrow> StreamEvent chan_heap option" where
  "sendAll ev [] h = Some h"
| "sendAll ev (a # as) h = do {
     c \<leftarrow> heap_get h a;
     (c', _) \<leftarrow> try_send ev c;
     sendAll ev as (h[a := c'])
   }"

definition publishLocked :: "StreamEvent \<Rightarrow> service \<Rightarrow> service option" where
  "publishLocked event s = do {
     h \<leftarrow> sendAll event (mget0 (subscribers s) (eventRequestID event)) (streamChans s);
     Some (s\<lparr>streamChans := h\<rparr>)
   }"

section \<open>Queue, assignment and terminal transitions\<close>

definition removeAvailableLocked :: "string \<Rightarrow> service \<Rightarrow> service" where
  "removeAvailableLocked sessionID s =
     s\<lparr>available := filter (\<lambda>value. value \<noteq> sessionID) (available s)\<rparr>"

definition removeQueuedRequestLocked :: "string \<Rightarrow> service \<Rightarrow> service" where
  "removeQueuedRequestLocked requestID s =
     s\<lparr>queue := filter (\<lambda>value. value \<noteq> requestID) (queue s)\<rparr>"

definition clearResponder :: "Request \<Rightarrow> Request" where
  "clearResponder req = req\<lparr>ResponderSessionID := [], ResponderUserID := [],
     ResponderGuest := False, ResponderKind := [], ResponderDisplay := []\<rparr>"

definition requeueLocked :: "Request \<Rightarrow> time \<Rightarrow> service \<Rightarrow> service" where
  "requeueLocked req now s =
     (let s1 = s\<lparr>activeByRes := mdel (ResponderSessionID req) (activeByRes s)\<rparr>;
          req' = (clearResponder req)\<lparr>Status := StatusQueued, UpdatedAt := now\<rparr>;
          s2 = put_req req' s1
      in s2\<lparr>queue := queue s2 @ [ReqID req]\<rparr>)"

text \<open>\<open>abandonLocked\<close> and \<open>completeLocked\<close>: the state changes, then the final event.\<close>

definition abandonState :: "Request \<Rightarrow> time \<Rightarrow> service \<Rightarrow> service" where
  "abandonState req now s =
     (let s1 = removeQueuedRequestLocked (ReqID req) s;
          s2 = (if ResponderSessionID req \<noteq> []
                then s1\<lparr>activeByRes := mdel (ResponderSessionID req) (activeByRes s1)\<rparr> else s1);
          req' = (clearResponder req)\<lparr>Status := StatusAbandoned, FrozenPoints := 0,
                   UpdatedAt := now\<rparr>
      in put_req req' s2)"

definition abandonLocked :: "Request \<Rightarrow> time \<Rightarrow> service \<Rightarrow> service option" where
  "abandonLocked req now s =
     publishLocked (StreamEventDone (ReqID req) FinishStop) (abandonState req now s)"

definition completeState ::
  "entropy \<Rightarrow> Request \<Rightarrow> FinishReason \<Rightarrow> time \<Rightarrow> service \<Rightarrow> service"
where
  "completeState e req reason now s =
     (let s1 = s\<lparr>activeByRes := mdel (ResponderSessionID req) (activeByRes s)\<rparr>;
          status = (if reason = FinishPartial then StatusTimeoutCompleted else StatusCompleted);
          req' = req\<lparr>Status := status, ReqFinish := reason, UpdatedAt := now, CompletedAt := now\<rparr>;
          s2 = put_req req' s1
      in if mget0 (fragments s2) (ReqID req) \<noteq> [] \<and> \<not> ResponderGuest req
            \<and> ResponderUserID req \<noteq> []
         then addLedgerLocked e (ResponderUserID req) (ReqID req) ''answer_reward''
                BaseAnswerReward now s2
         else s2)"

definition completeLocked ::
  "entropy \<Rightarrow> Request \<Rightarrow> FinishReason \<Rightarrow> time \<Rightarrow> service \<Rightarrow> service option"
where
  "completeLocked e req reason now s =
     (if isTerminal (Status req) then Some s
      else publishLocked (StreamEventDone (ReqID req) reason) (completeState e req reason now s))"

definition responderAcceptsAILocked :: "service \<Rightarrow> string \<Rightarrow> bool" where
  "responderAcceptsAILocked s sessionID =
     (case mget (acceptAI s) sessionID of None \<Rightarrow> True | Some accept \<Rightarrow> accept)"

text \<open>The body of the inner loop of \<open>compatiblePairLocked\<close>: the pair passes every \<open>continue\<close>.\<close>

definition compatible :: "service \<Rightarrow> Request \<Rightarrow> string \<Rightarrow> bool" where
  "compatible s req responderID =
     (if mget0 (activeByRes s) responderID \<noteq> [] \<or> mget (responders s) responderID = None
      then False
      else case sessionByIDLocked s responderID of
        None \<Rightarrow> False
      | Some session \<Rightarrow>
          (let responderKind = KindOrHuman (SesKind session) in
           if PreferredResponderSessionID req \<noteq> [] \<and> PreferredResponderSessionID req \<noteq> responderID
           then False
           else if responderKind = KindAIPersona \<and> \<not> AllowAIAnswers req then False
           else if RequesterKind req = KindAIPersona \<and>
               (responderKind = KindAIPersona \<or> \<not> responderAcceptsAILocked s responderID)
           then False
           else True))"

fun scanResponders :: "service \<Rightarrow> Request \<Rightarrow> string list \<Rightarrow> nat option" where
  "scanResponders s req [] = None"
| "scanResponders s req (responderID # rest) =
     (if compatible s req responderID then Some 0
      else map_option Suc (scanResponders s req rest))"

fun scanQueue :: "service \<Rightarrow> string list \<Rightarrow> (nat \<times> nat) option" where
  "scanQueue s [] = None"
| "scanQueue s (requestID # rest) =
     (let next = map_option (\<lambda>(q, r). (Suc q, r)) (scanQueue s rest) in
      case mget (requests s) requestID of
        None \<Rightarrow> next
      | Some req \<Rightarrow>
          if isTerminal (Status req) \<or> Status req = StatusStreaming then next
          else (case scanResponders s req (available s) of
                  None \<Rightarrow> next
                | Some r \<Rightarrow> Some (0, r)))"

text \<open>\<open>(-1, -1)\<close> of the source is \<open>None\<close>.\<close>

definition compatiblePairLocked :: "service \<Rightarrow> (nat \<times> nat) option" where
  "compatiblePairLocked s = scanQueue s (queue s)"

text \<open>One round of the loop of \<open>tryAssignLocked\<close>, for the pair found.\<close>

definition assignPair :: "time \<Rightarrow> nat \<Rightarrow> nat \<Rightarrow> service \<Rightarrow> service option" where
  "assignPair now queueIndex responderIndex s =
     (let requestID = queue s ! queueIndex;
          s1 = s\<lparr>queue := remove_at queueIndex (queue s)\<rparr>;
          responderID = available s1 ! responderIndex;
          s2 = s1\<lparr>available := remove_at responderIndex (available s1)\<rparr>
      in do {
        req \<leftarrow> mget (requests s2) requestID;
        ch \<leftarrow> mget (responders s2) responderID;
        session \<leftarrow> sessionByIDLocked s2 responderID;
        let req' = req\<lparr>Status := StatusAssigned, ResponderSessionID := responderID,
              ResponderGuest := Guest session, ResponderUserID := SesUserID session,
              ResponderKind := KindOrHuman (SesKind session),
              ResponderDisplay := SesNickname session, UpdatedAt := now\<rparr>;
        let s3 = put_req req' s2;
        let s4 = s3\<lparr>activeByRes := mput responderID requestID (activeByRes s3)\<rparr>;
        let assignment = \<lparr>AsgRequestID = ReqID req', AsgRequesterKind = RequesterKind req',
              AsgMessages = Messages req', AsgCreatedAt = CreatedAt req'\<rparr>;
        c \<leftarrow> heap_get (assignChans s4) ch;
        (c', sent) \<leftarrow> try_send assignment c;
        let s5 = s4\<lparr>assignChans := (assignChans s4)[ch := c']\<rparr>;
        Some (if sent then s5 else requeueLocked req' now s5)
      })"

lemma scanResponders_bound: "scanResponders s req xs = Some i \<Longrightarrow> i < length xs"
  by (induction xs arbitrary: i) (auto split: if_splits)

lemma scanQueue_bound:
  "scanQueue s xs = Some (q, r) \<Longrightarrow> q < length xs \<and> r < length (available s)"
  by (induction xs arbitrary: q r)
    (auto simp: Let_def split: option.splits if_splits dest: scanResponders_bound)

lemma compatiblePair_bound:
  "compatiblePairLocked s = Some (q, r) \<Longrightarrow> q < length (queue s) \<and> r < length (available s)"
  by (simp add: compatiblePairLocked_def scanQueue_bound)

lemma assignPair_available:
  "assignPair now q r s = Some s' \<Longrightarrow> available s' = remove_at r (available s)"
  by (auto simp: assignPair_def Let_def put_req_def requeueLocked_def
      split: Option.bind_splits if_splits)

text \<open>The loop ends: every round takes one responder out of \<open>available\<close>.\<close>

function tryAssignLocked :: "time \<Rightarrow> service \<Rightarrow> service option" where
  "tryAssignLocked now s =
     (case compatiblePairLocked s of
        None \<Rightarrow> Some s
      | Some (queueIndex, responderIndex) \<Rightarrow>
          (case assignPair now queueIndex responderIndex s of
             None \<Rightarrow> None
           | Some s' \<Rightarrow> tryAssignLocked now s'))"
  by pat_completeness auto
termination
  by (relation "measure (\<lambda>(now, s). length (available s))")
    (auto dest!: compatiblePair_bound assignPair_available simp: length_remove_at)

declare tryAssignLocked.simps [simp del]

end
