(* ===== verification/CoreOps.thy ===== *)
theory CoreOps
  imports CoreService
begin

text \<open>
  The exported methods of the in-memory \<open>Service\<close>: accounts and sessions, request creation,
  the responder protocol, the fallback primitives, timeouts, reactions, streams and the public
  board. Non-ASCII literals of the source are written as their UTF-8 bytes. bcrypt is outside
  the repository: \<open>gen\<close> and \<open>cmp\<close> stand for \<open>GenerateFromPassword\<close> (\<open>None\<close> for its error)
  and \<open>CompareHashAndPassword\<close>.
\<close>

section \<open>Accounts and sessions\<close>

definition Register ::
  "(string \<Rightarrow> string option) \<Rightarrow> (nat \<Rightarrow> entropy) \<Rightarrow> time \<Rightarrow> string \<Rightarrow> string \<Rightarrow> string \<Rightarrow> string
   \<Rightarrow> service \<Rightarrow> AuthResult outcome"
where
  "Register gen rnd now accountName0 nickname0 password repeated s =
     (let accountName = TrimSpace accountName0; nickname = TrimSpace nickname0 in
      if accountName = [] \<or> nickname = [] \<or> password = [] then fail s ErrFieldsRequired
      else if password \<noteq> repeated then fail s ErrPasswordMismatch
      else case gen password of
        None \<Rightarrow> fail s ErrBcrypt
      | Some hash \<Rightarrow>
          (if mget (usersByAccount s) accountName \<noteq> None then fail s ErrAccountExists
           else
             let user = \<lparr>UsrID = newID ''usr'' (rnd 0), AccountName = accountName,
                   UsrNickname = nickname, PasswordHash = hash, UsrCreatedAt = now\<rparr>;
                 s1 = s\<lparr>users := mput (UsrID user) user (users s)\<rparr>;
                 s2 = s1\<lparr>usersByAccount := mput accountName (UsrID user) (usersByAccount s1)\<rparr>;
                 s3 = addLedgerLocked (rnd 1) (UsrID user) [] ''signup_grant'' SignupGrant now s2;
                 (s4, session) = createSessionLocked (rnd 2) (rnd 3) (UsrID user) False nickname
                   KindHuman now s3
             in do { auth \<leftarrow> authResultLocked s4 session; ok s4 auth }))"

definition Login ::
  "(string \<Rightarrow> string \<Rightarrow> bool) \<Rightarrow> (nat \<Rightarrow> entropy) \<Rightarrow> time \<Rightarrow> string \<Rightarrow> string \<Rightarrow> service
   \<Rightarrow> AuthResult outcome"
where
  "Login cmp rnd now accountName password s =
     (case mget (usersByAccount s) (TrimSpace accountName) of
        None \<Rightarrow> fail s ErrInvalidCredentials
      | Some userID \<Rightarrow> do {
          user \<leftarrow> mget (users s) userID;
          if \<not> cmp (PasswordHash user) password then fail s ErrInvalidCredentials
          else do {
            let (s1, session) = createSessionLocked (rnd 0) (rnd 1) (UsrID user) False
              (UsrNickname user) KindHuman now s;
            auth \<leftarrow> authResultLocked s1 session;
            ok s1 auth
          }
        })"

definition guestNickname :: string where "guestNickname = ''Guest Operator''"

definition personaNickname :: string where
  "personaNickname = [CHR 0xE6, CHR 0xB7, CHR 0xB1, CHR 0xE6, CHR 0x80, CHR 0x9D, CHR 0xE4, CHR 0xBC, CHR 0xAA,
     CHR 0xE4, CHR 0xBA, CHR 0xBA]"

definition GuestSession ::
  "(nat \<Rightarrow> entropy) \<Rightarrow> time \<Rightarrow> string \<Rightarrow> service \<Rightarrow> (service \<times> AuthResult) option"
where
  "GuestSession rnd now nickname0 s =
     (let nickname = (if TrimSpace nickname0 = [] then guestNickname else nickname0);
          (s1, session) = createSessionLocked (rnd 0) (rnd 1) [] True nickname KindHuman now s
      in do { auth \<leftarrow> authResultLocked s1 session; Some (s1, auth) })"

definition PersonaSession ::
  "(nat \<Rightarrow> entropy) \<Rightarrow> time \<Rightarrow> string \<Rightarrow> service \<Rightarrow> (service \<times> AuthResult) option"
where
  "PersonaSession rnd now nickname0 s =
     (let nickname = (if TrimSpace nickname0 = [] then personaNickname else nickname0);
          (s1, session) = createSessionLocked (rnd 0) (rnd 1) [] True nickname KindAIPersona now s
      in do { auth \<leftarrow> authResultLocked s1 session; Some (s1, auth) })"

definition Me :: "string \<Rightarrow> service \<Rightarrow> AuthResult outcome" where
  "Me token s =
     (case mget (sessionsByTok s) token of
        None \<Rightarrow> fail s ErrUnauthorized
      | Some session \<Rightarrow> do { auth \<leftarrow> authResultLocked s session; ok s auth })"

definition LedgerForUser :: "string \<Rightarrow> service \<Rightarrow> (PointEntry list \<times> Balance) outcome" where
  "LedgerForUser token s =
     (case mget (sessionsByTok s) token of
        None \<Rightarrow> fail s ErrUnauthorized
      | Some session \<Rightarrow>
          if Guest session then fail s ErrUnauthorized
          else ok s (filter (\<lambda>entry. PtsUserID entry = SesUserID session) (ledger s),
                     balanceLocked s (SesUserID session)))"

section \<open>Creating requests\<close>

definition createRequest ::
  "(nat \<Rightarrow> entropy) \<Rightarrow> time \<Rightarrow> string \<Rightarrow> string \<Rightarrow> Message list \<Rightarrow> int \<Rightarrow> bool \<Rightarrow> string
   \<Rightarrow> service \<Rightarrow> Request outcome"
where
  "createRequest rnd now token model messages maxOutputChars0 allowAI preferred s =
     (case validateInput messages of
        Some err \<Rightarrow> fail s err
      | None \<Rightarrow>
          (let maxOutputChars = (if maxOutputChars0 \<le> 0 \<or> maxOutputChars0 > OutputLimitChars
                 then OutputLimitChars else maxOutputChars0)
           in case mget (sessionsByTok s) token of
             None \<Rightarrow> fail s ErrUnauthorized
           | Some session \<Rightarrow>
               if preferred \<noteq> [] \<and> KindOrHuman (SesKind session) \<noteq> KindAIPersona
               then fail s ErrUnauthorized
               else if \<not> Guest session \<and>
                   Available (balanceLocked s (SesUserID session)) < QuestionCost
               then fail s ErrInsufficientPoints
               else
                 let frozenPoints = (if Guest session then 0 else QuestionCost);
                     req = \<lparr>ReqID = newID ''req'' (rnd 0), RequesterID = SesUserID session,
                       RequesterSessionID = SesID session, RequesterGuest = Guest session,
                       RequesterKind = KindOrHuman (SesKind session), AllowAIAnswers = allowAI,
                       Messages = messages, Model = model, Status = StatusQueued,
                       ResponderSessionID = [], ResponderUserID = [], ResponderGuest = False,
                       ResponderKind = [], ResponderDisplay = [],
                       PreferredResponderSessionID = preferred,
                       BoardEligible = Guest session \<and> SesKind session \<noteq> KindAIPersona,
                       FrozenPoints = frozenPoints, QuestionCharged = False,
                       OutputLimit = maxOutputChars, ReqFinish = FinishUnset,
                       ReqReaction = ReactionNone, CreatedAt = now, UpdatedAt = now,
                       CompletedAt = 0\<rparr>;
                     s1 = put_req req s;
                     s2 = s1\<lparr>queue := queue s1 @ [ReqID req]\<rparr>
                 in do {
                   s3 \<leftarrow> tryAssignLocked now s2;
                   req' \<leftarrow> mget (requests s3) (ReqID req);
                   ok s3 (cloneRequest req')
                 }))"

definition CreateRequest ::
  "(nat \<Rightarrow> entropy) \<Rightarrow> time \<Rightarrow> string \<Rightarrow> string \<Rightarrow> Message list \<Rightarrow> int \<Rightarrow> bool list
   \<Rightarrow> service \<Rightarrow> Request outcome"
where
  "CreateRequest rnd now token model messages maxOutputChars allowAIAnswers s =
     (let allowAI = (allowAIAnswers = [] \<or> hd allowAIAnswers)
      in createRequest rnd now token model messages maxOutputChars allowAI [] s)"

definition CreateTargetedRequest ::
  "(nat \<Rightarrow> entropy) \<Rightarrow> time \<Rightarrow> string \<Rightarrow> string \<Rightarrow> Message list \<Rightarrow> int \<Rightarrow> string
   \<Rightarrow> service \<Rightarrow> Request outcome"
where
  "CreateTargetedRequest rnd now token model messages maxOutputChars preferred s =
     (if preferred = [] then fail s ErrResponderUnavailable
      else createRequest rnd now token model messages maxOutputChars False preferred s)"

section \<open>Responders\<close>

definition RegisterResponder :: "string \<Rightarrow> service \<Rightarrow> (string \<times> nat) outcome" where
  "RegisterResponder token s =
     (case mget (sessionsByTok s) token of
        None \<Rightarrow> fail s ErrUnauthorized
      | Some session \<Rightarrow>
          (let ch = length (assignChans s);
               s1 = s\<lparr>assignChans := assignChans s @ [make_chan 4]\<rparr>;
               s2 = s1\<lparr>responders := mput (SesID session) ch (responders s1)\<rparr>
           in ok s2 (SesID session, ch)))"

definition UnregisterResponder ::
  "entropy \<Rightarrow> time \<Rightarrow> string \<Rightarrow> service \<Rightarrow> service option"
where
  "UnregisterResponder e now sessionID s = do {
     s1 \<leftarrow> (case mget (responders s) sessionID of
             None \<Rightarrow> Some s
           | Some ch \<Rightarrow> do {
               c \<leftarrow> heap_get (assignChans s) ch;
               c' \<leftarrow> close_chan c;
               Some (s\<lparr>responders := mdel sessionID (responders s),
                       assignChans := (assignChans s)[ch := c']\<rparr>)
             });
     let s2 = s1\<lparr>acceptAI := mdel sessionID (acceptAI s1)\<rparr>;
     let s3 = removeAvailableLocked sessionID s2;
     let requestID = mget0 (activeByRes s3) sessionID;
     if requestID = [] then Some s3
     else case mget (requests s3) requestID of
       None \<Rightarrow> Some s3
     | Some req \<Rightarrow>
         if isTerminal (Status req) then Some s3
         else if mget0 (fragments s3) requestID = [] then
           (if PreferredResponderSessionID req \<noteq> [] then abandonLocked req now s3
            else Some (requeueLocked req now s3))
         else completeLocked e req FinishPartial now s3
   }"

definition makeAvailable :: "time \<Rightarrow> string \<Rightarrow> service \<Rightarrow> unit outcome" where
  "makeAvailable now sessionID s =
     (if mget0 (activeByRes s) sessionID \<noteq> [] then ok s ()
      else do {
        let s1 = (if \<not> contains (available s) sessionID
                  then s\<lparr>available := available s @ [sessionID]\<rparr> else s);
        s2 \<leftarrow> tryAssignLocked now s1;
        ok s2 ()
      })"

definition MarkResponderAvailable ::
  "time \<Rightarrow> string \<Rightarrow> bool list \<Rightarrow> service \<Rightarrow> unit outcome"
where
  "MarkResponderAvailable now sessionID acceptAIQuestions s =
     (if mget (responders s) sessionID = None then fail s ErrResponderUnavailable
      else
        let s1 = s\<lparr>acceptAI := mput sessionID (acceptAIQuestions = [] \<or> hd acceptAIQuestions)
                     (acceptAI s)\<rparr>
        in makeAvailable now sessionID s1)"

definition ResumeResponder :: "time \<Rightarrow> string \<Rightarrow> service \<Rightarrow> unit outcome" where
  "ResumeResponder now sessionID s =
     (if mget (responders s) sessionID = None then fail s ErrResponderUnavailable
      else makeAvailable now sessionID s)"

section \<open>Fallback primitives\<close>

definition fallbackDisplay :: string where
  "fallbackDisplay = [CHR 0xE5, CHR 0x9B, CHR 0x9E, CHR 0xE9, CHR 0x80, CHR 0x80, CHR 0xE5, CHR 0x8A, CHR 0xA9,
     CHR 0xE6, CHR 0x89, CHR 0x8B]"

definition AcquireFallbackAssignment ::
  "time \<Rightarrow> string \<Rightarrow> service \<Rightarrow> service \<times> (string \<times> AssignedRequest) option"
where
  "AcquireFallbackAssignment now requestID s =
     (case mget (requests s) requestID of
        None \<Rightarrow> (s, None)
      | Some req \<Rightarrow>
          if PreferredResponderSessionID req \<noteq> [] \<or> \<not> AllowAIAnswers req
             \<or> Status req \<noteq> StatusQueued \<or> isTerminal (Status req)
             \<or> mget0 (fragments s) requestID \<noteq> []
          then (s, None)
          else
            let s1 = removeQueuedRequestLocked requestID s;
                sessionID = ''fallback_'' @ requestID;
                req' = req\<lparr>Status := StatusAssigned, ResponderSessionID := sessionID,
                  ResponderUserID := [], ResponderGuest := True, ResponderKind := KindFallback,
                  ResponderDisplay := fallbackDisplay, UpdatedAt := now\<rparr>;
                s2 = put_req req' s1;
                s3 = s2\<lparr>activeByRes := mput sessionID requestID (activeByRes s2)\<rparr>
            in (s3, Some (sessionID, \<lparr>AsgRequestID = ReqID req',
                  AsgRequesterKind = RequesterKind req', AsgMessages = Messages req',
                  AsgCreatedAt = CreatedAt req'\<rparr>)))"

definition FallbackStillWanted :: "string \<Rightarrow> service \<Rightarrow> bool" where
  "FallbackStillWanted requestID s =
     (case mget (requests s) requestID of
        None \<Rightarrow> False
      | Some req \<Rightarrow> AllowAIAnswers req \<and> \<not> isTerminal (Status req)
          \<and> mget0 (fragments s) requestID = [])"

section \<open>Timeouts\<close>

text \<open>One round of the loop over \<open>s.requests\<close>, then the loop in the order \<open>ord\<close>.\<close>

definition sweepOne ::
  "entropy \<Rightarrow> time \<Rightarrow> duration \<Rightarrow> duration \<Rightarrow> string \<Rightarrow> service \<Rightarrow> (service \<times> string list) option"
where
  "sweepOne e now assignedTimeout streamingTimeout requestID s =
     (case mget (requests s) requestID of
        None \<Rightarrow> Some (s, [])
      | Some req \<Rightarrow>
          if isTerminal (Status req) then Some (s, [])
          else if Status req = StatusAssigned \<and> mget0 (fragments s) (ReqID req) = []
              \<and> assignedTimeout > 0 \<and> time_sub now (UpdatedAt req) \<ge> assignedTimeout
          then (if PreferredResponderSessionID req \<noteq> []
                then do {
                  s1 \<leftarrow> abandonLocked req now s;
                  Some (s1, [ReqID req @ '':targeted_timeout_abandoned''])
                }
                else Some (requeueLocked req now s, [ReqID req @ '':assigned_timeout_requeued'']))
          else if Status req = StatusStreaming \<and> mget0 (fragments s) (ReqID req) \<noteq> []
              \<and> streamingTimeout > 0 \<and> time_sub now (UpdatedAt req) \<ge> streamingTimeout
          then do {
            s1 \<leftarrow> completeLocked e req FinishPartial now s;
            Some (s1, [ReqID req @ '':streaming_timeout_completed''])
          }
          else Some (s, []))"

fun sweepLoop ::
  "(nat \<Rightarrow> entropy) \<Rightarrow> time \<Rightarrow> duration \<Rightarrow> duration \<Rightarrow> string list \<Rightarrow> service
   \<Rightarrow> (service \<times> string list) option"
where
  "sweepLoop rnd now assignedTimeout streamingTimeout [] s = Some (s, [])"
| "sweepLoop rnd now assignedTimeout streamingTimeout (requestID # ord) s = do {
     (s1, changed) \<leftarrow> sweepOne (rnd (length ord)) now assignedTimeout streamingTimeout requestID s;
     (s2, rest) \<leftarrow> sweepLoop rnd now assignedTimeout streamingTimeout ord s1;
     Some (s2, changed @ rest)
   }"

definition SweepTimeouts ::
  "string list \<Rightarrow> (nat \<Rightarrow> entropy) \<Rightarrow> time \<Rightarrow> duration \<Rightarrow> duration \<Rightarrow> service
   \<Rightarrow> (service \<times> string list) option"
where
  "SweepTimeouts ord rnd now assignedTimeout streamingTimeout s = do {
     (s1, changed) \<leftarrow> sweepLoop rnd now assignedTimeout streamingTimeout ord s;
     s2 \<leftarrow> (if changed \<noteq> [] then tryAssignLocked now s1 else Some s1);
     Some (s2, changed)
   }"

text \<open>
  \<open>RunTimeoutSweeper\<close>: the ticker's period, and the loop over the ticks that arrive before the
  context is done; a tick carries the map iteration order, the entropy and the instant.
\<close>

definition sweeperInterval :: "duration \<Rightarrow> duration" where
  "sweeperInterval interval = (if interval \<le> 0 then second else interval)"

fun RunTimeoutSweeper ::
  "(string list \<times> (nat \<Rightarrow> entropy) \<times> time) list \<Rightarrow> service \<Rightarrow> service option"
where
  "RunTimeoutSweeper [] s = Some s"
| "RunTimeoutSweeper ((ord, rnd, now) # ticks) s = do {
     (s1, _) \<leftarrow> SweepTimeouts ord rnd now AssignedTimeout StreamingInactivityTimeout s;
     RunTimeoutSweeper ticks s1
   }"

section \<open>Answering\<close>

definition SubmitFragment ::
  "(nat \<Rightarrow> entropy) \<Rightarrow> time \<Rightarrow> string \<Rightarrow> int \<Rightarrow> string \<Rightarrow> service \<Rightarrow> (Fragment \<times> bool) outcome"
where
  "SubmitFragment rnd now sessionID clientSeq text s =
     (if clientSeq \<le> 0 then fail s ErrClientSeqNotPositive
      else if text = [] then fail s ErrFragmentTextRequired
      else let requestID = mget0 (activeByRes s) sessionID in
        if requestID = [] then fail s ErrNoActiveAssignment
        else case mget (requests s) requestID of
          None \<Rightarrow> fail s ErrRequestNotFound
        | Some req \<Rightarrow>
            if isTerminal (Status req) then fail s ErrAlreadyCompleted
            else let key = seqKey sessionID clientSeq in
              case mget (mget0 (seqSeen s) requestID) key of
                Some existing \<Rightarrow> ok s (existing, True)
              | None \<Rightarrow>
                  if int (RuneCountInString (answerTextLocked s requestID))
                     + int (RuneCountInString text) > OutputLimit req
                  then fail s ErrOutputTooLarge
                  else
                    let fragment = \<lparr>FrgID = newID ''frg'' (rnd 0), FrgRequestID = requestID,
                          FrgSessionID = sessionID, ClientSeq = clientSeq, FrgText = text,
                          FrgCreatedAt = now\<rparr>;
                        s1 = s\<lparr>seqSeen := mput requestID
                               (mput key fragment (mget0 (seqSeen s) requestID)) (seqSeen s)\<rparr>;
                        s2 = s1\<lparr>fragments := mput requestID
                               (mget0 (fragments s1) requestID @ [fragment]) (fragments s1)\<rparr>;
                        s3 = (if \<not> QuestionCharged req \<and> \<not> RequesterGuest req
                              then addLedgerLocked (rnd 1) (RequesterID req) (ReqID req)
                                     ''question_charge'' (- QuestionCost) now s2
                              else s2);
                        req1 = (if \<not> QuestionCharged req
                                then req\<lparr>QuestionCharged := True, FrozenPoints := 0\<rparr> else req);
                        req2 = req1\<lparr>Status := StatusStreaming, UpdatedAt := now\<rparr>;
                        s4 = put_req req2 s3
                    in do {
                      s5 \<leftarrow> publishLocked (StreamEventFragment requestID text) s4;
                      s6 \<leftarrow> (if int (RuneCountInString (answerTextLocked s5 requestID))
                                 \<ge> OutputLimit req2
                             then completeLocked (rnd 2) req2 FinishLength now s5
                             else Some s5);
                      ok s6 (fragment, False)
                    })"

definition Finish :: "entropy \<Rightarrow> time \<Rightarrow> string \<Rightarrow> service \<Rightarrow> unit outcome" where
  "Finish e now sessionID s =
     (let requestID = mget0 (activeByRes s) sessionID in
      if requestID = [] then fail s ErrNoActiveAssignment
      else case mget (requests s) requestID of
        None \<Rightarrow> fail s ErrRequestNotFound
      | Some req \<Rightarrow>
          if mget0 (fragments s) requestID = [] then fail s ErrFinishBeforeFragment
          else do { s1 \<leftarrow> completeLocked e req FinishStop now s; ok s1 () })"

text \<open>\<open>Skip\<close> reads the clock for the requeue and again for the assignment that follows it.\<close>

definition Skip :: "time \<Rightarrow> time \<Rightarrow> string \<Rightarrow> service \<Rightarrow> unit outcome" where
  "Skip now now' sessionID s =
     (let requestID = mget0 (activeByRes s) sessionID in
      if requestID = [] then fail s ErrNoActiveAssignment
      else case mget (requests s) requestID of
        None \<Rightarrow> fail s ErrRequestNotFound
      | Some req \<Rightarrow>
          if mget0 (fragments s) requestID \<noteq> [] then fail s ErrCannotSkipCommitted
          else if PreferredResponderSessionID req \<noteq> [] \<or> RequesterKind req = KindAIPersona
          then do { s1 \<leftarrow> abandonLocked req now s; ok s1 () }
          else do { s1 \<leftarrow> tryAssignLocked now' (requeueLocked req now s); ok s1 () })"

definition CancelBeforeFirstFragment ::
  "time \<Rightarrow> string \<Rightarrow> service \<Rightarrow> (service \<times> bool) option"
where
  "CancelBeforeFirstFragment now requestID s =
     (case mget (requests s) requestID of
        None \<Rightarrow> Some (s, False)
      | Some req \<Rightarrow>
          if isTerminal (Status req) \<or> mget0 (fragments s) requestID \<noteq> [] then Some (s, False)
          else do { s1 \<leftarrow> abandonLocked req now s; Some (s1, True) })"

section \<open>Reactions\<close>

definition isRequester :: "Session \<Rightarrow> Request \<Rightarrow> bool" where
  "isRequester session req \<longleftrightarrow>
     (\<not> Guest session \<and> RequesterID req = SesUserID session) \<or>
     (Guest session \<and> RequesterGuest req \<and> RequesterSessionID req = SesID session)"

text \<open>\<open>now\<close> is the instant \<open>time.Since\<close> reads, \<open>now'\<close> the one of the ledger entry.\<close>

definition React ::
  "entropy \<Rightarrow> time \<Rightarrow> time \<Rightarrow> string \<Rightarrow> string \<Rightarrow> Reaction \<Rightarrow> service \<Rightarrow> Balance outcome"
where
  "React e now now' token requestID reaction s =
     (if reaction \<noteq> ReactionNone \<and> reaction \<noteq> ReactionLike \<and> reaction \<noteq> ReactionDislike
      then fail s ErrInvalidReaction
      else case mget (sessionsByTok s) token of
        None \<Rightarrow> fail s ErrUnauthorized
      | Some session \<Rightarrow>
          (case mget (requests s) requestID of
             None \<Rightarrow> fail s ErrRequestNotFound
           | Some req \<Rightarrow>
               if \<not> isRequester session req \<or> \<not> isTerminal (Status req)
               then fail s ErrReactionNotAllowed
               else if is_zero_time (CompletedAt req)
                   \<or> time_sub now (CompletedAt req) > 24 * 3600 * second
               then fail s ErrReactionNotAllowed
               else if ResponderGuest req \<or> ResponderUserID req = []
               then let s1 = put_req (req\<lparr>ReqReaction := reaction\<rparr>) s
                    in ok s1 (if Guest session then zeroBalance
                              else balanceLocked s1 (SesUserID session))
               else
                 let oldReward = rewardFor (ReqReaction req);
                     newReward = rewardFor reaction;
                     delta = newReward - oldReward;
                     s1 = put_req (req\<lparr>ReqReaction := reaction\<rparr>) s;
                     s2 = (if delta \<noteq> 0
                           then addLedgerLocked e (ResponderUserID req) (ReqID req)
                                  ''reaction_adjustment'' delta now' s1
                           else s1)
                 in ok s2 (if Guest session then zeroBalance
                           else balanceLocked s2 (ResponderUserID req))))"

section \<open>Streams and snapshots\<close>

definition Subscribe :: "string \<Rightarrow> service \<Rightarrow> nat outcome" where
  "Subscribe requestID s =
     (case mget (requests s) requestID of
        None \<Rightarrow> fail s ErrRequestNotFound
      | Some req \<Rightarrow> do {
          let ch = length (streamChans s);
          let c0 = make_chan 64;
          let answer = answerTextLocked s requestID;
          c1 \<leftarrow> (if answer \<noteq> [] then send (StreamEventFragment requestID answer) c0 else Some c0);
          c2 \<leftarrow> (if isTerminal (Status req)
                 then send (StreamEventDone requestID (ReqFinish req)) c1 else Some c1);
          ok (s\<lparr>streamChans := streamChans s @ [c2],
                subscribers := mput requestID (mget0 (subscribers s) requestID @ [ch])
                  (subscribers s)\<rparr>) ch
        })"

definition unsubscribe :: "string \<Rightarrow> nat \<Rightarrow> service \<Rightarrow> service option" where
  "unsubscribe requestID ch s = do {
     let s1 = (case mget (subscribers s) requestID of
                 None \<Rightarrow> s
               | Some chs \<Rightarrow> s\<lparr>subscribers := mput requestID (filter (\<lambda>c. c \<noteq> ch) chs)
                               (subscribers s)\<rparr>);
     c \<leftarrow> heap_get (streamChans s1) ch;
     c' \<leftarrow> close_chan c;
     Some (s1\<lparr>streamChans := (streamChans s1)[ch := c']\<rparr>)
   }"

definition RequestSnapshot :: "string \<Rightarrow> service \<Rightarrow> error + (Request \<times> string)" where
  "RequestSnapshot requestID s =
     (case mget (requests s) requestID of
        None \<Rightarrow> Inl ErrRequestNotFound
      | Some req \<Rightarrow> Inr (cloneRequest req, answerTextLocked s requestID))"

section \<open>Counters for the persona subsystem\<close>

definition OnlineResponderCount :: "service \<Rightarrow> nat" where
  "OnlineResponderCount s = length (responders s)"

definition OnlineHumanResponderCount :: "service \<Rightarrow> nat" where
  "OnlineHumanResponderCount s =
     length (filter (\<lambda>sessionID. list_ex (\<lambda>session. SesID session = sessionID
        \<and> KindOrHuman (SesKind session) = KindHuman) (map snd (sessionsByTok s)))
       (mkeys (responders s)))"

definition QueuedRequestCount :: "service \<Rightarrow> nat" where
  "QueuedRequestCount s = length (queue s)"

definition TryPersonaLeader :: "string \<Rightarrow> duration \<Rightarrow> service \<Rightarrow> bool" where
  "TryPersonaLeader podID ttl s = True"

section \<open>The public board\<close>

definition categoryNormal :: string where
  "categoryNormal = [CHR 0xE5, CHR 0xB8, CHR 0xB8, CHR 0xE8, CHR 0xA7, CHR 0x84, CHR 0xE6, CHR 0x8F, CHR 0x90,
     CHR 0xE9, CHR 0x97, CHR 0xAE]"

definition categoryShort :: string where
  "categoryShort = [CHR 0xE9, CHR 0x97, CHR 0xAA, CHR 0xE7, CHR 0x94, CHR 0xB5, CHR 0xE9, CHR 0x97, CHR 0xAE,
     CHR 0xE7, CHR 0xAD, CHR 0x94]"

definition categoryLong :: string where
  "categoryLong = [CHR 0xE9, CHR 0x95, CHR 0xBF, CHR 0xE7, CHR 0xAF, CHR 0x87, CHR 0xE5, CHR 0xA4, CHR 0xA7,
     CHR 0xE8, CHR 0xAE, CHR 0xBA]"

definition categoryFollowUp :: string where
  "categoryFollowUp = [CHR 0x20, CHR 0xC2, CHR 0xB7, CHR 0x20, CHR 0xE8, CHR 0xBF, CHR 0x9E, CHR 0xE7, CHR 0xBB,
     CHR 0xAD, CHR 0xE8, CHR 0xBF, CHR 0xBD, CHR 0xE9, CHR 0x97, CHR 0xAE]"

definition QuestionCategory :: "Message list \<Rightarrow> string" where
  "QuestionCategory messages =
     (let total = sum_list (map (\<lambda>m. RuneCountInString (Content m)) messages);
          userTurns = length (filter (\<lambda>m. Role m = ''user'') messages);
          category = (if total \<le> 40 then categoryShort
                      else if total > 400 then categoryLong else categoryNormal)
      in if userTurns > 1 then category @ categoryFollowUp else category)"

definition boardTicket :: "service \<Rightarrow> Request \<Rightarrow> BoardTicket" where
  "boardTicket s r = \<lparr>TktRequestID = ReqID r, Category = QuestionCategory (Messages r),
     TktStatus = Status r, TktResponderKind = ResponderKind r,
     TktResponderDisplay = ResponderDisplay r, TktReaction = ReqReaction r,
     AnswerLength = RuneCountInString (answerTextLocked s (ReqID r)), TktCreatedAt = CreatedAt r\<rparr>"

text \<open>
  \<open>sort.Slice\<close> is not stable and the loop ranges over a map: every result the code can return
  is the stable sort of some iteration order \<open>ord\<close>.
\<close>

definition Board :: "string list \<Rightarrow> int \<Rightarrow> service \<Rightarrow> BoardTicket list" where
  "Board ord limit0 s =
     (let limit = (if limit0 \<le> 0 \<or> limit0 > 200 then 50 else limit0);
          reqs = filter (\<lambda>r. BoardEligible r \<and> Status r \<noteq> StatusAbandoned)
                   (List.map_filter (mget (requests s)) ord);
          sorted_reqs = sort_key (\<lambda>r. - CreatedAt r) reqs
      in map (boardTicket s) (take (nat limit) sorted_reqs))"

end
