(* ===== verification/CoreInv.thy ===== *)
theory CoreInv
  imports CoreOps
begin

text \<open>
  The invariant of the in-memory service, split by the fields it relates: sessions and users,
  queue, active assignments, available responders, channels, fragments, and the per-request
  facts \<open>req_inv\<close>. Each primitive transition (requeue, abandon, complete, assign, publish) has
  one preservation lemma per part; the exported operations compose them in \<open>CoreSafety\<close>.
\<close>

named_theorems service_defs \<open>definitions of state-changing helpers\<close>
declare put_req_def [service_defs] removeQueuedRequestLocked_def [service_defs]
  removeAvailableLocked_def [service_defs] addLedgerLocked_def [service_defs]
  clearResponder_def [service_defs]

section \<open>The parts of the invariant\<close>

definition held_status :: "RequestStatus \<Rightarrow> bool" where
  "held_status st \<longleftrightarrow> st = StatusQueued \<or> st = StatusAssigned"

definition live_status :: "RequestStatus \<Rightarrow> bool" where
  "live_status st \<longleftrightarrow> st = StatusAssigned \<or> st = StatusStreaming"

definition done_status :: "RequestStatus \<Rightarrow> bool" where
  "done_status st \<longleftrightarrow> st = StatusCompleted \<or> st = StatusTimeoutCompleted"

definition answered_status :: "RequestStatus \<Rightarrow> bool" where
  "answered_status st \<longleftrightarrow> st = StatusStreaming \<or> done_status st"

lemmas status_defs = held_status_def live_status_def done_status_def answered_status_def
  isTerminal_def

definition is_session_id :: "string \<Rightarrow> bool" where
  "is_session_id sid \<longleftrightarrow> HasPrefix sid ''ses_''"

text \<open>What holds of one request, given its committed fragments.\<close>

definition req_inv :: "Fragment list \<Rightarrow> Request \<Rightarrow> bool" where
  "req_inv frags r \<longleftrightarrow>
     (held_status (Status r) \<or> answered_status (Status r) \<or> Status r = StatusAbandoned) \<and>
     (answered_status (Status r) \<longleftrightarrow> frags \<noteq> []) \<and>
     (QuestionCharged r \<longleftrightarrow> answered_status (Status r)) \<and>
     FrozenPoints r = (if held_status (Status r) \<and> \<not> RequesterGuest r then QuestionCost else 0) \<and>
     0 < OutputLimit r \<and> OutputLimit r \<le> OutputLimitChars \<and>
     int (RuneCountInString (concat (map FrgText frags))) \<le> OutputLimit r \<and>
     (ReqReaction r \<noteq> ReactionNone \<longrightarrow> done_status (Status r)) \<and>
     (\<not> done_status (Status r) \<longrightarrow> is_zero_time (CompletedAt r)) \<and>
     (RequesterGuest r \<longleftrightarrow> RequesterID r = []) \<and>
     (BoardEligible r \<longrightarrow> RequesterID r = [] \<and> RequesterKind r \<noteq> KindAIPersona)"

text \<open>Who may hold a request: the participation preferences and the reservation.\<close>

definition match_inv :: "Request \<Rightarrow> bool" where
  "match_inv r \<longleftrightarrow>
     (Status r = StatusQueued \<or> Status r = StatusAbandoned \<longrightarrow>
        ResponderSessionID r = [] \<and> ResponderUserID r = [] \<and> \<not> ResponderGuest r) \<and>
     (live_status (Status r) \<or> done_status (Status r) \<longrightarrow>
        (is_session_id (ResponderSessionID r) \<or> ResponderSessionID r = ''fallback_'' @ ReqID r) \<and>
        (ResponderKind r = KindAIPersona \<or> ResponderKind r = KindFallback \<longrightarrow> AllowAIAnswers r) \<and>
        (RequesterKind r = KindAIPersona \<longrightarrow> ResponderKind r \<noteq> KindAIPersona) \<and>
        (PreferredResponderSessionID r \<noteq> [] \<longrightarrow>
           ResponderSessionID r = PreferredResponderSessionID r)) \<and>
     (ResponderGuest r \<longrightarrow> ResponderUserID r = [])"

definition inv_requests :: "service \<Rightarrow> bool" where
  "inv_requests s \<longleftrightarrow> mwf (requests s) \<and>
     (\<forall>rid r. mget (requests s) rid = Some r \<longrightarrow>
        ReqID r = rid \<and> rid \<noteq> [] \<and> req_inv (mget0 (fragments s) rid) r \<and> match_inv r)"

definition inv_queue :: "service \<Rightarrow> bool" where
  "inv_queue s \<longleftrightarrow> distinct (queue s) \<and>
     (\<forall>rid. rid \<in> set (queue s) \<longleftrightarrow>
        (\<exists>r. mget (requests s) rid = Some r \<and> Status r = StatusQueued))"

definition inv_active :: "service \<Rightarrow> bool" where
  "inv_active s \<longleftrightarrow>
     (\<forall>sid rid. mget (activeByRes s) sid = Some rid \<longleftrightarrow>
        (\<exists>r. mget (requests s) rid = Some r \<and> live_status (Status r) \<and> ResponderSessionID r = sid))"

definition inv_available :: "service \<Rightarrow> bool" where
  "inv_available s \<longleftrightarrow> distinct (available s) \<and>
     (\<forall>sid \<in> set (available s).
        mget (responders s) sid \<noteq> None \<and> mget (activeByRes s) sid = None) \<and>
     (\<forall>sid ch. mget (responders s) sid = Some ch \<longrightarrow>
        is_session_id sid \<and> sessionByIDLocked s sid \<noteq> None)"

definition inv_chans :: "service \<Rightarrow> bool" where
  "inv_chans s \<longleftrightarrow>
     (\<forall>sid ch. mget (responders s) sid = Some ch \<longrightarrow> chan_open (assignChans s) ch) \<and>
     (\<forall>sid sid' ch. mget (responders s) sid = Some ch \<longrightarrow> mget (responders s) sid' = Some ch
        \<longrightarrow> sid = sid') \<and>
     (\<forall>rid. \<forall>ch \<in> set (mget0 (subscribers s) rid). chan_open (streamChans s) ch) \<and>
     (\<forall>rid rid'. \<forall>ch \<in> set (mget0 (subscribers s) rid).
        ch \<in> set (mget0 (subscribers s) rid') \<longrightarrow> rid = rid')"

definition inv_sessions :: "service \<Rightarrow> bool" where
  "inv_sessions s \<longleftrightarrow> mwf (sessionsByTok s) \<and>
     (\<forall>tok ses. mget (sessionsByTok s) tok = Some ses \<longrightarrow>
        Token ses = tok \<and> is_session_id (SesID ses) \<and> SesKind ses \<noteq> KindFallback \<and>
        (Guest ses \<longleftrightarrow> SesUserID ses = []) \<and>
        (\<not> Guest ses \<longrightarrow> mget (users s) (SesUserID ses) \<noteq> None)) \<and>
     (\<forall>acc uid. mget (usersByAccount s) acc = Some uid \<longrightarrow> mget (users s) uid \<noteq> None) \<and>
     (\<forall>uid u. mget (users s) uid = Some u \<longrightarrow>
        UsrID u = uid \<and> uid \<noteq> [] \<and> mget (usersByAccount s) (AccountName u) = Some uid)"

definition inv_fragments :: "service \<Rightarrow> bool" where
  "inv_fragments s \<longleftrightarrow>
     (\<forall>rid. mget0 (fragments s) rid \<noteq> [] \<longrightarrow> mget (requests s) rid \<noteq> None) \<and>
     (\<forall>rid key f. mget (mget0 (seqSeen s) rid) key = Some f \<longleftrightarrow>
        f \<in> set (mget0 (fragments s) rid) \<and> key = seqKey (FrgSessionID f) (ClientSeq f)) \<and>
     (\<forall>rid. \<forall>f \<in> set (mget0 (fragments s) rid). FrgRequestID f = rid \<and> FrgText f \<noteq> []) \<and>
     (\<forall>rid. distinct (map (\<lambda>f. seqKey (FrgSessionID f) (ClientSeq f)) (mget0 (fragments s) rid)))"

definition wf_service :: "service \<Rightarrow> bool" where
  "wf_service s \<longleftrightarrow> inv_requests s \<and> inv_queue s \<and> inv_active s \<and> inv_available s \<and>
     inv_chans s \<and> inv_sessions s \<and> inv_fragments s"

lemmas inv_defs = inv_requests_def inv_queue_def inv_active_def inv_available_def inv_chans_def
  inv_sessions_def inv_fragments_def

lemma wf_NewService: "wf_service NewService"
  by (simp add: wf_service_def inv_defs NewService_def mget0_def)

section \<open>Publishing\<close>

text \<open>Publishing touches only the stream buffers: no channel is opened, closed or lost.\<close>

definition same_open :: "'a chan_heap \<Rightarrow> 'a chan_heap \<Rightarrow> bool" where
  "same_open h h' \<longleftrightarrow> length h' = length h \<and> (\<forall>a. chan_open h' a \<longleftrightarrow> chan_open h a)"

lemma same_open_refl [simp]: "same_open h h"
  by (simp add: same_open_def)

lemma same_open_trans: "same_open h h' \<Longrightarrow> same_open h' h'' \<Longrightarrow> same_open h h''"
  by (simp add: same_open_def)

lemma same_open_send:
  assumes "heap_get h a = Some c" and "try_send v c = Some (c', b)"
  shows "same_open h (h[a := c'])"
  using assms try_send_keeps [OF assms(2)]
  by (auto simp: same_open_def chan_open_def heap_get_def nth_list_update split: if_splits)

lemma sendAll_open:
  "(\<forall>a \<in> set as. chan_open h a) \<Longrightarrow> \<exists>h'. sendAll ev as h = Some h' \<and> same_open h h'"
proof (induction "as" arbitrary: h)
  case (Cons a "as")
  then have op: "chan_open h a" by simp
  obtain c' b where ts: "try_send ev (h ! a) = Some (c', b)"
    using op try_send_total by (fastforce simp: chan_open_def)
  have so: "same_open h (h[a := c'])"
    using same_open_send [OF heap_get_open [OF op] ts] .
  then have "\<forall>b \<in> set as. chan_open (h[a := c']) b"
    using Cons.prems by (simp add: same_open_def)
  then obtain h' where "sendAll ev as (h[a := c']) = Some h'" "same_open (h[a := c']) h'"
    using Cons.IH by blast
  then show ?case using so ts heap_get_open [OF op] same_open_trans by fastforce
qed simp

lemma publish_form:
  assumes "inv_chans s"
  shows "\<exists>h. publishLocked ev s = Some (s\<lparr>streamChans := h\<rparr>) \<and> same_open (streamChans s) h"
proof -
  have "\<forall>a \<in> set (mget0 (subscribers s) (eventRequestID ev)). chan_open (streamChans s) a"
    using assms by (simp add: inv_chans_def)
  then obtain h where "sendAll ev (mget0 (subscribers s) (eventRequestID ev)) (streamChans s) = Some h"
    and "same_open (streamChans s) h"
    using sendAll_open by blast
  then show ?thesis by (auto simp: publishLocked_def)
qed

lemma sessionById_frame [simp]:
  "sessionByIDLocked (s\<lparr>streamChans := h\<rparr>) = sessionByIDLocked s"
  "sessionByIDLocked (s\<lparr>assignChans := g\<rparr>) = sessionByIDLocked s"
  "sessionByIDLocked (s\<lparr>queue := q\<rparr>) = sessionByIDLocked s"
  "sessionByIDLocked (s\<lparr>available := q\<rparr>) = sessionByIDLocked s"
  "sessionByIDLocked (s\<lparr>requests := m\<rparr>) = sessionByIDLocked s"
  "sessionByIDLocked (s\<lparr>activeByRes := am\<rparr>) = sessionByIDLocked s"
  "sessionByIDLocked (s\<lparr>ledger := l\<rparr>) = sessionByIDLocked s"
  "sessionByIDLocked (s\<lparr>responders := rs\<rparr>) = sessionByIDLocked s"
  "sessionByIDLocked (s\<lparr>acceptAI := ai\<rparr>) = sessionByIDLocked s"
  "sessionByIDLocked (s\<lparr>fragments := fm\<rparr>) = sessionByIDLocked s"
  "sessionByIDLocked (s\<lparr>seqSeen := sm\<rparr>) = sessionByIDLocked s"
  "sessionByIDLocked (s\<lparr>subscribers := sb\<rparr>) = sessionByIDLocked s"
  "sessionByIDLocked (put_req r s) = sessionByIDLocked s"
  by (simp_all add: sessionByIDLocked_def fun_eq_iff put_req_def)

lemma wf_streamChans:
  "wf_service s \<Longrightarrow> same_open (streamChans s) h \<Longrightarrow> wf_service (s\<lparr>streamChans := h\<rparr>)"
  by (simp add: wf_service_def inv_defs same_open_def)

lemma wf_publish:
  assumes "wf_service s"
  shows "\<exists>s'. publishLocked ev s = Some s' \<and> wf_service s'"
proof -
  have "inv_chans s" using assms by (simp add: wf_service_def)
  then obtain h where "publishLocked ev s = Some (s\<lparr>streamChans := h\<rparr>)" "same_open (streamChans s) h"
    using publish_form by blast
  then show ?thesis using wf_streamChans [OF assms] by blast
qed


section \<open>Storing a request\<close>

lemma inv_requests_put:
  assumes "inv_requests s" and "ReqID r \<noteq> []"
    and "req_inv (mget0 (fragments s) (ReqID r)) r" and "match_inv r"
  shows "inv_requests (put_req r s)"
  using assms by (auto simp: inv_requests_def put_req_def)

lemma request_facts:
  assumes "wf_service s" and "mget (requests s) rid = Some r"
  shows "ReqID r = rid" and "rid \<noteq> []" and "req_inv (mget0 (fragments s) rid) r" and "match_inv r"
  using assms by (auto simp: wf_service_def inv_requests_def)

lemma session_id_facts:
  "is_session_id sid \<Longrightarrow> sid \<noteq> []" "is_session_id sid \<Longrightarrow> sid \<noteq> ''fallback_'' @ x"
  by (auto simp: is_session_id_def HasPrefix_def)

lemma live_responder_nonempty:
  "match_inv r \<Longrightarrow> live_status (Status r) \<Longrightarrow> ResponderSessionID r \<noteq> []"
  using session_id_facts by (auto simp: match_inv_def)

text \<open>At most one live request per responder session, and it is the one the map names.\<close>

lemma active_iff:
  "wf_service s \<Longrightarrow> mget (activeByRes s) sid = Some rid \<longleftrightarrow>
     (\<exists>r. mget (requests s) rid = Some r \<and> live_status (Status r) \<and> ResponderSessionID r = sid)"
  by (simp add: wf_service_def inv_active_def)

lemma live_unique:
  assumes "wf_service s" and "mget (requests s) rid = Some r" and "mget (requests s) rid' = Some r'"
    and "live_status (Status r)" and "live_status (Status r')"
    and "ResponderSessionID r = ResponderSessionID r'"
  shows "rid = rid'"
  using assms active_iff [OF assms(1)] by (metis option.inject)

subsection \<open>Replacing one request\<close>

text \<open>
  Every primitive transition stores one request and adjusts the queue and the active map to its
  new status. \<open>replaces s rid r' s'\<close> says so; \<open>wf_replace\<close> is the one proof that such a step
  keeps the invariant.
\<close>

definition replaces :: "service \<Rightarrow> string \<Rightarrow> Request \<Rightarrow> service \<Rightarrow> bool" where
  "replaces s rid r' s' \<longleftrightarrow>
     requests s' = mput rid r' (requests s) \<and> fragments s' = fragments s \<and> seqSeen s' = seqSeen s \<and>
     sessionsByTok s' = sessionsByTok s \<and> users s' = users s \<and>
     usersByAccount s' = usersByAccount s \<and> distinct (queue s') \<and>
     set (queue s') = (if Status r' = StatusQueued then insert rid (set (queue s))
                       else set (queue s) - {rid}) \<and>
     (\<forall>sid rid2. mget (activeByRes s') sid = Some rid2 \<longleftrightarrow>
        (if rid2 = rid then live_status (Status r') \<and> ResponderSessionID r' = sid
         else mget (activeByRes s) sid = Some rid2))"

lemma inv_queue_replace:
  assumes "inv_queue s" and "replaces s rid r' s'"
  shows "inv_queue s'"
  unfolding inv_queue_def
proof (intro conjI allI)
  show "distinct (queue s')" using assms(2) by (simp add: replaces_def)
  fix x
  have "x \<in> set (queue s) \<longleftrightarrow> (\<exists>r. mget (requests s) x = Some r \<and> Status r = StatusQueued)"
    using assms(1) by (simp add: inv_queue_def)
  then show "x \<in> set (queue s') \<longleftrightarrow> (\<exists>r. mget (requests s') x = Some r \<and> Status r = StatusQueued)"
    using assms(2) by (cases "x = rid") (simp_all add: replaces_def)
qed

lemma inv_active_replace:
  assumes "inv_active s" and "replaces s rid r' s'"
  shows "inv_active s'"
  unfolding inv_active_def
proof (intro allI)
  fix sid x
  have "mget (activeByRes s) sid = Some x \<longleftrightarrow>
      (\<exists>r. mget (requests s) x = Some r \<and> live_status (Status r) \<and> ResponderSessionID r = sid)"
    using assms(1) by (simp add: inv_active_def)
  then show "mget (activeByRes s') sid = Some x \<longleftrightarrow>
      (\<exists>r. mget (requests s') x = Some r \<and> live_status (Status r) \<and> ResponderSessionID r = sid)"
    using assms(2) by (cases "x = rid") (simp_all add: replaces_def)
qed

lemma inv_requests_replace:
  assumes "inv_requests s" and "replaces s rid r' s'" and "ReqID r' = rid" and "rid \<noteq> []"
    and "req_inv (mget0 (fragments s) rid) r'" and "match_inv r'"
  shows "inv_requests s'"
  using assms unfolding inv_requests_def replaces_def by simp

lemma inv_fragments_replace:
  assumes "inv_fragments s" and "replaces s rid r' s'"
  shows "inv_fragments s'"
  using assms unfolding inv_fragments_def replaces_def by simp

lemma inv_sessions_replace:
  assumes "inv_sessions s" and "replaces s rid r' s'"
  shows "inv_sessions s'"
  using assms unfolding inv_sessions_def replaces_def by simp

lemma wf_replace:
  assumes "wf_service s" and "replaces s rid r' s'" and "ReqID r' = rid" and "rid \<noteq> []"
    and "req_inv (mget0 (fragments s) rid) r'" and "match_inv r'"
    and "inv_available s'" and "inv_chans s'"
  shows "wf_service s'"
  using assms inv_queue_replace inv_active_replace inv_requests_replace inv_fragments_replace
    inv_sessions_replace
  unfolding wf_service_def by metis

lemma sessionById_cong:
  "sessionsByTok s' = sessionsByTok s \<Longrightarrow> sessionByIDLocked s' = sessionByIDLocked s"
  by (simp add: sessionByIDLocked_def fun_eq_iff)

lemma inv_available_shrink:
  assumes "inv_available s" and "set (available s') \<subseteq> set (available s)"
    and "distinct (available s')" and "responders s' = responders s"
    and "sessionsByTok s' = sessionsByTok s"
    and "\<And>sid. sid \<in> set (available s') \<Longrightarrow> mget (activeByRes s) sid = None
           \<Longrightarrow> mget (activeByRes s') sid = None"
  shows "inv_available s'"
  using assms(1-4,6) sessionById_cong [OF assms(5)] unfolding inv_available_def by auto

text \<open>Taking the active mark off a live request's responder.\<close>

lemma active_del:
  assumes wf: "wf_service s" and r: "mget (requests s) rid = Some r"
    and live: "live_status (Status r)"
  shows "mget (mdel (ResponderSessionID r) (activeByRes s)) sid = Some rid2 \<longleftrightarrow>
     rid2 \<noteq> rid \<and> mget (activeByRes s) sid = Some rid2"
proof -
  have own: "mget (activeByRes s) (ResponderSessionID r) = Some rid"
    using active_iff [OF wf] r live by blast
  have "sid = ResponderSessionID r" if "mget (activeByRes s) sid = Some rid"
    using active_iff [OF wf, of sid rid] that r by auto
  with own show ?thesis by (cases "sid = ResponderSessionID r") auto
qed

lemma active_none:
  assumes "wf_service s" and "mget (requests s) rid = Some r" and "\<not> live_status (Status r)"
  shows "mget (activeByRes s) sid \<noteq> Some rid"
  using active_iff [OF assms(1), of sid rid] assms by auto

section \<open>Requeue\<close>

lemma req_inv_requeue:
  "req_inv fs r \<Longrightarrow> Status r = StatusAssigned \<Longrightarrow>
   req_inv fs ((clearResponder r)\<lparr>Status := StatusQueued, UpdatedAt := now\<rparr>)"
  by (auto simp: req_inv_def clearResponder_def status_defs)

lemma match_inv_requeue:
  "match_inv ((clearResponder r)\<lparr>Status := StatusQueued, UpdatedAt := now\<rparr>)"
  by (simp add: match_inv_def clearResponder_def status_defs)

lemma wf_requeue:
  assumes wf: "wf_service s" and r: "mget (requests s) rid = Some r"
    and st: "Status r = StatusAssigned"
  shows "wf_service (requeueLocked r now s)"
proof -
  note rf = request_facts [OF wf r]
  let ?s = "requeueLocked r now s"
  let ?r = "(clearResponder r)\<lparr>Status := StatusQueued, UpdatedAt := now\<rparr>"
  have live: "live_status (Status r)" using st by (simp add: live_status_def)
  have q: "distinct (queue s)" "rid \<notin> set (queue s)"
    using wf r st by (simp_all add: wf_service_def inv_queue_def)
  have "replaces s rid ?r ?s"
    using q rf(1) active_del [OF wf r live]
    by (auto simp: replaces_def requeueLocked_def Let_def put_req_def live_status_def
        clearResponder_def)
  moreover have "inv_available ?s"
    by (rule inv_available_shrink [of s])
      (use wf in \<open>simp_all add: wf_service_def inv_available_def requeueLocked_def Let_def put_req_def\<close>)
  moreover have "inv_chans ?s"
    using wf by (simp add: wf_service_def inv_chans_def requeueLocked_def Let_def put_req_def)
  ultimately show ?thesis
    using wf_replace [OF wf _ _ rf(2) req_inv_requeue [OF rf(3) st] match_inv_requeue] rf(1)
    by (simp add: clearResponder_def)
qed


section \<open>Abandon\<close>

lemma wf_abandonState:
  assumes wf: "wf_service s" and r: "mget (requests s) rid = Some r"
    and st: "held_status (Status r)"
  shows "wf_service (abandonState r now s)"
proof -
  note rf = request_facts [OF wf r]
  let ?s = "abandonState r now s"
  let ?r = "(clearResponder r)\<lparr>Status := StatusAbandoned, FrozenPoints := 0, UpdatedAt := now\<rparr>"
  have q: "distinct (queue s)" using wf by (simp add: wf_service_def inv_queue_def)
  have act: "mget (activeByRes ?s) sid = Some x \<longleftrightarrow> x \<noteq> rid \<and> mget (activeByRes s) sid = Some x"
    for sid x
  proof (cases "live_status (Status r)")
    case True
    then have "ResponderSessionID r \<noteq> []" using live_responder_nonempty [OF rf(4)] by blast
    then show ?thesis using active_del [OF wf r True]
      by (simp add: abandonState_def Let_def put_req_def removeQueuedRequestLocked_def)
  next
    case False
    then have "ResponderSessionID r = []"
      using st rf(4) by (auto simp: match_inv_def status_defs)
    then show ?thesis using active_none [OF wf r False]
      by (auto simp: abandonState_def Let_def put_req_def removeQueuedRequestLocked_def)
  qed
  have "replaces s rid ?r ?s"
    using q rf(1) act
    by (auto simp: replaces_def abandonState_def Let_def put_req_def live_status_def
        clearResponder_def removeQueuedRequestLocked_def)
  moreover have "inv_available ?s"
    by (rule inv_available_shrink [of s])
      (use wf in \<open>auto simp: wf_service_def inv_available_def abandonState_def Let_def put_req_def
        removeQueuedRequestLocked_def\<close>)
  moreover have "inv_chans ?s"
    using wf by (simp add: wf_service_def inv_chans_def abandonState_def Let_def put_req_def
        removeQueuedRequestLocked_def)
  moreover have "req_inv (mget0 (fragments s) rid) ?r"
    using rf(3) st
    by (cases "Status r") (simp_all add: req_inv_def clearResponder_def status_defs)
  moreover have "match_inv ?r"
    by (simp add: match_inv_def clearResponder_def status_defs)
  ultimately show ?thesis
    using wf_replace [OF wf _ _ rf(2)] rf(1) by (simp add: clearResponder_def)
qed

lemma wf_chans: "wf_service s \<Longrightarrow> inv_chans s"
  by (simp add: wf_service_def)

text \<open>Abandoning never faults; its effect is \<open>abandonState\<close> up to the stream buffers.\<close>

lemma abandon_form:
  assumes wf: "wf_service s" and r: "mget (requests s) rid = Some r"
    and st: "held_status (Status r)"
  shows "\<exists>h. abandonLocked r now s = Some ((abandonState r now s)\<lparr>streamChans := h\<rparr>) \<and>
     wf_service ((abandonState r now s)\<lparr>streamChans := h\<rparr>)"
  using publish_form [OF wf_chans [OF wf_abandonState [OF assms]], of _ now]
    wf_streamChans [OF wf_abandonState [OF assms]]
  unfolding abandonLocked_def by blast

section \<open>Complete\<close>

lemma wf_ledger [simp]: "wf_service (s\<lparr>ledger := l\<rparr>) \<longleftrightarrow> wf_service s"
  by (simp add: wf_service_def inv_defs)

lemma wf_addLedger [simp]: "wf_service (addLedgerLocked e u r k d now s) \<longleftrightarrow> wf_service s"
  by (simp add: addLedgerLocked_def)

lemma wf_completeState:
  assumes wf: "wf_service s" and r: "mget (requests s) rid = Some r"
    and st: "Status r = StatusStreaming"
  shows "wf_service (completeState e r reason now s)"
proof -
  note rf = request_facts [OF wf r]
  let ?st = "if reason = FinishPartial then StatusTimeoutCompleted else StatusCompleted"
  let ?r = "r\<lparr>Status := ?st, ReqFinish := reason, UpdatedAt := now, CompletedAt := now\<rparr>"
  let ?s = "put_req ?r (s\<lparr>activeByRes := mdel (ResponderSessionID r) (activeByRes s)\<rparr>)"
  have live: "live_status (Status r)" using st by (simp add: live_status_def)
  have nq: "rid \<notin> set (queue s)" "distinct (queue s)"
    using wf r st by (simp_all add: wf_service_def inv_queue_def)
  have "replaces s rid ?r ?s"
    using nq rf(1) active_del [OF wf r live]
    by (auto simp: replaces_def put_req_def live_status_def)
  moreover have "inv_available ?s"
    by (rule inv_available_shrink [of s])
      (use wf in \<open>auto simp: wf_service_def inv_available_def put_req_def\<close>)
  moreover have "inv_chans ?s"
    using wf by (simp add: wf_service_def inv_chans_def put_req_def)
  moreover have "req_inv (mget0 (fragments s) rid) ?r"
    using rf(3) st by (simp add: req_inv_def status_defs)
  moreover have "match_inv ?r"
    using rf(4) st by (simp add: match_inv_def status_defs)
  ultimately have "wf_service ?s"
    using wf_replace [OF wf _ _ rf(2)] rf(1) by simp
  then show ?thesis by (simp add: completeState_def Let_def)
qed

lemma complete_form:
  assumes wf: "wf_service s" and r: "mget (requests s) rid = Some r"
    and st: "Status r = StatusStreaming"
  shows "\<exists>h. completeLocked e r reason now s =
      Some ((completeState e r reason now s)\<lparr>streamChans := h\<rparr>) \<and>
     wf_service ((completeState e r reason now s)\<lparr>streamChans := h\<rparr>)"
  using publish_form [OF wf_chans [OF wf_completeState [OF assms]]]
    wf_streamChans [OF wf_completeState [OF assms]] st
  unfolding completeLocked_def isTerminal_def by fastforce


section \<open>Matching\<close>

text \<open>A queued request that \<open>compatiblePairLocked\<close> would not skip in its outer loop.\<close>

definition matchable :: "service \<Rightarrow> string \<Rightarrow> string \<Rightarrow> bool" where
  "matchable s rid sid \<longleftrightarrow> (\<exists>req. mget (requests s) rid = Some req \<and> \<not> isTerminal (Status req) \<and>
     Status req \<noteq> StatusStreaming \<and> compatible s req sid)"

lemma scanResponders_Some:
  "scanResponders s req xs = Some i \<Longrightarrow>
     i < length xs \<and> compatible s req (xs ! i) \<and> (\<forall>k < i. \<not> compatible s req (xs ! k))"
proof (induction xs arbitrary: i)
  case (Cons x xs)
  show ?case
  proof (cases "compatible s req x")
    case False
    then obtain j where "scanResponders s req xs = Some j" "i = Suc j"
      using Cons.prems by auto
    then show ?thesis using Cons.IH [of j] False by (auto simp: less_Suc_eq_0_disj)
  qed (use Cons.prems in simp)
qed simp

lemma scanResponders_None:
  "scanResponders s req xs = None \<longleftrightarrow> (\<forall>x \<in> set xs. \<not> compatible s req x)"
  by (induction xs) auto

lemma scanResponders_SomeD: "scanResponders s req xs = Some i \<Longrightarrow> \<exists>x \<in> set xs. compatible s req x"
  using scanResponders_Some nth_mem by blast

lemma scanQueue_None:
  "scanQueue s xs = None \<longleftrightarrow> (\<forall>rid \<in> set xs. \<forall>sid \<in> set (available s). \<not> matchable s rid sid)"
  by (induction xs)
    (auto simp: Let_def matchable_def scanResponders_None dest: scanResponders_SomeD
      split: option.splits if_splits)

lemma scanQueue_Some:
  "scanQueue s xs = Some (q, k) \<Longrightarrow>
     q < length xs \<and> k < length (available s) \<and> matchable s (xs ! q) (available s ! k) \<and>
     (\<forall>j < q. \<forall>sid \<in> set (available s). \<not> matchable s (xs ! j) sid) \<and>
     (\<forall>l < k. \<not> matchable s (xs ! q) (available s ! l))"
proof (induction xs arbitrary: q k)
  case (Cons x xs)
  show ?case
  proof (cases "\<exists>sid \<in> set (available s). matchable s x sid")
    case True
    then obtain req where req: "mget (requests s) x = Some req" "\<not> isTerminal (Status req)"
      "Status req \<noteq> StatusStreaming" and ne: "scanResponders s req (available s) \<noteq> None"
      by (auto simp: matchable_def scanResponders_None)
    then obtain i where i: "scanResponders s req (available s) = Some i" by blast
    then have "q = 0" "k = i" using Cons.prems req by (auto simp: Let_def)
    then show ?thesis using scanResponders_Some [OF i] req by (auto simp: matchable_def)
  next
    case False
    then have "scanQueue s (x # xs) = map_option (\<lambda>(q, r). (Suc q, r)) (scanQueue s xs)"
      by (auto simp: Let_def matchable_def scanResponders_None dest: scanResponders_SomeD
          split: option.splits)
    then obtain j where "scanQueue s xs = Some (j, k)" "q = Suc j"
      using Cons.prems by auto
    then show ?thesis using Cons.IH [of j k] False by (auto simp: less_Suc_eq_0_disj)
  qed
qed simp

lemma compatiblePair_Some:
  assumes "compatiblePairLocked s = Some (q, k)"
  shows "q < length (queue s)" and "k < length (available s)"
    and "matchable s (queue s ! q) (available s ! k)"
  using scanQueue_Some [of s "queue s" q k] assms by (simp_all add: compatiblePairLocked_def)

lemma compatible_facts:
  assumes "compatible s req sid"
  shows "mget0 (activeByRes s) sid = []" and "mget (responders s) sid \<noteq> None"
    and "\<exists>ses. sessionByIDLocked s sid = Some ses \<and>
      (KindOrHuman (SesKind ses) = KindAIPersona \<longrightarrow> AllowAIAnswers req) \<and>
      (RequesterKind req = KindAIPersona \<longrightarrow> KindOrHuman (SesKind ses) \<noteq> KindAIPersona
         \<and> responderAcceptsAILocked s sid)"
    and "PreferredResponderSessionID req = [] \<or> PreferredResponderSessionID req = sid"
  using assms by (auto simp: compatible_def Let_def split: if_splits option.splits)

lemma sessionById_facts:
  assumes "inv_sessions s" and "sessionByIDLocked s sid = Some ses"
  shows "SesID ses = sid" and "SesKind ses \<noteq> KindFallback" and "Guest ses \<longleftrightarrow> SesUserID ses = []"
    and "mget (sessionsByTok s) (Token ses) = Some ses"
proof -
  have *: "SesID ses = sid" "ses \<in> set (map snd (sessionsByTok s))"
    using assms(2) unfolding sessionByIDLocked_def find_Some_iff by (auto intro: nth_mem)
  show "SesID ses = sid" by (rule *)
  from *(2) obtain tok where "(tok, ses) \<in> set (sessionsByTok s)" by auto
  then have tok: "mget (sessionsByTok s) tok = Some ses"
    using assms(1) in_set_mget by (auto simp: inv_sessions_def)
  then have "Token ses = tok" using assms(1) by (simp add: inv_sessions_def)
  with tok show "mget (sessionsByTok s) (Token ses) = Some ses" by simp
  show "SesKind ses \<noteq> KindFallback" "Guest ses \<longleftrightarrow> SesUserID ses = []"
    using assms(1) tok unfolding inv_sessions_def by blast+
qed

lemma active_mget0: "wf_service s \<Longrightarrow> mget0 (activeByRes s) sid = [] \<longleftrightarrow> mget (activeByRes s) sid = None"
  using active_iff [of s sid "[]"] request_facts(2) by (auto simp: mget0_def split: option.splits)

definition assigned :: "Request \<Rightarrow> string \<Rightarrow> Session \<Rightarrow> time \<Rightarrow> Request" where
  "assigned req sid ses now = req\<lparr>Status := StatusAssigned, ResponderSessionID := sid,
     ResponderGuest := Guest ses, ResponderUserID := SesUserID ses,
     ResponderKind := KindOrHuman (SesKind ses), ResponderDisplay := SesNickname ses,
     UpdatedAt := now\<rparr>"

text \<open>The state after a successful hand-over of the request at \<open>q\<close> to the responder at \<open>k\<close>.\<close>

definition assignState ::
  "time \<Rightarrow> nat \<Rightarrow> nat \<Rightarrow> Request \<Rightarrow> Session \<Rightarrow> AssignedRequest chan_heap \<Rightarrow> service \<Rightarrow> service"
where
  "assignState now q k req ses g s =
     s\<lparr>queue := remove_at q (queue s), available := remove_at k (available s),
       requests := mput (queue s ! q) (assigned req (available s ! k) ses now) (requests s),
       activeByRes := mput (available s ! k) (queue s ! q) (activeByRes s), assignChans := g\<rparr>"

lemma wf_assignState:
  assumes wf: "wf_service s" and q: "q < length (queue s)" and k: "k < length (available s)"
    and req: "mget (requests s) (queue s ! q) = Some req"
    and comp: "compatible s req (available s ! k)"
    and ses: "sessionByIDLocked s (available s ! k) = Some ses"
    and g: "same_open (assignChans s) g"
  shows "wf_service (assignState now q k req ses g s)"
proof -
  let ?rid = "queue s ! q" and ?sid = "available s ! k"
  let ?s = "assignState now q k req ses g s" and ?r = "assigned req ?sid ses now"
  note rf = request_facts [OF wf req]
  have inv_s: "inv_sessions s" using wf by (simp add: wf_service_def)
  have dq: "distinct (queue s)" and da: "distinct (available s)"
    using wf by (simp_all add: wf_service_def inv_queue_def inv_available_def)
  have st: "Status req = StatusQueued"
    using wf q req nth_mem [OF q] by (auto simp: wf_service_def inv_queue_def)
  have free: "mget (activeByRes s) ?sid = None"
    using compatible_facts(1) [OF comp] active_mget0 [OF wf] by simp
  have none: "mget (activeByRes s) sid \<noteq> Some ?rid" for sid
    using active_none [OF wf req] st by (simp add: live_status_def)
  have sid: "is_session_id ?sid"
    using wf k nth_mem [OF k] unfolding wf_service_def inv_available_def by blast
  have "replaces s ?rid ?r ?s"
    using dq q free none set_remove_at [OF dq q] distinct_remove_at [OF dq]
    by (auto simp: replaces_def assignState_def assigned_def live_status_def)
  moreover have "inv_available ?s"
    by (rule inv_available_shrink [of s])
      (use wf da k set_remove_at [OF da k] distinct_remove_at [OF da] in
        \<open>auto simp: wf_service_def assignState_def\<close>)
  moreover have "inv_chans ?s"
    using wf g by (simp add: wf_service_def inv_chans_def assignState_def same_open_def)
  moreover have "req_inv (mget0 (fragments s) ?rid) ?r"
    using rf(3) st by (simp add: req_inv_def assigned_def status_defs)
  moreover have "KindOrHuman (SesKind ses) \<noteq> KindFallback"
    using sessionById_facts(2) [OF inv_s ses] by (simp add: KindOrHuman_def kind_defs)
  then have "match_inv ?r"
    using compatible_facts(3,4) [OF comp] ses sid st sessionById_facts(3) [OF inv_s ses]
    by (auto simp: match_inv_def assigned_def status_defs)
  ultimately show ?thesis
    using wf_replace [OF wf _ _ rf(2)] rf(1) by (simp add: assigned_def)
qed


subsection \<open>One round of the assignment loop\<close>

text \<open>
  The two outcomes of a round: the responder's channel takes the assignment, or it is full and
  the request goes back to the end of the queue. \<open>handover\<close> collects what is known in both.
\<close>

definition handover ::
  "time \<Rightarrow> nat \<Rightarrow> nat \<Rightarrow> Request \<Rightarrow> Session \<Rightarrow> AssignedRequest chan_heap \<Rightarrow> service \<Rightarrow> bool"
where
  "handover now q k req ses g s \<longleftrightarrow>
     compatiblePairLocked s = Some (q, k) \<and> q < length (queue s) \<and> k < length (available s) \<and>
     mget (requests s) (queue s ! q) = Some req \<and> Status req = StatusQueued \<and>
     compatible s req (available s ! k) \<and> sessionByIDLocked s (available s ! k) = Some ses \<and>
     same_open (assignChans s) g"

lemma assignPair_form:
  assumes wf: "wf_service s" and pair: "compatiblePairLocked s = Some (q, k)"
  shows "\<exists>req ses g. handover now q k req ses g s \<and>
     (assignPair now q k s = Some (assignState now q k req ses g s) \<or>
      assignPair now q k s = Some (requeueLocked (assigned req (available s ! k) ses now) now
        (assignState now q k req ses g s)))"
proof -
  let ?rid = "queue s ! q" and ?sid = "available s ! k"
  note b = compatiblePair_Some [OF pair]
  from b(3) obtain req where req: "mget (requests s) ?rid = Some req"
    and comp: "compatible s req ?sid" by (auto simp: matchable_def)
  from compatible_facts(3) [OF comp] obtain ses where ses: "sessionByIDLocked s ?sid = Some ses"
    by blast
  from compatible_facts(2) [OF comp] obtain ch where ch: "mget (responders s) ?sid = Some ch"
    by blast
  then have op: "chan_open (assignChans s) ch"
    using wf by (auto simp: wf_service_def inv_chans_def)
  have st: "Status req = StatusQueued"
    using wf b(1) req nth_mem [OF b(1)] by (auto simp: wf_service_def inv_queue_def)
  let ?r = "assigned req ?sid ses now"
  let ?a = "\<lparr>AsgRequestID = ReqID ?r, AsgRequesterKind = RequesterKind ?r,
     AsgMessages = Messages ?r, AsgCreatedAt = CreatedAt ?r\<rparr>"
  obtain c' sent where ts: "try_send ?a (assignChans s ! ch) = Some (c', sent)"
    using op try_send_total by (fastforce simp: chan_open_def)
  let ?g = "(assignChans s)[ch := c']"
  have g: "same_open (assignChans s) ?g"
    using same_open_send [OF heap_get_open [OF op] ts] .
  have "assignPair now q k s = Some (if sent then assignState now q k req ses ?g s
      else requeueLocked ?r now (assignState now q k req ses ?g s))"
    using req ses ch ts heap_get_open [OF op] request_facts(1) [OF wf req]
    by (simp add: assignPair_def Let_def assigned_def put_req_def assignState_def)
  then show ?thesis using b(1,2) pair req comp ses g st unfolding handover_def
    by (cases sent) auto
qed

lemma wf_handover:
  assumes wf: "wf_service s" and h: "handover now q k req ses g s"
  shows "wf_service (assignState now q k req ses g s)"
    and "wf_service (requeueLocked (assigned req (available s ! k) ses now) now
           (assignState now q k req ses g s))"
proof -
  show w: "wf_service (assignState now q k req ses g s)"
    using wf_assignState [OF wf] h by (simp add: handover_def)
  show "wf_service (requeueLocked (assigned req (available s ! k) ses now) now
           (assignState now q k req ses g s))"
    by (rule wf_requeue [OF w, of "queue s ! q"]) (simp_all add: assignState_def assigned_def)
qed

text \<open>
  The rule for the whole loop: it returns, keeps the invariant and any property \<open>P\<close> that the two
  outcomes of a round keep, and leaves no compatible pair behind.
\<close>

lemma tryAssign_rule:
  assumes wf: "wf_service s" and P: "P s"
    and step: "\<And>t q k req ses g. wf_service t \<Longrightarrow> P t \<Longrightarrow> handover now q k req ses g t \<Longrightarrow>
       P (assignState now q k req ses g t) \<and>
       P (requeueLocked (assigned req (available t ! k) ses now) now (assignState now q k req ses g t))"
  shows "\<exists>s'. tryAssignLocked now s = Some s' \<and> wf_service s' \<and> P s' \<and> compatiblePairLocked s' = None"
  using wf P
proof (induction "length (available s)" arbitrary: s rule: less_induct)
  case less
  show ?case
  proof (cases "compatiblePairLocked s")
    case None
    then show ?thesis using less.prems by (subst tryAssignLocked.simps) simp
  next
    case (Some p)
    obtain q k where p: "compatiblePairLocked s = Some (q, k)" using Some by (cases p) auto
    obtain req ses g where h: "handover now q k req ses g s"
      and eq: "assignPair now q k s = Some (assignState now q k req ses g s) \<or>
        assignPair now q k s = Some (requeueLocked (assigned req (available s ! k) ses now) now
          (assignState now q k req ses g s))"
      using assignPair_form [OF less.prems(1) p, of now] by blast
    then obtain t where t: "assignPair now q k s = Some t" "wf_service t" "P t"
      using wf_handover [OF less.prems(1) h] step [OF less.prems h] by blast
    have "length (available t) < length (available s)"
      using assignPair_available [OF t(1)] compatiblePair_bound [OF p] length_remove_at [of k "available s"]
      by auto
    from less.hyps [OF this t(2,3)] show ?thesis
      using p t(1) by (subst tryAssignLocked.simps) simp
  qed
qed

lemma wf_tryAssign:
  "wf_service s \<Longrightarrow> \<exists>s'. tryAssignLocked now s = Some s' \<and> wf_service s' \<and> compatiblePairLocked s' = None"
  using tryAssign_rule [of s "\<lambda>_. True" now] by auto

end
