(* ===== verification/CoreHistory.thy ===== *)
theory CoreHistory
  imports CoreInv "HOL-Library.Sublist"
begin

text \<open>
  What the service does over time. \<open>points_inv\<close> ties the ledger of every account to the grant and
  to the state of the requests it took part in; \<open>open_answers\<close> says that a streaming answer has
  room left; \<open>extends\<close> relates an earlier to a later state: nothing committed is ever taken back.
  \<open>evolve\<close> bundles them, and each primitive transition has one \<open>evolve\<close> lemma.
\<close>

section \<open>Points\<close>

text \<open>What a request contributes to the ledger total of the account \<open>uid\<close>.\<close>

definition earned :: "string \<Rightarrow> Request \<Rightarrow> int" where
  "earned uid r =
     (if QuestionCharged r \<and> \<not> RequesterGuest r \<and> RequesterID r = uid then - QuestionCost else 0) +
     (if done_status (Status r) \<and> \<not> ResponderGuest r \<and> ResponderUserID r \<noteq> [] \<and>
         ResponderUserID r = uid then rewardFor (ReqReaction r) else 0)"

definition grantOf :: "service \<Rightarrow> string \<Rightarrow> int" where
  "grantOf s uid = (if mget (users s) uid = None then 0 else SignupGrant)"

definition points_inv :: "service \<Rightarrow> bool" where
  "points_inv s \<longleftrightarrow>
     (\<forall>uid. ledgerTotal uid (ledger s) = grantOf s uid + msum (earned uid) (requests s))"

lemma ledgerTotal_append [simp]:
  "ledgerTotal uid (xs @ ys) = ledgerTotal uid xs + ledgerTotal uid ys"
  by (simp add: ledgerTotal_def)

lemma ledgerTotal_simps [simp]:
  "ledgerTotal uid [] = 0"
  "ledgerTotal uid (e # es) = (if PtsUserID e = uid then Delta e else 0) + ledgerTotal uid es"
  by (simp_all add: ledgerTotal_def)

lemma points_replace:
  assumes "points_inv s" and "mwf (requests s)" and "mget (requests s) rid = Some r"
    and "requests s' = mput rid r' (requests s)" and "users s' = users s"
    and "ledger s' = ledger s @ es"
    and "\<And>uid. ledgerTotal uid es = earned uid r' - earned uid r"
  shows "points_inv s'"
  using assms by (simp add: points_inv_def grantOf_def msum_mput_old)

section \<open>Room for the answer\<close>

definition has_room :: "service \<Rightarrow> string \<Rightarrow> Request \<Rightarrow> bool" where
  "has_room s rid r \<longleftrightarrow> (Status r = StatusStreaming \<longrightarrow>
     int (RuneCountInString (answerTextLocked s rid)) < OutputLimit r)"

definition open_answers :: "service \<Rightarrow> bool" where
  "open_answers s \<longleftrightarrow> (\<forall>rid r. mget (requests s) rid = Some r \<longrightarrow> has_room s rid r)"

definition svc_inv :: "service \<Rightarrow> bool" where
  "svc_inv s \<longleftrightarrow> wf_service s \<and> points_inv s \<and> open_answers s"

lemma svc_inv_NewService: "svc_inv NewService"
  using wf_NewService
  by (simp add: svc_inv_def points_inv_def open_answers_def grantOf_def NewService_def)

section \<open>Nothing committed is taken back\<close>

definition can_become :: "RequestStatus \<Rightarrow> RequestStatus \<Rightarrow> bool" where
  "can_become st st' \<longleftrightarrow> st = st' \<or> held_status st \<or> (st = StatusStreaming \<and> done_status st')"

definition same_question :: "Request \<Rightarrow> Request \<Rightarrow> bool" where
  "same_question r r' \<longleftrightarrow>
     ReqID r' = ReqID r \<and> RequesterID r' = RequesterID r \<and>
     RequesterSessionID r' = RequesterSessionID r \<and> RequesterGuest r' = RequesterGuest r \<and>
     RequesterKind r' = RequesterKind r \<and> AllowAIAnswers r' = AllowAIAnswers r \<and>
     Messages r' = Messages r \<and> Model r' = Model r \<and>
     PreferredResponderSessionID r' = PreferredResponderSessionID r \<and>
     BoardEligible r' = BoardEligible r \<and> OutputLimit r' = OutputLimit r \<and>
     CreatedAt r' = CreatedAt r"

definition same_responder :: "Request \<Rightarrow> Request \<Rightarrow> bool" where
  "same_responder r r' \<longleftrightarrow>
     ResponderSessionID r' = ResponderSessionID r \<and> ResponderUserID r' = ResponderUserID r \<and>
     ResponderGuest r' = ResponderGuest r \<and> ResponderKind r' = ResponderKind r \<and>
     ResponderDisplay r' = ResponderDisplay r"

definition req_le :: "Request \<Rightarrow> Request \<Rightarrow> bool" where
  "req_le r r' \<longleftrightarrow> same_question r r' \<and> can_become (Status r) (Status r') \<and>
     (answered_status (Status r) \<longrightarrow> same_responder r r') \<and>
     (QuestionCharged r \<longrightarrow> QuestionCharged r') \<and>
     (isTerminal (Status r) \<longrightarrow> ReqFinish r' = ReqFinish r \<and> CompletedAt r' = CompletedAt r)"

definition extends :: "service \<Rightarrow> service \<Rightarrow> bool" where
  "extends s s' \<longleftrightarrow>
     (\<forall>rid r. mget (requests s) rid = Some r \<longrightarrow>
        (\<exists>r'. mget (requests s') rid = Some r' \<and> req_le r r' \<and>
          (isTerminal (Status r) \<longrightarrow> mget0 (fragments s') rid = mget0 (fragments s) rid))) \<and>
     (\<forall>rid. prefix (mget0 (fragments s) rid) (mget0 (fragments s') rid)) \<and>
     prefix (ledger s) (ledger s') \<and>
     (\<forall>tok ses. mget (sessionsByTok s) tok = Some ses \<longrightarrow> mget (sessionsByTok s') tok = Some ses) \<and>
     (\<forall>uid u. mget (users s) uid = Some u \<longrightarrow> mget (users s') uid = Some u)"

lemma can_become_trans: "can_become a b \<Longrightarrow> can_become b c \<Longrightarrow> can_become a c"
  by (auto simp: can_become_def status_defs)

lemma can_become_answered: "can_become a b \<Longrightarrow> answered_status a \<Longrightarrow> answered_status b"
  by (auto simp: can_become_def status_defs)

lemma can_become_terminal: "can_become a b \<Longrightarrow> isTerminal a \<Longrightarrow> b = a"
  by (auto simp: can_become_def status_defs)

lemma req_le_refl [simp]: "req_le r r"
  by (simp add: req_le_def same_question_def same_responder_def can_become_def)

lemma same_question_trans: "same_question a b \<Longrightarrow> same_question b c \<Longrightarrow> same_question a c"
  by (simp add: same_question_def)

lemma same_responder_trans: "same_responder a b \<Longrightarrow> same_responder b c \<Longrightarrow> same_responder a c"
  by (simp add: same_responder_def)

lemma req_le_trans: "req_le a b \<Longrightarrow> req_le b c \<Longrightarrow> req_le a c"
  unfolding req_le_def
  by (metis can_become_trans can_become_answered can_become_terminal same_question_trans
      same_responder_trans)

lemma extends_refl [simp]: "extends s s"
  by (auto simp: extends_def)

lemma extends_trans:
  assumes "extends a b" and "extends b c"
  shows "extends a c"
  unfolding extends_def
proof (intro conjI allI impI)
  fix rid r assume "mget (requests a) rid = Some r"
  then obtain r1 where r1: "mget (requests b) rid = Some r1" "req_le r r1"
    "isTerminal (Status r) \<Longrightarrow> mget0 (fragments b) rid = mget0 (fragments a) rid"
    using assms(1) unfolding extends_def by metis
  then obtain r2 where r2: "mget (requests c) rid = Some r2" "req_le r1 r2"
    "isTerminal (Status r1) \<Longrightarrow> mget0 (fragments c) rid = mget0 (fragments b) rid"
    using assms(2) unfolding extends_def by metis
  have "Status r1 = Status r" if "isTerminal (Status r)"
    using r1(2) can_become_terminal that by (auto simp: req_le_def)
  then show "\<exists>r'. mget (requests c) rid = Some r' \<and> req_le r r' \<and>
      (isTerminal (Status r) \<longrightarrow> mget0 (fragments c) rid = mget0 (fragments a) rid)"
    using r1 r2 req_le_trans [OF r1(2) r2(2)] by auto
next
  fix rid show "prefix (mget0 (fragments a) rid) (mget0 (fragments c) rid)"
    using assms prefix_order.trans unfolding extends_def by blast
next
  show "prefix (ledger a) (ledger c)"
    using assms prefix_order.trans unfolding extends_def by blast
qed (use assms in \<open>simp_all add: extends_def\<close>)

section \<open>One step of the service\<close>

definition evolve :: "service \<Rightarrow> service \<Rightarrow> bool" where
  "evolve s s' \<longleftrightarrow> svc_inv s' \<and> extends s s'"

lemma evolve_refl: "svc_inv s \<Longrightarrow> evolve s s"
  by (simp add: evolve_def)

lemma evolve_trans: "evolve a b \<Longrightarrow> evolve b c \<Longrightarrow> evolve a c"
  using extends_trans by (auto simp: evolve_def)

text \<open>A step that stores a newer version of one request and may append to the ledger.\<close>

lemma extends_replace:
  assumes "mget (requests s) rid = Some r" and "requests s' = mput rid r' (requests s)"
    and "fragments s' = fragments s" and "sessionsByTok s' = sessionsByTok s"
    and "users s' = users s" and "ledger s' = ledger s @ es" and "req_le r r'"
  shows "extends s s'"
  using assms by (auto simp: extends_def)

lemma evolve_replace:
  assumes inv: "wf_service s" "points_inv s"
    and room: "\<And>x rx. x \<noteq> rid \<Longrightarrow> mget (requests s) x = Some rx \<Longrightarrow> has_room s x rx"
    and wf': "wf_service s'"
    and r: "mget (requests s) rid = Some r" and upd: "requests s' = mput rid r' (requests s)"
    and same: "fragments s' = fragments s" "sessionsByTok s' = sessionsByTok s" "users s' = users s"
    and led: "ledger s' = ledger s @ es"
    and pts: "\<And>uid. ledgerTotal uid es = earned uid r' - earned uid r"
    and le: "req_le r r'" and st: "has_room s rid r'"
  shows "evolve s s'"
proof -
  have "mwf (requests s)" using inv by (simp add: wf_service_def inv_requests_def)
  then have "points_inv s'"
    using points_replace [OF inv(2) _ r upd same(3) led pts] by blast
  moreover have "open_answers s'"
    using room st same(1) upd by (auto simp: open_answers_def has_room_def answerTextLocked_def)
  ultimately show ?thesis
    using wf' extends_replace [OF r upd same led le] by (simp add: evolve_def svc_inv_def)
qed

lemma svc_invD:
  assumes "svc_inv s"
  shows "wf_service s" and "points_inv s" and "mget (requests s) x = Some rx \<Longrightarrow> has_room s x rx"
  using assms by (simp_all add: svc_inv_def open_answers_def)

lemma svc_inv_streamChans:
  assumes "svc_inv s" and "wf_service (s\<lparr>streamChans := h\<rparr>)"
  shows "evolve s (s\<lparr>streamChans := h\<rparr>)"
  using assms
  by (simp add: evolve_def svc_inv_def points_inv_def open_answers_def has_room_def grantOf_def
      answerTextLocked_def extends_def)

lemma evolve_streamChans:
  "evolve s s' \<Longrightarrow> wf_service (s'\<lparr>streamChans := h\<rparr>) \<Longrightarrow> evolve s (s'\<lparr>streamChans := h\<rparr>)"
  using svc_inv_streamChans evolve_trans evolve_def by blast

lemma req_inv_held:
  "req_inv fs r \<Longrightarrow> held_status (Status r) \<Longrightarrow> \<not> QuestionCharged r \<and> fs = []"
  by (cases "Status r") (simp_all add: req_inv_def status_defs)

lemma not_done_earned:
  "req_inv fs r \<Longrightarrow> held_status (Status r) \<Longrightarrow> earned uid r = 0"
  using req_inv_held [of fs r] by (cases "Status r") (simp_all add: earned_def status_defs)

lemma evolve_requeue:
  assumes inv: "svc_inv s" and r: "mget (requests s) rid = Some r"
    and st: "Status r = StatusAssigned"
  shows "evolve s (requeueLocked r now s)"
proof -
  note rf = request_facts [OF svc_invD(1) [OF inv] r]
  let ?r = "(clearResponder r)\<lparr>Status := StatusQueued, UpdatedAt := now\<rparr>"
  have "earned uid ?r - earned uid r = 0" for uid
    using not_done_earned [OF req_inv_requeue [OF rf(3) st, of now], of uid]
      not_done_earned [OF rf(3), of uid] st by (simp add: status_defs)
  then show ?thesis
    by (intro evolve_replace [where es = "[]" and r' = "?r", OF svc_invD(1,2) [OF inv] _
          wf_requeue [OF svc_invD(1) [OF inv] r st] r])
      (use svc_invD(3) [OF inv] rf(1) st in \<open>simp_all add: requeueLocked_def Let_def put_req_def
          clearResponder_def req_le_def same_question_def can_become_def status_defs has_room_def\<close>)
qed

lemma evolve_abandonState:
  assumes inv: "svc_inv s" and r: "mget (requests s) rid = Some r"
    and st: "held_status (Status r)"
  shows "evolve s (abandonState r now s)"
proof -
  note rf = request_facts [OF svc_invD(1) [OF inv] r]
  let ?r = "(clearResponder r)\<lparr>Status := StatusAbandoned, FrozenPoints := 0, UpdatedAt := now\<rparr>"
  have "\<not> QuestionCharged r" using req_inv_held [OF rf(3) st] by simp
  then have "earned uid ?r - earned uid r = 0" for uid
    using not_done_earned [OF rf(3) st, of uid]
    by (simp add: earned_def clearResponder_def status_defs)
  then show ?thesis
    by (intro evolve_replace [where es = "[]" and r' = "?r", OF svc_invD(1,2) [OF inv] _
          wf_abandonState [OF svc_invD(1) [OF inv] r st] r])
      (use svc_invD(3) [OF inv] rf(1) st in \<open>auto simp: abandonState_def Let_def put_req_def
          removeQueuedRequestLocked_def clearResponder_def req_le_def same_question_def
          can_become_def status_defs has_room_def\<close>)
qed

lemma evolve_abandon:
  assumes inv: "svc_inv s" and r: "mget (requests s) rid = Some r"
    and st: "held_status (Status r)"
  shows "\<exists>s' h. abandonLocked r now s = Some s' \<and> s' = (abandonState r now s)\<lparr>streamChans := h\<rparr> \<and>
    evolve s s'"
  using abandon_form [OF svc_invD(1) [OF inv] r st, of now]
    evolve_streamChans [OF evolve_abandonState [OF assms]] by blast

lemma req_inv_streaming:
  "req_inv fs r \<Longrightarrow> Status r = StatusStreaming \<Longrightarrow>
     QuestionCharged r \<and> fs \<noteq> [] \<and> ReqReaction r = ReactionNone"
  by (simp add: req_inv_def status_defs)

definition rewardEntries :: "entropy \<Rightarrow> Request \<Rightarrow> time \<Rightarrow> PointEntry list" where
  "rewardEntries e r now =
     (if \<not> ResponderGuest r \<and> ResponderUserID r \<noteq> []
      then [\<lparr>PtsID = newID ''pts'' e, PtsUserID = ResponderUserID r, PtsRequestID = ReqID r,
             PtsKind = ''answer_reward'', Delta = BaseAnswerReward, PtsCreatedAt = now\<rparr>]
      else [])"

lemma evolve_completeState:
  assumes inv: "wf_service s" "points_inv s"
    and room: "\<And>x rx. x \<noteq> rid \<Longrightarrow> mget (requests s) x = Some rx \<Longrightarrow> has_room s x rx"
    and r: "mget (requests s) rid = Some r" and st: "Status r = StatusStreaming"
  shows "evolve s (completeState e r reason now s)"
proof -
  note rf = request_facts [OF inv(1) r]
  note str = req_inv_streaming [OF rf(3) st]
  let ?st = "if reason = FinishPartial then StatusTimeoutCompleted else StatusCompleted"
  let ?r = "r\<lparr>Status := ?st, ReqFinish := reason, UpdatedAt := now, CompletedAt := now\<rparr>"
  have *: "ledgerTotal uid (rewardEntries e r now) = earned uid ?r - earned uid r" for uid
    using str st by (simp add: rewardEntries_def earned_def status_defs rewardFor_def)
  have "ledger (completeState e r reason now s) = ledger s @ rewardEntries e r now"
    using str rf(1) by (simp add: completeState_def Let_def put_req_def addLedgerLocked_def rewardEntries_def)
  then show ?thesis
    by (intro evolve_replace [where es = "rewardEntries e r now" and r' = "?r", OF inv room
          wf_completeState [OF inv(1) r st] r _ _ _ _ _ *])
      (use rf(1) st in \<open>simp_all add: completeState_def Let_def put_req_def addLedgerLocked_def
          req_le_def same_question_def same_responder_def can_become_def status_defs has_room_def\<close>)
qed

lemma evolve_complete:
  assumes inv: "wf_service s" "points_inv s"
    and room: "\<And>x rx. x \<noteq> rid \<Longrightarrow> mget (requests s) x = Some rx \<Longrightarrow> has_room s x rx"
    and r: "mget (requests s) rid = Some r" and st: "Status r = StatusStreaming"
  shows "\<exists>s' h. completeLocked e r reason now s = Some s' \<and>
    s' = (completeState e r reason now s)\<lparr>streamChans := h\<rparr> \<and> evolve s s'"
  using complete_form [OF inv(1) r st, of e reason now]
    evolve_streamChans [OF evolve_completeState [OF assms]] by blast

lemma evolve_assignState:
  assumes inv: "svc_inv s" and h: "handover now q k req ses g s"
  shows "evolve s (assignState now q k req ses g s)"
proof -
  have req: "mget (requests s) (queue s ! q) = Some req" and st: "Status req = StatusQueued"
    using h by (simp_all add: handover_def)
  note rf = request_facts [OF svc_invD(1) [OF inv] req]
  let ?r = "assigned req (available s ! k) ses now"
  have "earned uid ?r - earned uid req = 0" for uid
    using req_inv_held [OF rf(3)] st by (simp add: earned_def assigned_def status_defs)
  then show ?thesis
    by (intro evolve_replace [where es = "[]" and r' = "?r", OF svc_invD(1,2) [OF inv] _
          wf_handover(1) [OF svc_invD(1) [OF inv] h] req])
      (use svc_invD(3) [OF inv] st in \<open>simp_all add: assignState_def assigned_def
          req_le_def same_question_def can_become_def status_defs has_room_def\<close>)
qed

lemma evolve_handover:
  assumes inv: "svc_inv s" and h: "handover now q k req ses g s"
  shows "evolve s (assignState now q k req ses g s)"
    and "evolve s (requeueLocked (assigned req (available s ! k) ses now) now
           (assignState now q k req ses g s))"
proof -
  show e: "evolve s (assignState now q k req ses g s)"
    by (rule evolve_assignState [OF assms])
  have "evolve (assignState now q k req ses g s) (requeueLocked (assigned req (available s ! k) ses now)
      now (assignState now q k req ses g s))"
    by (rule evolve_requeue [of _ "queue s ! q"])
      (use e in \<open>simp_all add: evolve_def assignState_def assigned_def\<close>)
  then show "evolve s (requeueLocked (assigned req (available s ! k) ses now) now
      (assignState now q k req ses g s))" using evolve_trans e by blast
qed

text \<open>
  The assignment loop returns, keeps every invariant, and stops only when no queued request has
  a compatible free responder.
\<close>

lemma evolve_tryAssign:
  assumes inv: "svc_inv s"
  shows "\<exists>s'. tryAssignLocked now s = Some s' \<and> evolve s s' \<and> compatiblePairLocked s' = None"
proof -
  have "\<exists>s'. tryAssignLocked now s = Some s' \<and> wf_service s' \<and> evolve s s' \<and>
      compatiblePairLocked s' = None"
  proof (rule tryAssign_rule)
    fix t q k req ses g
    assume ev: "evolve s t" and h: "handover now q k req ses g t"
    then have "svc_inv t" by (simp add: evolve_def)
    from evolve_handover [OF this h]
    show "evolve s (assignState now q k req ses g t) \<and> evolve s (requeueLocked
        (assigned req (available t ! k) ses now) now (assignState now q k req ses g t))"
      using evolve_trans [OF ev] by blast
  qed (use inv in \<open>simp_all add: evolve_refl svc_invD(1)\<close>)
  then show ?thesis by blast
qed

end
