(* ===== verification/CoreSafety.thy ===== *)
theory CoreSafety
  imports CoreHistory
begin

text \<open>
  Every exported method of the in-memory service, from a state that satisfies the invariant:
  it returns (no panic, no send that would block under the mutex), and the state it leaves
  satisfies the invariant again and extends the one before. The identifiers \<open>newID\<close> draws are
  assumed fresh where the method stores a new object under one.
\<close>

section \<open>Frames\<close>

text \<open>A step that touches neither requests, fragments, ledger nor users.\<close>

lemma evolve_frame:
  assumes inv: "svc_inv s" and wf': "wf_service s'"
    and same: "requests s' = requests s" "fragments s' = fragments s" "ledger s' = ledger s"
      "users s' = users s"
    and ses: "\<And>tok ses. mget (sessionsByTok s) tok = Some ses \<Longrightarrow> mget (sessionsByTok s') tok = Some ses"
  shows "evolve s s'"
proof -
  have "points_inv s'"
    using svc_invD(2) [OF inv] same by (simp add: points_inv_def grantOf_def)
  moreover have "open_answers s'"
    using inv same by (simp add: svc_inv_def open_answers_def has_room_def answerTextLocked_def)
  moreover have "extends s s'" using same ses by (auto simp: extends_def)
  ultimately show ?thesis using wf' by (simp add: evolve_def svc_inv_def)
qed

lemma active_live:
  assumes "wf_service s" and "mget0 (activeByRes s) sid = rid" and "rid \<noteq> []"
  shows "\<exists>r. mget (requests s) rid = Some r \<and> live_status (Status r) \<and> ResponderSessionID r = sid"
proof -
  have "mget (activeByRes s) sid = Some rid"
    using assms(2,3) by (simp add: mget0_def split: option.splits)
  then show ?thesis using active_iff [OF assms(1)] by blast
qed

text \<open>The status of a request, read off its committed fragments.\<close>

lemma req_inv_status:
  assumes "req_inv fs r"
  shows "live_status (Status r) \<Longrightarrow> fs = [] \<Longrightarrow> Status r = StatusAssigned"
    and "live_status (Status r) \<Longrightarrow> fs \<noteq> [] \<Longrightarrow> Status r = StatusStreaming"
    and "\<not> isTerminal (Status r) \<Longrightarrow> fs = [] \<Longrightarrow> held_status (Status r)"
  using assms by (cases "Status r"; simp add: req_inv_def status_defs)+

section \<open>Sessions\<close>

lemma mput_new: "mget m k = None \<Longrightarrow> mput k v m = m @ [(k, v)]"
  by (induction m) (auto simp: mput_def mget_def)

lemma sessionById_new:
  assumes "mget (sessionsByTok s) tok = None"
  shows "sessionByIDLocked (s\<lparr>sessionsByTok := mput tok ses (sessionsByTok s)\<rparr>) sid =
    (case sessionByIDLocked s sid of Some x \<Rightarrow> Some x
     | None \<Rightarrow> if SesID ses = sid then Some ses else None)"
proof -
  have "find P (xs @ [x]) = (case find P xs of Some y \<Rightarrow> Some y | None \<Rightarrow> if P x then Some x else None)"
    for P and xs :: "Session list" and x by (induction xs) auto
  then show ?thesis using assms by (simp add: sessionByIDLocked_def mput_new)
qed

lemma wf_addSession:
  assumes wf: "wf_service s" and fresh: "mget (sessionsByTok s) (Token ses) = None"
    and ses: "is_session_id (SesID ses)" "SesKind ses \<noteq> KindFallback"
      "Guest ses \<longleftrightarrow> SesUserID ses = []"
      "\<not> Guest ses \<Longrightarrow> mget (users s) (SesUserID ses) \<noteq> None"
  shows "wf_service (s\<lparr>sessionsByTok := mput (Token ses) ses (sessionsByTok s)\<rparr>)"
proof -
  let ?s = "s\<lparr>sessionsByTok := mput (Token ses) ses (sessionsByTok s)\<rparr>"
  have "inv_sessions ?s" using wf ses by (auto simp: wf_service_def inv_sessions_def)
  moreover have "inv_available ?s"
    using wf sessionById_new [OF fresh, of ses]
    by (auto simp: wf_service_def inv_available_def split: option.splits)
  ultimately show ?thesis
    using wf by (simp add: wf_service_def inv_requests_def inv_queue_def inv_active_def
        inv_chans_def inv_fragments_def)
qed

lemma newID_ses: "is_session_id (newID ''ses'' e)"
  by (cases e) (simp_all add: is_session_id_def HasPrefix_def)

definition fresh_token :: "entropy \<Rightarrow> service \<Rightarrow> bool" where
  "fresh_token e s \<longleftrightarrow> mget (sessionsByTok s) (newID ''tok'' e) = None"

lemma evolve_createSession:
  assumes inv: "svc_inv s" and fresh: "fresh_token e2 s"
    and ses: "kind \<noteq> KindFallback" "guest \<longleftrightarrow> uid = []" "\<not> guest \<Longrightarrow> mget (users s) uid \<noteq> None"
    and res: "createSessionLocked e1 e2 uid guest nick kind now s = (s', x)"
  shows "evolve s s'" and "\<exists>a. authResultLocked s' x = Some a"
proof -
  note res' = res [symmetric, unfolded createSessionLocked_def Let_def, simplified]
  have "wf_service s'"
    using wf_addSession [OF svc_invD(1) [OF inv], of x] newID_ses fresh ses res'
    by (simp add: fresh_token_def)
  then show "evolve s s'"
    by (rule evolve_frame [OF inv]) (use fresh res' in \<open>auto simp: fresh_token_def\<close>)
  show "\<exists>a. authResultLocked s' x = Some a"
    using res' ses(3) by (cases guest) (auto simp: authResultLocked_def)
qed

lemma kind_human_persona: "KindHuman \<noteq> KindFallback" "KindAIPersona \<noteq> KindFallback"
  by (simp_all add: kind_defs)

lemma GuestSession_evolve:
  assumes "svc_inv s" and "fresh_token (rnd 1) s"
  shows "\<exists>s' a. GuestSession rnd now nick s = Some (s', a) \<and> evolve s s'"
proof -
  let ?n = "if TrimSpace nick = [] then guestNickname else nick"
  obtain s' x where cs: "createSessionLocked (rnd 0) (rnd 1) [] True ?n KindHuman now s = (s', x)"
    by fastforce
  from evolve_createSession [OF assms kind_human_persona(1) _ _ cs]
  show ?thesis using cs by (auto simp: GuestSession_def Let_def)
qed

lemma PersonaSession_evolve:
  assumes "svc_inv s" and "fresh_token (rnd 1) s"
  shows "\<exists>s' a. PersonaSession rnd now nick s = Some (s', a) \<and> evolve s s'"
proof -
  let ?n = "if TrimSpace nick = [] then personaNickname else nick"
  obtain s' x where cs: "createSessionLocked (rnd 0) (rnd 1) [] True ?n KindAIPersona now s = (s', x)"
    by fastforce
  from evolve_createSession [OF assms kind_human_persona(2) _ _ cs]
  show ?thesis using cs by (auto simp: PersonaSession_def Let_def)
qed

lemma Login_evolve:
  assumes inv: "svc_inv s" and fresh: "fresh_token (rnd 1) s"
  shows "\<exists>s' x. Login cmp rnd now acc pw s = Some (s', x) \<and> evolve s s'"
proof (cases "mget (usersByAccount s) (TrimSpace acc)")
  case None
  then show ?thesis using inv by (simp add: Login_def evolve_refl)
next
  case (Some uid)
  then obtain u where u: "mget (users s) uid = Some u" "UsrID u = uid" "uid \<noteq> []"
    using svc_invD(1) [OF inv] by (fastforce simp: wf_service_def inv_sessions_def)
  obtain s1 ses where cs: "createSessionLocked (rnd 0) (rnd 1) uid False (UsrNickname u) KindHuman now s
      = (s1, ses)" by fastforce
  from evolve_createSession [OF inv fresh kind_human_persona(1) _ _ cs] u
  show ?thesis using Some cs inv by (auto simp: Login_def evolve_refl)
qed

text \<open>Registration adds an account, its grant and its first session.\<close>

lemma evolve_addUser:
  assumes inv: "svc_inv s" and fresh: "mget (users s) (UsrID u) = None" "UsrID u \<noteq> []"
    and acc: "mget (usersByAccount s) (AccountName u) = None"
  shows "evolve s (addLedgerLocked e (UsrID u) [] k SignupGrant now
    (s\<lparr>users := mput (UsrID u) u (users s),
       usersByAccount := mput (AccountName u) (UsrID u) (usersByAccount s)\<rparr>))" (is "evolve s ?s")
proof -
  have "AccountName v \<noteq> AccountName u" if "mget (users s) uid = Some v" for uid v
    using svc_invD(1) [OF inv] acc that by (fastforce simp: wf_service_def inv_sessions_def)
  then have "inv_sessions ?s"
    using svc_invD(1) [OF inv] fresh acc
    by (auto simp: wf_service_def inv_sessions_def addLedgerLocked_def)
  moreover have "sessionByIDLocked ?s = sessionByIDLocked s"
    by (rule sessionById_cong) (simp add: addLedgerLocked_def)
  ultimately have "wf_service ?s"
    using svc_invD(1) [OF inv]
    by (simp add: wf_service_def addLedgerLocked_def inv_requests_def inv_queue_def inv_active_def
        inv_available_def inv_chans_def inv_fragments_def)
  moreover have "points_inv ?s"
    using svc_invD(2) [OF inv] fresh by (auto simp: points_inv_def grantOf_def addLedgerLocked_def)
  moreover have "open_answers ?s"
    using inv by (simp add: svc_inv_def open_answers_def has_room_def answerTextLocked_def
        addLedgerLocked_def)
  moreover have "extends s ?s"
    using fresh by (auto simp: extends_def addLedgerLocked_def)
  ultimately show ?thesis by (simp add: evolve_def svc_inv_def)
qed

lemma Register_evolve:
  assumes inv: "svc_inv s" and fresh: "fresh_token (rnd 3) s"
    and usr: "mget (users s) (newID ''usr'' (rnd 0)) = None"
  shows "\<exists>s' x. Register gen rnd now acc nick pw rep s = Some (s', x) \<and> evolve s s'"
proof -
  let ?a = "TrimSpace acc" and ?n = "TrimSpace nick"
  show ?thesis
  proof (cases "?a = [] \<or> ?n = [] \<or> pw = [] \<or> pw \<noteq> rep \<or> gen pw = None
      \<or> mget (usersByAccount s) ?a \<noteq> None")
    case True
    then show ?thesis using inv
      by (auto simp: Register_def Let_def evolve_refl split: option.splits)
  next
    case False
    then obtain hash where hash: "gen pw = Some hash" by (cases "gen pw") auto
    let ?u = "\<lparr>UsrID = newID ''usr'' (rnd 0), AccountName = ?a, UsrNickname = ?n,
      PasswordHash = hash, UsrCreatedAt = now\<rparr>"
    let ?s3 = "addLedgerLocked (rnd 1) (UsrID ?u) [] ''signup_grant'' SignupGrant now
      (s\<lparr>users := mput (UsrID ?u) ?u (users s),
         usersByAccount := mput (AccountName ?u) (UsrID ?u) (usersByAccount s)\<rparr>)"
    have ev: "evolve s ?s3"
      by (rule evolve_addUser [OF inv]) (use False usr in auto)
    obtain s4 ses where cs: "createSessionLocked (rnd 2) (rnd 3) (UsrID ?u) False ?n KindHuman now
        ?s3 = (s4, ses)" by fastforce
    have "evolve ?s3 s4" and "\<exists>a. authResultLocked s4 ses = Some a"
      using evolve_createSession [OF _ _ kind_human_persona(1) _ _ cs] ev fresh
      by (simp_all add: evolve_def fresh_token_def addLedgerLocked_def)
    then show ?thesis using False hash cs evolve_trans [OF ev]
      by (auto simp: Register_def Let_def)
  qed
qed

lemma Me_total:
  assumes inv: "svc_inv s"
  shows "\<exists>x. Me tok s = Some (s, x)"
proof (cases "mget (sessionsByTok s) tok")
  case (Some ses)
  then have "\<not> Guest ses \<Longrightarrow> mget (users s) (SesUserID ses) \<noteq> None"
    using svc_invD(1) [OF inv] by (simp add: wf_service_def inv_sessions_def)
  then show ?thesis using Some by (auto simp: Me_def authResultLocked_def)
qed (simp add: Me_def)

section \<open>Creating a request\<close>

definition fresh_request :: "entropy \<Rightarrow> service \<Rightarrow> bool" where
  "fresh_request e s \<longleftrightarrow> mget (requests s) (newID ''req'' e) = None"

definition enqueue :: "Request \<Rightarrow> service \<Rightarrow> service" where
  "enqueue r s = (put_req r s)\<lparr>queue := queue s @ [ReqID r]\<rparr>"

lemma no_fragments:
  "wf_service s \<Longrightarrow> mget (requests s) rid = None \<Longrightarrow> mget0 (fragments s) rid = []"
  by (auto simp: wf_service_def inv_fragments_def)

lemma evolve_enqueue:
  assumes inv: "svc_inv s" and new: "mget (requests s) (ReqID r) = None"
    and r: "ReqID r \<noteq> []" "Status r = StatusQueued" "req_inv [] r" "match_inv r"
  shows "evolve s (enqueue r s)"
proof -
  note wf = svc_invD(1) [OF inv]
  let ?s = "enqueue r s"
  have q: "distinct (queue s)" "ReqID r \<notin> set (queue s)"
    using wf new by (simp_all add: wf_service_def inv_queue_def)
  have act: "mget (activeByRes s) sid \<noteq> Some (ReqID r)" for sid
    using active_iff [OF wf] new by simp
  have "replaces s (ReqID r) r ?s"
    using q act r(2) by (auto simp: replaces_def enqueue_def put_req_def live_status_def)
  moreover have "inv_available ?s"
    by (rule inv_available_shrink [of s])
      (use wf in \<open>simp_all add: wf_service_def inv_available_def enqueue_def put_req_def\<close>)
  moreover have "inv_chans ?s"
    using wf by (simp add: wf_service_def inv_chans_def enqueue_def put_req_def)
  ultimately have "wf_service ?s"
    using wf_replace [OF wf _ _ r(1)] r no_fragments [OF wf new] by simp
  moreover have "earned uid r = 0" for uid
    using not_done_earned [OF r(3)] r(2) by (simp add: status_defs)
  then have "points_inv ?s"
    using svc_invD(2) [OF inv] new
    by (simp add: points_inv_def grantOf_def enqueue_def put_req_def msum_mput_new)
  moreover have "open_answers ?s"
    using inv r(2) by (auto simp: svc_inv_def open_answers_def has_room_def answerTextLocked_def
        enqueue_def put_req_def)
  moreover have "extends s ?s"
    using new by (auto simp: extends_def enqueue_def put_req_def)
  ultimately show ?thesis by (simp add: evolve_def svc_inv_def)
qed

text \<open>The request \<open>createRequest\<close> stores.\<close>

definition newRequest ::
  "entropy \<Rightarrow> time \<Rightarrow> Session \<Rightarrow> string \<Rightarrow> Message list \<Rightarrow> int \<Rightarrow> bool \<Rightarrow> string \<Rightarrow> Request"
where
  "newRequest e now ses model messages limit allowAI preferred =
     \<lparr>ReqID = newID ''req'' e, RequesterID = SesUserID ses,
      RequesterSessionID = SesID ses, RequesterGuest = Guest ses,
      RequesterKind = KindOrHuman (SesKind ses), AllowAIAnswers = allowAI,
      Messages = messages, Model = model, Status = StatusQueued,
      ResponderSessionID = [], ResponderUserID = [], ResponderGuest = False,
      ResponderKind = [], ResponderDisplay = [], PreferredResponderSessionID = preferred,
      BoardEligible = Guest ses \<and> SesKind ses \<noteq> KindAIPersona,
      FrozenPoints = (if Guest ses then 0 else QuestionCost), QuestionCharged = False,
      OutputLimit = limit, ReqFinish = FinishUnset, ReqReaction = ReactionNone,
      CreatedAt = now, UpdatedAt = now, CompletedAt = 0\<rparr>"

definition clampLimit :: "int \<Rightarrow> int" where
  "clampLimit n = (if n \<le> 0 \<or> n > OutputLimitChars then OutputLimitChars else n)"

lemma clampLimit_bounds: "0 < clampLimit n" "clampLimit n \<le> OutputLimitChars"
  by (auto simp: clampLimit_def OutputLimitChars_def)

lemma createRequest_eq:
  "createRequest rnd now token model messages n allowAI preferred s =
     (case validateInput messages of Some err \<Rightarrow> fail s err
      | None \<Rightarrow> case mget (sessionsByTok s) token of
          None \<Rightarrow> fail s ErrUnauthorized
        | Some ses \<Rightarrow>
            if preferred \<noteq> [] \<and> KindOrHuman (SesKind ses) \<noteq> KindAIPersona
            then fail s ErrUnauthorized
            else if \<not> Guest ses \<and> Available (balanceLocked s (SesUserID ses)) < QuestionCost
            then fail s ErrInsufficientPoints
            else
              let r = newRequest (rnd 0) now ses model messages (clampLimit n) allowAI preferred
              in do {
                s3 \<leftarrow> tryAssignLocked now (enqueue r s);
                req' \<leftarrow> mget (requests s3) (ReqID r);
                ok s3 req'
              })"
  by (simp add: createRequest_def newRequest_def clampLimit_def enqueue_def put_req_def Let_def
      cloneRequest_def split: option.split)

lemma createRequest_okD:
  assumes "createRequest rnd now token model messages n allowAI preferred s = ok s' req"
  shows "\<exists>ses. validateInput messages = None \<and> mget (sessionsByTok s) token = Some ses \<and>
     (preferred = [] \<or> KindOrHuman (SesKind ses) = KindAIPersona) \<and>
     (Guest ses \<or> QuestionCost \<le> Available (balanceLocked s (SesUserID ses))) \<and>
     tryAssignLocked now
       (enqueue (newRequest (rnd 0) now ses model messages (clampLimit n) allowAI preferred) s) = Some s' \<and>
     mget (requests s') (newID ''req'' (rnd 0)) = Some req"
proof (cases "validateInput messages")
  case None
  show ?thesis
  proof (cases "mget (sessionsByTok s) token")
    case (Some ses)
    have "newID ''req'' (rnd 0) =
        ReqID (newRequest (rnd 0) now ses model messages (clampLimit n) allowAI preferred)"
      by (simp add: newRequest_def)
    then show ?thesis using assms None Some
      by (simp add: createRequest_eq Let_def bind_eq_Some_conv split: if_splits) force+
  qed (use assms None in \<open>simp add: createRequest_eq\<close>)
qed (use assms in \<open>simp add: createRequest_eq\<close>)

lemma evolve_newRequest:
  assumes inv: "svc_inv s" and fresh: "fresh_request e s"
    and ses: "mget (sessionsByTok s) token = Some ses"
  shows "evolve s (enqueue (newRequest e now ses model messages (clampLimit n) allowAI preferred) s)"
proof -
  have "Guest ses \<longleftrightarrow> SesUserID ses = []"
    using svc_invD(1) [OF inv] ses by (simp add: wf_service_def inv_sessions_def)
  then show ?thesis
    by (intro evolve_enqueue [OF inv])
      (use fresh clampLimit_bounds [of n] less_imp_le [OF clampLimit_bounds(1) [of n]] in \<open>simp_all add: newRequest_def fresh_request_def req_inv_def
        match_inv_def status_defs is_zero_time_def KindOrHuman_def kind_defs\<close>)
qed

lemma extends_request:
  "evolve s s' \<Longrightarrow> mget (requests s) rid = Some r \<Longrightarrow>
   \<exists>r'. mget (requests s') rid = Some r' \<and> req_le r r'"
  by (fastforce simp: evolve_def extends_def)

lemma createRequest_evolve:
  assumes inv: "svc_inv s" and fresh: "fresh_request (rnd 0) s"
  shows "\<exists>s' x. createRequest rnd now token model messages n allowAI preferred s = Some (s', x)
     \<and> evolve s s'"
proof (cases "validateInput messages")
  case None
  show ?thesis
  proof (cases "mget (sessionsByTok s) token")
    case (Some ses)
    let ?r = "newRequest (rnd 0) now ses model messages (clampLimit n) allowAI preferred"
    have e: "evolve s (enqueue ?r s)" by (rule evolve_newRequest [OF inv fresh Some])
    then obtain s3 where s3: "tryAssignLocked now (enqueue ?r s) = Some s3" "evolve (enqueue ?r s) s3"
      using evolve_tryAssign by (auto simp: evolve_def)
    then obtain r' where "mget (requests s3) (ReqID ?r) = Some r'"
      using extends_request [OF s3(2), of "ReqID ?r" ?r] by (auto simp: enqueue_def put_req_def)
    then show ?thesis
      using None Some s3 evolve_trans [OF e s3(2)] evolve_refl [OF inv]
      by (auto simp: createRequest_eq Let_def)
  qed (use None inv in \<open>simp add: createRequest_eq evolve_refl\<close>)
qed (use inv in \<open>simp add: createRequest_eq evolve_refl\<close>)

section \<open>Responders\<close>

lemma sessionById_of_token:
  assumes "mget (sessionsByTok s) tok = Some ses"
  shows "sessionByIDLocked s (SesID ses) \<noteq> None"
proof -
  have "ses \<in> set (map snd (sessionsByTok s))" using mget_in_set [OF assms] by force
  then show ?thesis by (auto simp: sessionByIDLocked_def find_None_iff)
qed

lemma RegisterResponder_evolve:
  assumes inv: "svc_inv s"
  shows "\<exists>s' x. RegisterResponder tok s = Some (s', x) \<and> evolve s s'"
proof (cases "mget (sessionsByTok s) tok")
  case (Some ses)
  note wf = svc_invD(1) [OF inv]
  let ?s = "s\<lparr>assignChans := assignChans s @ [make_chan 4],
     responders := mput (SesID ses) (length (assignChans s)) (responders s)\<rparr>"
  have id: "is_session_id (SesID ses)" using wf Some by (simp add: wf_service_def inv_sessions_def)
  have "inv_available ?s"
    using wf id sessionById_of_token [OF Some] by (auto simp: wf_service_def inv_available_def)
  moreover have "inv_chans ?s"
  proof -
    have "ch < length (assignChans s)" if "mget (responders s) sid = Some ch" for sid ch
      using wf that by (auto simp: wf_service_def inv_chans_def chan_open_def)
    then show ?thesis using wf
      by (auto simp: wf_service_def inv_chans_def chan_open_append make_chan_def)
  qed
  ultimately have "wf_service ?s"
    using wf by (simp add: wf_service_def inv_requests_def inv_queue_def inv_active_def
        inv_sessions_def inv_fragments_def)
  then have "evolve s ?s" by (rule evolve_frame [OF inv]) simp_all
  then show ?thesis using Some by (simp add: RegisterResponder_def Let_def)
qed (use inv in \<open>simp add: RegisterResponder_def evolve_refl\<close>)

text \<open>Taking a responder out of the pool: channel closed, preference dropped, not available.\<close>

definition leave :: "string \<Rightarrow> service \<Rightarrow> service" where
  "leave sid s = removeAvailableLocked sid
     (s\<lparr>responders := mdel sid (responders s),
        assignChans := (case mget (responders s) sid of None \<Rightarrow> assignChans s
          | Some ch \<Rightarrow> (assignChans s)[ch := (assignChans s ! ch)\<lparr>cclosed := True\<rparr>]),
        acceptAI := mdel sid (acceptAI s)\<rparr>)"

lemma mdel_absent: "mget m k = None \<Longrightarrow> mdel k m = m"
  by (simp add: mget_def mdel_def map_of_eq_None_iff delete_id)

lemma wf_leave:
  assumes wf: "wf_service s"
  shows "wf_service (leave sid s)"
proof -
  let ?s = "leave sid s"
  have "inv_available ?s"
    using wf by (auto simp: wf_service_def inv_available_def leave_def removeAvailableLocked_def)
  moreover have "inv_chans ?s"
  proof (cases "mget (responders s) sid")
    case (Some ch)
    then have "ch < length (assignChans s)"
      using wf by (auto simp: wf_service_def inv_chans_def chan_open_def)
    then show ?thesis using wf Some
      by (auto simp: wf_service_def inv_chans_def leave_def removeAvailableLocked_def
          chan_open_update chan_open_def nth_list_update)
  qed (use wf in \<open>auto simp: wf_service_def inv_chans_def leave_def removeAvailableLocked_def\<close>)
  ultimately show ?thesis
    using wf by (simp add: wf_service_def inv_requests_def inv_queue_def inv_active_def
        inv_sessions_def inv_fragments_def leave_def removeAvailableLocked_def)
qed

lemma evolve_leave: "svc_inv s \<Longrightarrow> evolve s (leave sid s)"
  by (rule evolve_frame [OF _ wf_leave [OF svc_invD(1)]])
    (simp_all add: leave_def removeAvailableLocked_def)

text \<open>The assignment of a responder that left: requeued, abandoned, or closed as partial.\<close>

definition dropAssignment :: "entropy \<Rightarrow> time \<Rightarrow> string \<Rightarrow> service \<Rightarrow> service option" where
  "dropAssignment e now sid s =
     (let rid = mget0 (activeByRes s) sid in
      if rid = [] then Some s
      else case mget (requests s) rid of
        None \<Rightarrow> Some s
      | Some req \<Rightarrow>
          if isTerminal (Status req) then Some s
          else if mget0 (fragments s) rid = [] then
            (if PreferredResponderSessionID req \<noteq> [] then abandonLocked req now s
             else Some (requeueLocked req now s))
          else completeLocked e req FinishPartial now s)"

lemma Unregister_eq:
  assumes wf: "wf_service s"
  shows "UnregisterResponder e now sid s = dropAssignment e now sid (leave sid s)"
proof (cases "mget (responders s) sid")
  case None
  then show ?thesis
    by (simp add: UnregisterResponder_def dropAssignment_def leave_def mdel_absent Let_def)
next
  case (Some ch)
  then have "chan_open (assignChans s) ch" using wf by (auto simp: wf_service_def inv_chans_def)
  then show ?thesis using Some
    by (simp add: UnregisterResponder_def dropAssignment_def leave_def heap_get_open close_chan_def
        chan_open_def Let_def split: option.split)
qed

lemma evolve_dropAssignment:
  assumes inv: "svc_inv s"
  shows "\<exists>s'. dropAssignment e now sid s = Some s' \<and> evolve s s'"
proof (cases "mget0 (activeByRes s) sid = []")
  case True
  then show ?thesis using inv by (simp add: dropAssignment_def evolve_refl)
next
  case False
  let ?rid = "mget0 (activeByRes s) sid"
  obtain r where r: "mget (requests s) ?rid = Some r" and live: "live_status (Status r)"
    using active_live [OF svc_invD(1) [OF inv] refl False] by blast
  note rf = request_facts [OF svc_invD(1) [OF inv] r]
  have nt: "\<not> isTerminal (Status r)" using live by (auto simp: status_defs)
  show ?thesis
  proof (cases "mget0 (fragments s) ?rid = []")
    case True
    then have st: "Status r = StatusAssigned" using req_inv_status(1) [OF rf(3) live] by simp
    show ?thesis
      using False r nt True evolve_requeue [OF inv r st, of now] evolve_abandon [OF inv r, of now] st
      by (auto simp: dropAssignment_def status_defs)
  next
    case nonempty: False
    then have st: "Status r = StatusStreaming" using req_inv_status(2) [OF rf(3) live] by simp
    show ?thesis
      using False r nt nonempty
        evolve_complete [OF svc_invD(1,2) [OF inv] svc_invD(3) [OF inv] r st, of e FinishPartial now]
      by (auto simp: dropAssignment_def)
  qed
qed

lemma UnregisterResponder_evolve:
  assumes inv: "svc_inv s"
  shows "\<exists>s'. UnregisterResponder e now sid s = Some s' \<and> evolve s s'"
proof -
  have l: "evolve s (leave sid s)" by (rule evolve_leave [OF inv])
  then show ?thesis
    using evolve_dropAssignment [of "leave sid s" e now sid] evolve_trans [OF l]
      Unregister_eq [OF svc_invD(1) [OF inv]] by (auto simp: evolve_def)
qed

lemma contains_set: "contains xs x \<longleftrightarrow> x \<in> set xs"
  by (induction xs) auto

lemma evolve_available:
  assumes inv: "svc_inv s" and sid: "mget (responders s) sid \<noteq> None"
    and free: "mget0 (activeByRes s) sid = []" and new: "sid \<notin> set (available s)"
  shows "evolve s (s\<lparr>available := available s @ [sid]\<rparr>)"
proof -
  note wf = svc_invD(1) [OF inv]
  have "inv_available (s\<lparr>available := available s @ [sid]\<rparr>)"
    using wf sid new free active_mget0 [OF wf] by (auto simp: wf_service_def inv_available_def)
  then have "wf_service (s\<lparr>available := available s @ [sid]\<rparr>)"
    using wf by (simp add: wf_service_def inv_requests_def inv_queue_def inv_active_def inv_chans_def
        inv_sessions_def inv_fragments_def)
  then show ?thesis by (rule evolve_frame [OF inv]) simp_all
qed

lemma makeAvailable_evolve:
  assumes inv: "svc_inv s" and sid: "mget (responders s) sid \<noteq> None"
  shows "\<exists>s'. makeAvailable now sid s = ok s' () \<and> evolve s s'"
proof (cases "mget0 (activeByRes s) sid = []")
  case True
  let ?s = "if \<not> contains (available s) sid then s\<lparr>available := available s @ [sid]\<rparr> else s"
  have e: "evolve s ?s"
    using evolve_available [OF inv sid True] inv by (simp add: contains_set evolve_refl)
  then obtain s2 where "tryAssignLocked now ?s = Some s2" "evolve ?s s2"
    using evolve_tryAssign unfolding evolve_def by blast
  then show ?thesis using True evolve_trans [OF e, of s2] by (simp add: makeAvailable_def)
qed (use inv in \<open>simp add: makeAvailable_def evolve_refl\<close>)

lemma evolve_acceptAI: "svc_inv s \<Longrightarrow> evolve s (s\<lparr>acceptAI := a\<rparr>)"
  by (rule evolve_frame) (simp_all add: svc_inv_def wf_service_def inv_defs)

lemma MarkResponderAvailable_evolve:
  assumes inv: "svc_inv s"
  shows "\<exists>s' x. MarkResponderAvailable now sid acc s = Some (s', x) \<and> evolve s s'"
proof (cases "mget (responders s) sid = None")
  case False
  let ?s = "s\<lparr>acceptAI := mput sid (acc = [] \<or> hd acc) (acceptAI s)\<rparr>"
  have e: "evolve s ?s" by (rule evolve_acceptAI [OF inv])
  then obtain s' where "makeAvailable now sid ?s = ok s' ()" "evolve ?s s'"
    using makeAvailable_evolve [of ?s sid now] False by (auto simp: evolve_def)
  then show ?thesis using False evolve_trans [OF e, of s']
    by (auto simp: MarkResponderAvailable_def Let_def)
qed (use inv in \<open>simp add: MarkResponderAvailable_def evolve_refl\<close>)

lemma ResumeResponder_evolve:
  assumes inv: "svc_inv s"
  shows "\<exists>s' x. ResumeResponder now sid s = Some (s', x) \<and> evolve s s'"
  using makeAvailable_evolve [OF inv, of sid now] evolve_refl [OF inv]
  by (cases "mget (responders s) sid = None") (auto simp: ResumeResponder_def)

end
