(* ===== verification/CoreAnswers.thy ===== *)
theory CoreAnswers
  imports CoreSafety
begin

text \<open>
  The second half of the safety lemmas: the fallback primitives, committing fragments, finishing,
  skipping, cancelling, the timeout sweep, reactions and streams.
\<close>

section \<open>Fallback\<close>

definition fallbackRequest :: "Request \<Rightarrow> time \<Rightarrow> Request" where
  "fallbackRequest r now = r\<lparr>Status := StatusAssigned, ResponderSessionID := ''fallback_'' @ ReqID r,
     ResponderUserID := [], ResponderGuest := True, ResponderKind := KindFallback,
     ResponderDisplay := fallbackDisplay, UpdatedAt := now\<rparr>"

definition fallbackState :: "string \<Rightarrow> Request \<Rightarrow> time \<Rightarrow> service \<Rightarrow> service" where
  "fallbackState rid r now s =
     s\<lparr>queue := filter (\<lambda>v. v \<noteq> rid) (queue s),
       requests := mput rid (fallbackRequest r now) (requests s),
       activeByRes := mput (''fallback_'' @ rid) rid (activeByRes s)\<rparr>"

lemma fallback_session_owner:
  assumes wf: "wf_service s" and "mget (activeByRes s) (''fallback_'' @ rid) = Some rid'"
  shows "rid' = rid"
proof -
  obtain r where r: "mget (requests s) rid' = Some r" "live_status (Status r)"
    "ResponderSessionID r = ''fallback_'' @ rid"
    using active_iff [OF wf] assms(2) by blast
  note rf = request_facts [OF wf r(1)]
  then show ?thesis using r session_id_facts(2) by (auto simp: match_inv_def)
qed

lemma wf_fallbackState:
  assumes wf: "wf_service s" and r: "mget (requests s) rid = Some r"
    and st: "Status r = StatusQueued" and ai: "AllowAIAnswers r"
    and pref: "PreferredResponderSessionID r = []"
  shows "wf_service (fallbackState rid r now s)"
proof -
  note rf = request_facts [OF wf r]
  let ?s = "fallbackState rid r now s" and ?r = "fallbackRequest r now"
  have "mget (activeByRes s) (''fallback_'' @ rid) = None"
    using fallback_session_owner [OF wf] active_none [OF wf r] st
    by (cases "mget (activeByRes s) (''fallback_'' @ rid)") (auto simp: live_status_def)
  then have "replaces s rid ?r ?s"
    using wf rf(1) st active_none [OF wf r]
    by (auto simp: replaces_def fallbackState_def fallbackRequest_def live_status_def
        wf_service_def inv_queue_def)
  moreover have "inv_available ?s"
    using wf session_id_facts(2)
    by (fastforce simp: wf_service_def inv_available_def fallbackState_def)
  moreover have "inv_chans ?s"
    using wf by (simp add: wf_service_def inv_chans_def fallbackState_def)
  moreover have "req_inv (mget0 (fragments s) rid) ?r"
    using rf(3) st by (simp add: req_inv_def fallbackRequest_def status_defs)
  moreover have "match_inv ?r"
    using ai pref by (simp add: match_inv_def fallbackRequest_def status_defs kind_defs)
  ultimately show ?thesis
    using wf_replace [OF wf _ _ rf(2)] rf(1) by (simp add: fallbackRequest_def)
qed

lemma evolve_fallbackState:
  assumes inv: "svc_inv s" and r: "mget (requests s) rid = Some r"
    and st: "Status r = StatusQueued" and ai: "AllowAIAnswers r"
    and pref: "PreferredResponderSessionID r = []"
  shows "evolve s (fallbackState rid r now s)"
proof -
  note rf = request_facts [OF svc_invD(1) [OF inv] r]
  have "earned uid (fallbackRequest r now) - earned uid r = 0" for uid
    using req_inv_held [OF rf(3)] st by (simp add: earned_def fallbackRequest_def status_defs)
  then show ?thesis
    by (intro evolve_replace [where es = "[]" and r' = "fallbackRequest r now",
          OF svc_invD(1,2) [OF inv] _ wf_fallbackState [OF svc_invD(1) [OF inv] r st ai pref] r])
      (use svc_invD(3) [OF inv] st in \<open>simp_all add: fallbackState_def fallbackRequest_def
          req_le_def same_question_def can_become_def status_defs has_room_def\<close>)
qed

lemma AcquireFallback_eq:
  assumes "wf_service s"
  shows "AcquireFallbackAssignment now rid s =
     (case mget (requests s) rid of
        None \<Rightarrow> (s, None)
      | Some r \<Rightarrow>
          if PreferredResponderSessionID r = [] \<and> AllowAIAnswers r \<and> Status r = StatusQueued
          then (fallbackState rid r now s, Some (''fallback_'' @ rid,
                  \<lparr>AsgRequestID = rid, AsgRequesterKind = RequesterKind r,
                   AsgMessages = Messages r, AsgCreatedAt = CreatedAt r\<rparr>))
          else (s, None))"
proof (cases "mget (requests s) rid")
  case (Some r)
  note rf = request_facts [OF assms Some]
  have "Status r = StatusQueued \<Longrightarrow> mget0 (fragments s) rid = []"
    using req_inv_held [OF rf(3)] by (simp add: status_defs)
  then show ?thesis using Some rf(1)
    by (auto simp: AcquireFallbackAssignment_def Let_def fallbackState_def fallbackRequest_def
        put_req_def removeQueuedRequestLocked_def isTerminal_def)
qed (simp add: AcquireFallbackAssignment_def)

lemma AcquireFallback_evolve:
  assumes inv: "svc_inv s"
  shows "evolve s (fst (AcquireFallbackAssignment now rid s))"
  using evolve_refl [OF inv] evolve_fallbackState [OF inv]
  by (auto simp: AcquireFallback_eq [OF svc_invD(1) [OF inv]] split: option.split)

section \<open>Committing a fragment\<close>

definition chargedRequest :: "time \<Rightarrow> Request \<Rightarrow> Request" where
  "chargedRequest now r =
     (if \<not> QuestionCharged r then r\<lparr>QuestionCharged := True, FrozenPoints := 0\<rparr> else r)
       \<lparr>Status := StatusStreaming, UpdatedAt := now\<rparr>"

definition chargeEntries :: "entropy \<Rightarrow> time \<Rightarrow> Request \<Rightarrow> PointEntry list" where
  "chargeEntries e now r =
     (if \<not> QuestionCharged r \<and> \<not> RequesterGuest r
      then [\<lparr>PtsID = newID ''pts'' e, PtsUserID = RequesterID r, PtsRequestID = ReqID r,
             PtsKind = ''question_charge'', Delta = - QuestionCost, PtsCreatedAt = now\<rparr>]
      else [])"

definition commitState :: "entropy \<Rightarrow> time \<Rightarrow> Request \<Rightarrow> Fragment \<Rightarrow> service \<Rightarrow> service" where
  "commitState e now r f s =
     (let rid = FrgRequestID f; key = seqKey (FrgSessionID f) (ClientSeq f) in
      s\<lparr>seqSeen := mput rid (mput key f (mget0 (seqSeen s) rid)) (seqSeen s),
        fragments := mput rid (mget0 (fragments s) rid @ [f]) (fragments s),
        ledger := ledger s @ chargeEntries e now r,
        requests := mput (ReqID r) (chargedRequest now r) (requests s)\<rparr>)"

definition mkFragment :: "entropy \<Rightarrow> time \<Rightarrow> string \<Rightarrow> string \<Rightarrow> int \<Rightarrow> string \<Rightarrow> Fragment" where
  "mkFragment e now rid sid n text = \<lparr>FrgID = newID ''frg'' e, FrgRequestID = rid,
     FrgSessionID = sid, ClientSeq = n, FrgText = text, FrgCreatedAt = now\<rparr>"

definition afterCommit :: "entropy \<Rightarrow> time \<Rightarrow> Request \<Rightarrow> Fragment \<Rightarrow> service \<Rightarrow> (Fragment \<times> bool) outcome"
where
  "afterCommit e now r f s4 = do {
     s5 \<leftarrow> publishLocked (StreamEventFragment (FrgRequestID f) (FrgText f)) s4;
     s6 \<leftarrow> (if int (RuneCountInString (answerTextLocked s5 (FrgRequestID f))) \<ge> OutputLimit r
            then completeLocked e (chargedRequest now r) FinishLength now s5
            else Some s5);
     ok s6 (f, False)
   }"

lemma SubmitFragment_commit:
  assumes "0 < n" and "text \<noteq> []" and "mget0 (activeByRes s) sid = rid" and "rid \<noteq> []"
    and "mget (requests s) rid = Some r" and "\<not> isTerminal (Status r)"
    and "mget (mget0 (seqSeen s) rid) (seqKey sid n) = None"
    and "int (RuneCountInString (answerTextLocked s rid)) + int (RuneCountInString text) \<le> OutputLimit r"
  shows "SubmitFragment rnd now sid n text s =
    (let f = mkFragment (rnd 0) now rid sid n text
     in afterCommit (rnd 2) now r f (commitState (rnd 1) now r f s))"
  using assms
  by (cases "QuestionCharged r"; cases "RequesterGuest r")
    (simp_all add: SubmitFragment_def Let_def commitState_def mkFragment_def chargedRequest_def
      chargeEntries_def put_req_def addLedgerLocked_def afterCommit_def cong: if_cong)

lemma SubmitFragment_eq:
  "SubmitFragment rnd now sid n text s =
     (let rid = mget0 (activeByRes s) sid in
      if n \<le> 0 then fail s ErrClientSeqNotPositive
      else if text = [] then fail s ErrFragmentTextRequired
      else if rid = [] then fail s ErrNoActiveAssignment
      else case mget (requests s) rid of
          None \<Rightarrow> fail s ErrRequestNotFound
        | Some r \<Rightarrow>
            if isTerminal (Status r) then fail s ErrAlreadyCompleted
            else case mget (mget0 (seqSeen s) rid) (seqKey sid n) of
                Some f \<Rightarrow> ok s (f, True)
              | None \<Rightarrow>
                  if int (RuneCountInString (answerTextLocked s rid)) + int (RuneCountInString text)
                     > OutputLimit r
                  then fail s ErrOutputTooLarge
                  else let f = mkFragment (rnd 0) now rid sid n text
                       in afterCommit (rnd 2) now r f (commitState (rnd 1) now r f s))"
    (is "_ = ?rhs")
proof (cases "mget (requests s) (mget0 (activeByRes s) sid)")
  case (Some r)
  let ?rid = "mget0 (activeByRes s) sid"
  show ?thesis
  proof (cases "0 < n \<and> text \<noteq> [] \<and> ?rid \<noteq> [] \<and> \<not> isTerminal (Status r) \<and>
      mget (mget0 (seqSeen s) ?rid) (seqKey sid n) = None \<and>
      int (RuneCountInString (answerTextLocked s ?rid)) + int (RuneCountInString text) \<le> OutputLimit r")
    case True
    then show ?thesis using SubmitFragment_commit [of n "text" s sid ?rid r rnd now] Some
      by (simp add: Let_def)
  next
    case False
    then consider "n \<le> 0" | "text = []" | "?rid = []" | "isTerminal (Status r)"
      | f where "mget (mget0 (seqSeen s) ?rid) (seqKey sid n) = Some f"
      | "mget (mget0 (seqSeen s) ?rid) (seqKey sid n) = None"
        "OutputLimit r < int (RuneCountInString (answerTextLocked s ?rid)) + int (RuneCountInString text)"
      by fastforce
    then show ?thesis using Some
      by cases (simp_all add: SubmitFragment_def Let_def)
  qed
qed (simp add: SubmitFragment_def Let_def)

lemma answer_commit:
  "FrgRequestID f = ReqID r \<Longrightarrow> answerTextLocked (commitState e now r f s) rid =
     answerTextLocked s rid @ (if rid = ReqID r then FrgText f else [])"
  by (simp add: answerTextLocked_def commitState_def Let_def)

lemma commit_fields [simp]:
  "requests (commitState e now r f s) = mput (ReqID r) (chargedRequest now r) (requests s)"
  "queue (commitState e now r f s) = queue s" "available (commitState e now r f s) = available s"
  "activeByRes (commitState e now r f s) = activeByRes s"
  "sessionsByTok (commitState e now r f s) = sessionsByTok s"
  "users (commitState e now r f s) = users s"
  "usersByAccount (commitState e now r f s) = usersByAccount s"
  "responders (commitState e now r f s) = responders s"
  "subscribers (commitState e now r f s) = subscribers s"
  "assignChans (commitState e now r f s) = assignChans s"
  "streamChans (commitState e now r f s) = streamChans s"
  "ledger (commitState e now r f s) = ledger s @ chargeEntries e now r"
  by (simp_all add: commitState_def Let_def)

text \<open>What the guards of \<open>SubmitFragment\<close> have established when the fragment is committed.\<close>

definition committable :: "service \<Rightarrow> Request \<Rightarrow> Fragment \<Rightarrow> bool" where
  "committable s r f \<longleftrightarrow> mget (requests s) (ReqID r) = Some r \<and> live_status (Status r) \<and>
     FrgRequestID f = ReqID r \<and> FrgText f \<noteq> [] \<and>
     mget (mget0 (seqSeen s) (ReqID r)) (seqKey (FrgSessionID f) (ClientSeq f)) = None \<and>
     int (RuneCountInString (answerTextLocked s (ReqID r))) + int (RuneCountInString (FrgText f))
       \<le> OutputLimit r"

lemma inv_fragments_commit:
  assumes wf: "wf_service s" and c: "committable s r f"
  shows "inv_fragments (commitState e now r f s)"
proof -
  let ?key = "\<lambda>f. seqKey (FrgSessionID f) (ClientSeq f)" and ?rid = "ReqID r"
  have i: "inv_fragments s" using wf by (simp add: wf_service_def)
  have new: "?key f \<notin> ?key ` set (mget0 (fragments s) ?rid)"
  proof
    assume "?key f \<in> ?key ` set (mget0 (fragments s) ?rid)"
    then obtain x where "x \<in> set (mget0 (fragments s) ?rid)" "?key f = ?key x" by blast
    then have "mget (mget0 (seqSeen s) ?rid) (?key f) = Some x"
      using i by (simp add: inv_fragments_def)
    then show False using c by (simp add: committable_def)
  qed
  then show ?thesis using i c
    by (auto simp: inv_fragments_def committable_def commitState_def Let_def)
qed

lemma req_inv_commit:
  assumes "req_inv fs r" and "live_status (Status r)"
    and "int (RuneCountInString (concat (map FrgText (fs @ [f])))) \<le> OutputLimit r"
  shows "req_inv (fs @ [f]) (chargedRequest now r)"
  using assms by (cases "Status r") (simp_all add: req_inv_def chargedRequest_def status_defs)

lemma wf_commit:
  assumes wf: "wf_service s" and c: "committable s r f"
  shows "wf_service (commitState e now r f s)"
proof -
  let ?s = "commitState e now r f s" and ?rid = "ReqID r" and ?r = "chargedRequest now r"
  have r: "mget (requests s) ?rid = Some r" and live: "live_status (Status r)"
    and fr: "FrgRequestID f = ?rid" using c by (simp_all add: committable_def)
  note rf = request_facts [OF wf r]
  have fields: "ReqID ?r = ReqID r" "live_status (Status ?r)" "Status ?r \<noteq> StatusQueued"
    "ResponderSessionID ?r = ResponderSessionID r"
    by (simp_all add: chargedRequest_def status_defs)
  have frags: "mget0 (fragments ?s) x = (if x = ?rid then mget0 (fragments s) x @ [f]
      else mget0 (fragments s) x)" for x
    using fr by (simp add: commitState_def Let_def)
  have bound: "int (RuneCountInString (concat (map FrgText (mget0 (fragments s) ?rid @ [f]))))
      \<le> OutputLimit r"
    using c RuneCount_subadditive [of "answerTextLocked s ?rid" "FrgText f"]
    by (simp add: committable_def answerTextLocked_def)
  have "match_inv ?r"
    using rf(4) live by (cases "Status r") (simp_all add: match_inv_def chargedRequest_def status_defs)
  then have "inv_requests ?s"
    using wf rf(2) req_inv_commit [OF rf(3) live bound] fields(1)
    by (auto simp: wf_service_def inv_requests_def frags)
  moreover have "inv_queue ?s"
    using wf r live fields(3) by (auto simp: wf_service_def inv_queue_def live_status_def)
  moreover have "inv_active ?s"
    using wf r live fields(2,4) by (auto simp: wf_service_def inv_active_def)
  moreover have "inv_available ?s"
    using wf sessionById_cong [of ?s s] by (simp add: wf_service_def inv_available_def)
  moreover have "inv_chans ?s" using wf by (simp add: wf_service_def inv_chans_def)
  moreover have "inv_sessions ?s" using wf by (simp add: wf_service_def inv_sessions_def)
  ultimately show ?thesis
    using inv_fragments_commit [OF wf c] by (simp add: wf_service_def)
qed

lemma points_commit:
  assumes wf: "wf_service s" and pts: "points_inv s" and c: "committable s r f"
  shows "points_inv (commitState e now r f s)"
proof -
  have r: "mget (requests s) (ReqID r) = Some r" and live: "live_status (Status r)"
    using c by (simp_all add: committable_def)
  have "mwf (requests s)" using wf by (simp add: wf_service_def inv_requests_def)
  moreover have "ledgerTotal uid (chargeEntries e now r) =
      earned uid (chargedRequest now r) - earned uid r" for uid
    using live by (cases "Status r") (simp_all add: chargeEntries_def earned_def chargedRequest_def
        status_defs)
  ultimately show ?thesis
    using points_replace [OF pts _ r, of "commitState e now r f s"] by simp
qed

lemma extends_commit:
  assumes wf: "wf_service s" and c: "committable s r f"
  shows "extends s (commitState e now r f s)"
proof -
  have r: "mget (requests s) (ReqID r) = Some r" and live: "live_status (Status r)"
    and fr: "FrgRequestID f = ReqID r"
    using c by (simp_all add: committable_def)
  have "req_le r (chargedRequest now r)"
    using live by (auto simp: req_le_def chargedRequest_def same_question_def same_responder_def
        can_become_def status_defs)
  moreover have "\<not> isTerminal (Status r)" using live by (auto simp: status_defs)
  ultimately show ?thesis
    using r fr by (auto simp: extends_def commitState_def Let_def)
qed

lemma afterCommit_evolve:
  assumes inv: "svc_inv s" and c: "committable s r f"
  shows "\<exists>s'. afterCommit e2 now r f (commitState e now r f s) = ok s' (f, False) \<and> evolve s s'"
proof -
  let ?s4 = "commitState e now r f s" and ?r = "chargedRequest now r" and ?rid = "ReqID r"
  note wf = svc_invD(1) [OF inv]
  have fr: "FrgRequestID f = ?rid" using c by (simp add: committable_def)
  have r': "mget (requests ?s4) ?rid = Some ?r" by simp
  have wf4: "wf_service ?s4" by (rule wf_commit [OF wf c])
  obtain h where h: "publishLocked (StreamEventFragment ?rid (FrgText f)) ?s4 = Some (?s4\<lparr>streamChans := h\<rparr>)"
    "same_open (streamChans ?s4) h"
    using publish_form [OF wf_chans [OF wf4]] by blast
  let ?s5 = "?s4\<lparr>streamChans := h\<rparr>"
  have wf5: "wf_service ?s5" by (rule wf_streamChans [OF wf4 h(2)])
  have p5: "points_inv ?s5"
    using points_commit [OF wf svc_invD(2) [OF inv] c] by (simp add: points_inv_def grantOf_def)
  have room: "has_room ?s5 x rx" if "x \<noteq> ?rid" "mget (requests ?s5) x = Some rx" for x rx
    using svc_invD(3) [OF inv, of x rx] that answer_commit [OF fr, of e now s x]
    by (simp add: has_room_def answerTextLocked_def)
  have ext: "extends s ?s5"
    using extends_commit [OF wf c, of e now] by (simp add: extends_def)
  show ?thesis
  proof (cases "int (RuneCountInString (answerTextLocked ?s5 ?rid)) \<ge> OutputLimit r")
    case True
    have "Status ?r = StatusStreaming" by (simp add: chargedRequest_def)
    then obtain s6 where "completeLocked e2 ?r FinishLength now ?s5 = Some s6" "evolve ?s5 s6"
      using evolve_complete [OF wf5 p5 room, of ?rid ?r e2 FinishLength now] r' by auto
    then show ?thesis using h(1) fr True extends_trans [OF ext]
      by (auto simp: afterCommit_def evolve_def)
  next
    case False
    have "OutputLimit ?r = OutputLimit r" by (simp add: chargedRequest_def)
    then have "open_answers ?s5"
      using room False r' by (auto simp: open_answers_def has_room_def)
    then show ?thesis using h(1) fr False ext wf5 p5
      by (auto simp: afterCommit_def evolve_def svc_inv_def)
  qed
qed

lemma SubmitFragment_evolve:
  assumes inv: "svc_inv s"
  shows "\<exists>s' x. SubmitFragment rnd now sid n text s = Some (s', x) \<and> evolve s s'"
proof (cases "mget0 (activeByRes s) sid = []")
  case True
  then show ?thesis using inv by (simp add: SubmitFragment_eq Let_def evolve_refl)
next
  case False
  let ?rid = "mget0 (activeByRes s) sid"
  obtain r where r: "mget (requests s) ?rid = Some r" and live: "live_status (Status r)"
    using active_live [OF svc_invD(1) [OF inv] refl False] by blast
  note rf = request_facts [OF svc_invD(1) [OF inv] r]
  let ?f = "mkFragment (rnd 0) now ?rid sid n text"
  show ?thesis
  proof (cases "0 < n \<and> text \<noteq> [] \<and> mget (mget0 (seqSeen s) ?rid) (seqKey sid n) = None \<and>
      int (RuneCountInString (answerTextLocked s ?rid)) + int (RuneCountInString text) \<le> OutputLimit r")
    case True
    then have "committable s r ?f"
      using r live rf(1) by (simp add: committable_def mkFragment_def)
    from afterCommit_evolve [OF inv this, of "rnd 2" now "rnd 1"]
    show ?thesis
      using SubmitFragment_commit [OF _ _ refl False r, of n "text" rnd now] True live
      by (auto simp: Let_def status_defs)
  next
    case bad: False
    then have "\<exists>x. SubmitFragment rnd now sid n text s = Some (s, x)"
      using r False by (auto simp: SubmitFragment_eq Let_def not_less split: option.split)
    then show ?thesis using evolve_refl [OF inv] by blast
  qed
qed

section \<open>Finish, skip, cancel\<close>

lemma Finish_evolve:
  assumes inv: "svc_inv s"
  shows "\<exists>s' x. Finish e now sid s = Some (s', x) \<and> evolve s s'"
proof (cases "mget0 (activeByRes s) sid = []")
  case False
  let ?rid = "mget0 (activeByRes s) sid"
  obtain r where r: "mget (requests s) ?rid = Some r" and live: "live_status (Status r)"
    using active_live [OF svc_invD(1) [OF inv] refl False] by blast
  note rf = request_facts [OF svc_invD(1) [OF inv] r]
  show ?thesis
  proof (cases "mget0 (fragments s) ?rid = []")
    case nonempty: False
    then have st: "Status r = StatusStreaming" using req_inv_status(2) [OF rf(3) live] by simp
    show ?thesis
      using False r nonempty
        evolve_complete [OF svc_invD(1,2) [OF inv] svc_invD(3) [OF inv] r st, of e FinishStop now]
      by (auto simp: Finish_def Let_def)
  qed (use False r inv in \<open>simp add: Finish_def Let_def evolve_refl\<close>)
qed (use inv in \<open>simp add: Finish_def evolve_refl\<close>)

lemma Skip_evolve:
  assumes inv: "svc_inv s"
  shows "\<exists>s' x. Skip now now' sid s = Some (s', x) \<and> evolve s s'"
proof (cases "mget0 (activeByRes s) sid = []")
  case False
  let ?rid = "mget0 (activeByRes s) sid"
  obtain r where r: "mget (requests s) ?rid = Some r" and live: "live_status (Status r)"
    using active_live [OF svc_invD(1) [OF inv] refl False] by blast
  note rf = request_facts [OF svc_invD(1) [OF inv] r]
  show ?thesis
  proof (cases "mget0 (fragments s) ?rid = []")
    case True
    then have st: "Status r = StatusAssigned" using req_inv_status(1) [OF rf(3) live] by simp
    have e: "evolve s (requeueLocked r now s)" by (rule evolve_requeue [OF inv r st])
    then obtain s1 where "tryAssignLocked now' (requeueLocked r now s) = Some s1"
      "evolve (requeueLocked r now s) s1"
      using evolve_tryAssign unfolding evolve_def by blast
    moreover obtain s2 where "abandonLocked r now s = Some s2" "evolve s s2"
      using evolve_abandon [OF inv r, of now] st by (auto simp: status_defs)
    ultimately show ?thesis
      using False r True evolve_trans [OF e, of s1] by (simp add: Skip_def Let_def)
  qed (use False r inv in \<open>simp add: Skip_def Let_def evolve_refl\<close>)
qed (use inv in \<open>simp add: Skip_def evolve_refl\<close>)

lemma Cancel_evolve:
  assumes inv: "svc_inv s"
  shows "\<exists>s' x. CancelBeforeFirstFragment now rid s = Some (s', x) \<and> evolve s s'"
proof (cases "mget (requests s) rid")
  case (Some r)
  note rf = request_facts [OF svc_invD(1) [OF inv] Some]
  show ?thesis
  proof (cases "isTerminal (Status r) \<or> mget0 (fragments s) rid \<noteq> []")
    case False
    then have "held_status (Status r)" using req_inv_status(3) [OF rf(3)] by simp
    then show ?thesis
      using evolve_abandon [OF inv Some, of now] Some False
      by (auto simp: CancelBeforeFirstFragment_def)
  qed (use Some inv in \<open>auto simp: CancelBeforeFirstFragment_def evolve_refl\<close>)
qed (use inv in \<open>auto simp: CancelBeforeFirstFragment_def evolve_refl\<close>)

section \<open>Timeouts\<close>

lemma sweepOne_evolve:
  assumes inv: "svc_inv s"
  shows "\<exists>s' x. sweepOne e now ta ts rid s = Some (s', x) \<and> evolve s s'"
proof (cases "mget (requests s) rid")
  case (Some r)
  show ?thesis
  proof (cases "Status r")
    case StatusAssigned
    then show ?thesis
      using Some evolve_refl [OF inv] evolve_requeue [OF inv Some, of now]
        evolve_abandon [OF inv Some, of now]
      by (auto simp: sweepOne_def status_defs)
  next
    case StatusStreaming
    then show ?thesis
      using Some evolve_refl [OF inv]
        evolve_complete [OF svc_invD(1,2) [OF inv] svc_invD(3) [OF inv] Some, of e FinishPartial now]
      by (auto simp: sweepOne_def status_defs)
  qed (use Some inv in \<open>simp_all add: sweepOne_def status_defs evolve_refl\<close>)
qed (use inv in \<open>simp add: sweepOne_def evolve_refl\<close>)

lemma sweepLoop_evolve:
  "svc_inv s \<Longrightarrow> \<exists>s' x. sweepLoop rnd now ta ts ord s = Some (s', x) \<and> evolve s s'"
proof (induction ord arbitrary: s)
  case (Cons rid ord)
  obtain s1 c where s1: "sweepOne (rnd (length ord)) now ta ts rid s = Some (s1, c)" "evolve s s1"
    using sweepOne_evolve [OF Cons.prems] by blast
  then obtain s2 d where "sweepLoop rnd now ta ts ord s1 = Some (s2, d)" "evolve s1 s2"
    using Cons.IH unfolding evolve_def by blast
  then show ?case using s1 evolve_trans [OF s1(2)] by auto
qed (simp add: evolve_refl)

lemma SweepTimeouts_evolve:
  assumes inv: "svc_inv s"
  shows "\<exists>s' x. SweepTimeouts ord rnd now ta ts s = Some (s', x) \<and> evolve s s'"
proof -
  obtain s1 c where s1: "sweepLoop rnd now ta ts ord s = Some (s1, c)" "evolve s s1"
    using sweepLoop_evolve [OF inv] by blast
  then obtain s2 where "tryAssignLocked now s1 = Some s2" "evolve s1 s2"
    using evolve_tryAssign unfolding evolve_def by blast
  then show ?thesis using s1 evolve_trans [OF s1(2)] by (cases "c = []") (auto simp: SweepTimeouts_def)
qed

lemma RunTimeoutSweeper_evolve:
  "svc_inv s \<Longrightarrow> \<exists>s'. RunTimeoutSweeper ticks s = Some s' \<and> evolve s s'"
proof (induction ticks s rule: RunTimeoutSweeper.induct)
  case (2 ord rnd now ticks s)
  obtain s1 c where "SweepTimeouts ord rnd now AssignedTimeout StreamingInactivityTimeout s = Some (s1, c)"
    and e: "evolve s s1" using SweepTimeouts_evolve [OF 2(2)] by blast
  then show ?case using 2(1) [of "(s1, c)" s1 c] evolve_trans [OF e] by (auto simp: evolve_def)
qed (simp add: evolve_refl)

section \<open>Reactions\<close>

definition reactedState :: "entropy \<Rightarrow> time \<Rightarrow> Reaction \<Rightarrow> Request \<Rightarrow> service \<Rightarrow> service" where
  "reactedState e now x r s =
     s\<lparr>requests := mput (ReqID r) (r\<lparr>ReqReaction := x\<rparr>) (requests s),
       ledger := ledger s @
         (if ResponderGuest r \<or> ResponderUserID r = [] \<or> rewardFor x = rewardFor (ReqReaction r) then []
          else [\<lparr>PtsID = newID ''pts'' e, PtsUserID = ResponderUserID r, PtsRequestID = ReqID r,
                 PtsKind = ''reaction_adjustment'',
                 Delta = rewardFor x - rewardFor (ReqReaction r), PtsCreatedAt = now\<rparr>])\<rparr>"

definition reactable :: "time \<Rightarrow> Session \<Rightarrow> Request \<Rightarrow> bool" where
  "reactable now ses r \<longleftrightarrow> isRequester ses r \<and> isTerminal (Status r) \<and>
     \<not> is_zero_time (CompletedAt r) \<and> time_sub now (CompletedAt r) \<le> 24 * 3600 * second"

lemma React_eq:
  "React e now now' token rid x s =
     (if x \<noteq> ReactionNone \<and> x \<noteq> ReactionLike \<and> x \<noteq> ReactionDislike then fail s ErrInvalidReaction
      else case mget (sessionsByTok s) token of
        None \<Rightarrow> fail s ErrUnauthorized
      | Some ses \<Rightarrow>
          (case mget (requests s) rid of
             None \<Rightarrow> fail s ErrRequestNotFound
           | Some r \<Rightarrow>
               if \<not> reactable now ses r then fail s ErrReactionNotAllowed
               else ok (reactedState e now' x r s)
                 (if Guest ses then zeroBalance
                  else balanceLocked (reactedState e now' x r s)
                    (if ResponderGuest r \<or> ResponderUserID r = [] then SesUserID ses
                     else ResponderUserID r))))"
  by (simp add: React_def reactable_def reactedState_def put_req_def addLedgerLocked_def Let_def
      not_le split: option.split)

lemma evolve_reacted:
  assumes inv: "svc_inv s" and r: "mget (requests s) rid = Some r" and ok: "reactable now ses r"
  shows "evolve s (reactedState e now' x r s)"
proof -
  note wf = svc_invD(1) [OF inv]
  note rf = request_facts [OF wf r]
  let ?s = "reactedState e now' x r s" and ?r = "r\<lparr>ReqReaction := x\<rparr>"
  have st: "done_status (Status r)"
    using rf(3) ok by (cases "Status r") (simp_all add: req_inv_def reactable_def status_defs)
  have q: "rid \<notin> set (queue s)" "distinct (queue s)"
    using wf r st by (auto simp: wf_service_def inv_queue_def status_defs)
  have act: "mget (activeByRes s) sid \<noteq> Some rid" for sid
    using active_none [OF wf r] st by (auto simp: status_defs)
  have "replaces s rid ?r ?s"
    using q act st rf(1) by (auto simp: replaces_def reactedState_def status_defs)
  moreover have "inv_available ?s"
    by (rule inv_available_shrink [of s])
      (use wf in \<open>simp_all add: wf_service_def inv_available_def reactedState_def\<close>)
  moreover have "inv_chans ?s" using wf by (simp add: wf_service_def inv_chans_def reactedState_def)
  moreover have "req_inv (mget0 (fragments s) rid) ?r"
    using rf(3) st by (cases "Status r") (simp_all add: req_inv_def status_defs)
  moreover have "match_inv ?r" using rf(4) by (simp add: match_inv_def)
  ultimately have wf': "wf_service ?s"
    using wf_replace [OF wf _ _ rf(2)] rf(1) by simp
  show ?thesis
    by (intro evolve_replace [where r' = ?r, OF svc_invD(1,2) [OF inv] _ wf' r])
      (use svc_invD(3) [OF inv] rf(1) st in \<open>auto simp: reactedState_def earned_def req_le_def
        same_question_def same_responder_def can_become_def status_defs has_room_def\<close>)
qed

lemma React_evolve:
  assumes inv: "svc_inv s"
  shows "\<exists>s' x. React e now now' token rid reaction s = Some (s', x) \<and> evolve s s'"
  using evolve_refl [OF inv] evolve_reacted [OF inv]
  by (simp add: React_eq split: option.split)

section \<open>Streams\<close>

text \<open>The buffer a new subscriber starts with: the answer so far, and the end if it has ended.\<close>

definition backlog :: "service \<Rightarrow> Request \<Rightarrow> StreamEvent gochan" where
  "backlog s r = \<lparr>cbuf =
      (if answerTextLocked s (ReqID r) = [] then []
       else [StreamEventFragment (ReqID r) (answerTextLocked s (ReqID r))]) @
      (if isTerminal (Status r) then [StreamEventDone (ReqID r) (ReqFinish r)] else []),
      ccap = 64, cclosed = False\<rparr>"

lemma Subscribe_eq:
  assumes "mget (requests s) rid = Some r" and "ReqID r = rid"
  shows "Subscribe rid s = ok (s\<lparr>streamChans := streamChans s @ [backlog s r],
      subscribers := mput rid (mget0 (subscribers s) rid @ [length (streamChans s)]) (subscribers s)\<rparr>)
      (length (streamChans s))"
  using assms
  by (cases "answerTextLocked s rid = []"; cases "isTerminal (Status r)")
    (simp_all add: Subscribe_def send_def make_chan_def Let_def backlog_def)

lemma Subscribe_evolve:
  assumes inv: "svc_inv s"
  shows "\<exists>s' x. Subscribe rid s = Some (s', x) \<and> evolve s s'"
proof (cases "mget (requests s) rid")
  case (Some r)
  note wf = svc_invD(1) [OF inv]
  let ?c = "backlog s r"
  let ?s = "s\<lparr>streamChans := streamChans s @ [?c],
      subscribers := mput rid (mget0 (subscribers s) rid @ [length (streamChans s)]) (subscribers s)\<rparr>"
  have op: "\<not> cclosed ?c" by (simp add: backlog_def)
  have lt: "ch < length (streamChans s)" if "ch \<in> set (mget0 (subscribers s) x)" for ch x
    using wf that by (auto simp: wf_service_def inv_chans_def chan_open_def)
  have "inv_chans ?s"
    using wf op lt by (fastforce simp: wf_service_def inv_chans_def chan_open_append)
  then have "wf_service ?s"
    using wf by (simp add: wf_service_def inv_requests_def inv_queue_def inv_active_def
        inv_available_def inv_sessions_def inv_fragments_def)
  then have "evolve s ?s" by (rule evolve_frame [OF inv]) simp_all
  then show ?thesis using Subscribe_eq [OF Some request_facts(1) [OF wf Some]] by blast
qed (use inv in \<open>simp add: Subscribe_def evolve_refl\<close>)

lemma unsubscribe_evolve:
  assumes inv: "svc_inv s" and ch: "ch \<in> set (mget0 (subscribers s) rid)"
  shows "\<exists>s'. unsubscribe rid ch s = Some s' \<and> evolve s s'"
proof -
  note wf = svc_invD(1) [OF inv]
  obtain chs where chs: "mget (subscribers s) rid = Some chs" "ch \<in> set chs"
    using ch by (cases "mget (subscribers s) rid") (auto simp: mget0_def)
  have op: "chan_open (streamChans s) ch" using wf ch by (auto simp: wf_service_def inv_chans_def)
  have uniq: "x = rid" if "ch \<in> set (mget0 (subscribers s) x)" for x
    using wf ch that unfolding wf_service_def inv_chans_def by blast
  let ?s = "s\<lparr>subscribers := mput rid (filter (\<lambda>c. c \<noteq> ch) chs) (subscribers s),
      streamChans := (streamChans s)[ch := (streamChans s ! ch)\<lparr>cclosed := True\<rparr>]\<rparr>"
  have eq: "unsubscribe rid ch s = Some ?s"
    using chs op by (simp add: unsubscribe_def heap_get_def chan_open_def close_chan_def)
  have sub: "set (mget0 (subscribers ?s) x) \<subseteq> set (mget0 (subscribers s) x) - {ch}" for x
    using chs uniq by (auto simp: mget0_def)
  have "inv_chans ?s"
    unfolding inv_chans_def
  proof (intro conjI allI ballI impI)
    fix x a assume "a \<in> set (mget0 (subscribers ?s) x)"
    then have "a \<noteq> ch" "chan_open (streamChans s) a"
      using sub [of x] wf by (auto simp: wf_service_def inv_chans_def)
    then show "chan_open (streamChans ?s) a" by (auto simp: chan_open_update chan_open_def)
  next
    fix x y a assume "a \<in> set (mget0 (subscribers ?s) x)" "a \<in> set (mget0 (subscribers ?s) y)"
    then have "a \<in> set (mget0 (subscribers s) x)" "a \<in> set (mget0 (subscribers s) y)"
      using sub by blast+
    then show "x = y" using wf unfolding wf_service_def inv_chans_def by blast
  qed (use wf in \<open>auto simp: wf_service_def inv_chans_def\<close>)
  then have "wf_service ?s"
    using wf by (simp add: wf_service_def inv_requests_def inv_queue_def inv_active_def
        inv_available_def inv_sessions_def inv_fragments_def)
  then have "evolve s ?s" by (rule evolve_frame [OF inv]) simp_all
  then show ?thesis using eq by blast
qed

end
