(* ===== verification/Conversations.thy ===== *)
theory Conversations
  imports CoreAnswers
begin

text \<open>
  Saved conversations (\<open>internal/core/conversations.go\<close>): create, list, read, rename, archive,
  delete, append. A conversation belongs to an account or to one guest session; every operation
  resolves the caller's token and checks the ownership first.
\<close>

section \<open>Operations\<close>

definition defaultTitle :: string where
  "defaultTitle = [CHR 0xE6, CHR 0x96, CHR 0xB0, CHR 0xE5, CHR 0xAF, CHR 0xB9, CHR 0xE8, CHR 0xAF, CHR 0x9D]"

definition NormalizeTitle :: "string \<Rightarrow> string" where
  "NormalizeTitle title0 =
     (let title = TrimSpace title0 in
      if title = [] then defaultTitle
      else if length (runes title) > 80 then string_of_runes (take 80 (runes title))
      else title)"

definition ownsConversationLocked :: "Session \<Rightarrow> Conversation option \<Rightarrow> bool" where
  "ownsConversationLocked sess c =
     (case c of
        None \<Rightarrow> False
      | Some c \<Rightarrow>
          if Guest sess then GuestSessionID c = SesID sess
          else OwnerUserID c \<noteq> [] \<and> OwnerUserID c = SesUserID sess)"

definition CreateConversation ::
  "entropy \<Rightarrow> time \<Rightarrow> string \<Rightarrow> string \<Rightarrow> service \<Rightarrow> service \<times> (error + Conversation)"
where
  "CreateConversation e now token title s =
     (case mget (sessionsByTok s) token of
        None \<Rightarrow> (s, Inl ErrUnauthorized)
      | Some sess \<Rightarrow>
          (let c = \<lparr>CnvID = newID ''cnv'' e,
                 OwnerUserID = (if Guest sess then [] else SesUserID sess),
                 GuestSessionID = (if Guest sess then SesID sess else []),
                 Title = NormalizeTitle title, Archived = False,
                 CnvCreatedAt = now, CnvUpdatedAt = now\<rparr>
           in (s\<lparr>conversations := mput (CnvID c) c (conversations s)\<rparr>, Inr c)))"

text \<open>\<open>ord\<close> is the order in which the loop ranges over the map.\<close>

definition ListConversations :: "string list \<Rightarrow> string \<Rightarrow> service \<Rightarrow> error + Conversation list" where
  "ListConversations ord token s =
     (case mget (sessionsByTok s) token of
        None \<Rightarrow> Inl ErrUnauthorized
      | Some sess \<Rightarrow>
          Inr (sort_key (\<lambda>c. - CnvUpdatedAt c)
                (filter (\<lambda>c. ownsConversationLocked sess (Some c))
                  (List.map_filter (mget (conversations s)) ord))))"

definition GetConversation ::
  "string \<Rightarrow> string \<Rightarrow> service \<Rightarrow> error + (Conversation \<times> ConversationMessage list)"
where
  "GetConversation token cid s =
     (case mget (sessionsByTok s) token of
        None \<Rightarrow> Inl ErrUnauthorized
      | Some sess \<Rightarrow>
          if \<not> ownsConversationLocked sess (mget (conversations s) cid)
          then Inl ErrConversationNotFound
          else Inr (the (mget (conversations s) cid), mget0 (convMessages s) cid))"

definition RenameConversation ::
  "time \<Rightarrow> string \<Rightarrow> string \<Rightarrow> string \<Rightarrow> service \<Rightarrow> service \<times> error option"
where
  "RenameConversation now token cid title s =
     (case mget (sessionsByTok s) token of
        None \<Rightarrow> (s, Some ErrUnauthorized)
      | Some sess \<Rightarrow>
          if \<not> ownsConversationLocked sess (mget (conversations s) cid)
          then (s, Some ErrConversationNotFound)
          else (s\<lparr>conversations := mput cid ((the (mget (conversations s) cid))
                   \<lparr>Title := NormalizeTitle title, CnvUpdatedAt := now\<rparr>) (conversations s)\<rparr>, None))"

definition SetConversationArchived ::
  "time \<Rightarrow> string \<Rightarrow> string \<Rightarrow> bool \<Rightarrow> service \<Rightarrow> service \<times> error option"
where
  "SetConversationArchived now token cid archived s =
     (case mget (sessionsByTok s) token of
        None \<Rightarrow> (s, Some ErrUnauthorized)
      | Some sess \<Rightarrow>
          if \<not> ownsConversationLocked sess (mget (conversations s) cid)
          then (s, Some ErrConversationNotFound)
          else (s\<lparr>conversations := mput cid ((the (mget (conversations s) cid))
                   \<lparr>Archived := archived, CnvUpdatedAt := now\<rparr>) (conversations s)\<rparr>, None))"

definition DeleteConversation ::
  "string \<Rightarrow> string \<Rightarrow> service \<Rightarrow> service \<times> error option"
where
  "DeleteConversation token cid s =
     (case mget (sessionsByTok s) token of
        None \<Rightarrow> (s, Some ErrUnauthorized)
      | Some sess \<Rightarrow>
          if \<not> ownsConversationLocked sess (mget (conversations s) cid)
          then (s, Some ErrConversationNotFound)
          else (s\<lparr>conversations := mdel cid (conversations s),
                  convMessages := mdel cid (convMessages s)\<rparr>, None))"

definition AppendConversationMessage ::
  "entropy \<Rightarrow> time \<Rightarrow> string \<Rightarrow> string \<Rightarrow> string \<Rightarrow> string \<Rightarrow> string \<Rightarrow> string \<Rightarrow> service
   \<Rightarrow> service \<times> (error + ConversationMessage)"
where
  "AppendConversationMessage e now token conversationID role content sourceKind requestID s =
     (case mget (sessionsByTok s) token of
        None \<Rightarrow> (s, Inl ErrUnauthorized)
      | Some sess \<Rightarrow>
          if \<not> ownsConversationLocked sess (mget (conversations s) conversationID)
          then (s, Inl ErrConversationNotFound)
          else
            let msg = \<lparr>MsgID = newID ''msg'' e,
                  Seq = length (mget0 (convMessages s) conversationID) + 1, MsgRole = role,
                  MsgContent = content, SourceKind = sourceKind, MsgRequestID = requestID,
                  MsgCreatedAt = now\<rparr>
            in (s\<lparr>convMessages := mput conversationID
                     (mget0 (convMessages s) conversationID @ [msg]) (convMessages s),
                  conversations := mput conversationID
                     ((the (mget (conversations s) conversationID))\<lparr>CnvUpdatedAt := now\<rparr>)
                     (conversations s)\<rparr>, Inr msg))"

section \<open>The conversation store\<close>

definition conv_ok :: "string \<Rightarrow> Conversation \<Rightarrow> bool" where
  "conv_ok cid c \<longleftrightarrow> CnvID c = cid \<and> Title c \<noteq> [] \<and> RuneCountInString (Title c) \<le> 80 \<and>
     (OwnerUserID c = [] \<longleftrightarrow> GuestSessionID c \<noteq> [])"

definition numbered :: "ConversationMessage list \<Rightarrow> bool" where
  "numbered ms \<longleftrightarrow> map Seq ms = [1..<length ms + 1]"

definition conv_inv :: "service \<Rightarrow> bool" where
  "conv_inv s \<longleftrightarrow>
     (\<forall>cid c. mget (conversations s) cid = Some c \<longrightarrow> conv_ok cid c) \<and>
     (\<forall>cid. mget0 (convMessages s) cid \<noteq> [] \<longrightarrow> mget (conversations s) cid \<noteq> None) \<and>
     (\<forall>cid. numbered (mget0 (convMessages s) cid))"

lemma numbered_simps [simp]:
  "numbered []" "Seq m = Suc (length ms) \<Longrightarrow> numbered (ms @ [m]) \<longleftrightarrow> numbered ms"
  by (simp_all add: numbered_def)

lemma NormalizeTitle_ok: "NormalizeTitle title \<noteq> []" "RuneCountInString (NormalizeTitle title) \<le> 80"
proof -
  let ?t = "TrimSpace title"
  have "encode_rune r \<noteq> []" for r using encode_rune_valid_seq [of r] by auto
  then have ne: "string_of_runes (take 80 (runes ?t)) \<noteq> []" if "length (runes ?t) > 80"
    using that by (cases "runes ?t") (auto simp: string_of_runes_def)
  then show "NormalizeTitle title \<noteq> []"
    by (auto simp: NormalizeTitle_def Let_def defaultTitle_def)
  have "RuneCountInString defaultTitle \<le> length defaultTitle" by (rule RuneCount_le_length)
  then show "RuneCountInString (NormalizeTitle title) \<le> 80"
    by (auto simp: NormalizeTitle_def Let_def defaultTitle_def length_runes)
qed

text \<open>Every operation that changes the store, as one relation.\<close>

inductive conv_step :: "service \<Rightarrow> service \<Rightarrow> bool" where
  create: "mget (conversations s) (newID ''cnv'' e) = None \<Longrightarrow>
     conv_step s (fst (CreateConversation e now tok title s))"
| rename: "conv_step s (fst (RenameConversation now tok cid title s))"
| archive: "conv_step s (fst (SetConversationArchived now tok cid b s))"
| delete: "conv_step s (fst (DeleteConversation tok cid s))"
| append: "conv_step s (fst (AppendConversationMessage e now tok cid role content kind rid s))"

lemmas conv_op_defs = CreateConversation_def RenameConversation_def SetConversationArchived_def
  DeleteConversation_def AppendConversationMessage_def

lemma conv_inv_update:
  assumes "conv_inv s" and "mget (conversations s) cid = Some c" and "conv_ok cid c'"
  shows "conv_inv (s\<lparr>conversations := mput cid c' (conversations s)\<rparr>)"
  using assms by (auto simp: conv_inv_def)

lemma session_owner:
  assumes "inv_sessions s" and "mget (sessionsByTok s) tok = Some sess"
  shows "SesID sess \<noteq> []" and "Guest sess \<longleftrightarrow> SesUserID sess = []"
  using assms session_id_facts(1) by (auto simp: inv_sessions_def)

lemma owns_Some: "ownsConversationLocked sess x \<Longrightarrow> \<exists>c. x = Some c"
  by (auto simp: ownsConversationLocked_def split: option.splits)

lemma conv_inv_create:
  assumes "conv_inv s" and "inv_sessions s"
  shows "conv_inv (fst (CreateConversation e now tok title s))"
proof (cases "mget (sessionsByTok s) tok")
  case (Some sess)
  then show ?thesis
    using assms session_owner [OF assms(2) Some] NormalizeTitle_ok [of title]
    by (auto simp: CreateConversation_def Let_def conv_inv_def conv_ok_def)
qed (use assms in \<open>simp add: CreateConversation_def\<close>)

lemma conv_inv_append:
  assumes inv: "conv_inv s"
  shows "conv_inv (fst (AppendConversationMessage e now tok cid role content kind rid s))"
proof (cases "mget (sessionsByTok s) tok")
  case (Some sess)
  show ?thesis
  proof (cases "ownsConversationLocked sess (mget (conversations s) cid)")
    case True
    then obtain c where c: "mget (conversations s) cid = Some c" using owns_Some by blast
    then have "conv_ok cid c" using inv by (simp add: conv_inv_def)
    then show ?thesis using inv Some True c
      by (auto simp: AppendConversationMessage_def Let_def conv_inv_def conv_ok_def)
  qed (use Some inv in \<open>simp add: AppendConversationMessage_def\<close>)
qed (use inv in \<open>simp add: AppendConversationMessage_def\<close>)

lemma conv_inv_edit:
  assumes inv: "conv_inv s"
  shows "conv_inv (fst (RenameConversation now tok cid title s))"
    and "conv_inv (fst (SetConversationArchived now tok cid b s))"
    and "conv_inv (fst (DeleteConversation tok cid s))"
proof -
  have "conv_inv (fst (RenameConversation now tok cid title s)) \<and>
    conv_inv (fst (SetConversationArchived now tok cid b s)) \<and>
    conv_inv (fst (DeleteConversation tok cid s))"
  proof (cases "\<exists>sess c. mget (sessionsByTok s) tok = Some sess \<and> mget (conversations s) cid = Some c \<and>
      ownsConversationLocked sess (Some c)")
    case True
    then obtain sess c where *: "mget (sessionsByTok s) tok = Some sess"
      "mget (conversations s) cid = Some c" "ownsConversationLocked sess (Some c)" by blast
    then have "conv_ok cid c" using inv by (simp add: conv_inv_def)
    then show ?thesis
      using inv * conv_inv_update [OF inv *(2)] NormalizeTitle_ok [of title]
      by (simp add: RenameConversation_def SetConversationArchived_def DeleteConversation_def
          conv_ok_def) (simp add: conv_inv_def)
  next
    case False
    then have "\<not> ownsConversationLocked sess (mget (conversations s) cid)"
      if "mget (sessionsByTok s) tok = Some sess" for sess
      using that owns_Some by metis
    then show ?thesis using inv
      by (simp add: RenameConversation_def SetConversationArchived_def DeleteConversation_def
          split: option.split)
  qed
  then show "conv_inv (fst (RenameConversation now tok cid title s))"
    and "conv_inv (fst (SetConversationArchived now tok cid b s))"
    and "conv_inv (fst (DeleteConversation tok cid s))" by blast+
qed

lemma conv_step_inv:
  assumes "conv_step s s'" and "conv_inv s" and "inv_sessions s"
  shows "conv_inv s'"
  using assms by (cases rule: conv_step.cases)
    (simp_all add: conv_inv_create conv_inv_append conv_inv_edit)

text \<open>The conversation operations touch nothing but the two conversation maps.\<close>

lemma conv_step_frame:
  assumes "conv_step s s'"
  shows "\<exists>c m. s' = s\<lparr>conversations := c, convMessages := m\<rparr>"
proof -
  have self: "\<exists>c m. s = s\<lparr>conversations := c, convMessages := m\<rparr>"
    by (rule exI [of _ "conversations s"], rule exI [of _ "convMessages s"]) simp
  have one: "\<exists>c' m. s\<lparr>conversations := c\<rparr> = s\<lparr>conversations := c', convMessages := m\<rparr>" for c
    by (rule exI [of _ c], rule exI [of _ "convMessages s"]) simp
  have swap: "s\<lparr>convMessages := m, conversations := c\<rparr> = s\<lparr>conversations := c, convMessages := m\<rparr>" for c m
    by simp
  show ?thesis using assms
    by (cases rule: conv_step.cases)
      (use self one in \<open>auto simp: conv_op_defs Let_def swap split: option.split\<close>)
qed

lemma conv_step_evolve:
  assumes inv: "svc_inv s" and "conv_step s s'"
  shows "evolve s s'"
proof -
  obtain c m where s': "s' = s\<lparr>conversations := c, convMessages := m\<rparr>"
    using conv_step_frame [OF assms(2)] by blast
  have "sessionByIDLocked s' = sessionByIDLocked s" by (rule sessionById_cong) (simp add: s')
  then have "wf_service s'"
    using svc_invD(1) [OF inv] by (simp add: s' wf_service_def inv_defs)
  then show ?thesis by (rule evolve_frame [OF inv]) (simp_all add: s')
qed

end
