(* ===== verification/CoreTrans.thy ===== *)
theory CoreTrans
  imports Conversations
begin

text \<open>
  The service as a transition system: one rule per exported method that can change the state,
  over the interleavings the mutex allows (a method is one atomic step), and one for a consumer
  that takes the next value out of a stream or assignment channel. The interface of a
  transition system with an invariant and a history relation is a locale; its interpretation on
  \<open>svc_step\<close> discharges the laws with the lemmas of \<open>CoreSafety\<close>, \<open>CoreAnswers\<close> and
  \<open>Conversations\<close>.
\<close>

section \<open>Transition systems\<close>

locale transition_system =
  fixes init :: "'s \<Rightarrow> bool"
    and step :: "'s \<Rightarrow> 's \<Rightarrow> bool"
    and inv :: "'s \<Rightarrow> bool"
    and hist :: "'s \<Rightarrow> 's \<Rightarrow> bool"
  assumes init_inv: "init s \<Longrightarrow> inv s"
    and step_inv: "inv s \<Longrightarrow> step s s' \<Longrightarrow> inv s'"
    and step_hist: "inv s \<Longrightarrow> step s s' \<Longrightarrow> hist s s'"
    and hist_refl: "hist s s"
    and hist_trans: "hist s t \<Longrightarrow> hist t u \<Longrightarrow> hist s u"
begin

lemma steps_inv: "step\<^sup>*\<^sup>* s s' \<Longrightarrow> inv s \<Longrightarrow> inv s'"
  by (induction rule: rtranclp_induct) (auto intro: step_inv)

lemma steps_hist:
  assumes "step\<^sup>*\<^sup>* s s'" and "inv s"
  shows "hist s s'"
  using assms
proof (induction rule: rtranclp_induct)
  case (step y z)
  then have "inv y" using steps_inv by blast
  then show ?case using step step_hist hist_trans by blast
qed (simp add: hist_refl)

lemma reachable_inv: "init i \<Longrightarrow> step\<^sup>*\<^sup>* i s \<Longrightarrow> inv s"
  using init_inv steps_inv by blast

lemma reachable_hist: "init i \<Longrightarrow> step\<^sup>*\<^sup>* i s \<Longrightarrow> step\<^sup>*\<^sup>* s s' \<Longrightarrow> hist s s'"
  using reachable_inv steps_hist by blast

end

section \<open>The steps of the service\<close>

inductive svc_step :: "service \<Rightarrow> service \<Rightarrow> bool" where
  register: "fresh_token (rnd 3) s \<Longrightarrow> mget (users s) (newID ''usr'' (rnd 0)) = None \<Longrightarrow>
     Register gen rnd now acc nick pw rep s = Some (s', x) \<Longrightarrow> svc_step s s'"
| login: "fresh_token (rnd 1) s \<Longrightarrow> Login cmp rnd now acc pw s = Some (s', x) \<Longrightarrow> svc_step s s'"
| guest: "fresh_token (rnd 1) s \<Longrightarrow> GuestSession rnd now nick s = Some (s', a) \<Longrightarrow> svc_step s s'"
| persona: "fresh_token (rnd 1) s \<Longrightarrow> PersonaSession rnd now nick s = Some (s', a) \<Longrightarrow> svc_step s s'"
| create: "fresh_request (rnd 0) s \<Longrightarrow>
     CreateRequest rnd now tok model msgs n allow s = Some (s', y) \<Longrightarrow> svc_step s s'"
| create_targeted: "fresh_request (rnd 0) s \<Longrightarrow>
     CreateTargetedRequest rnd now tok model msgs n pref s = Some (s', y) \<Longrightarrow> svc_step s s'"
| register_responder: "RegisterResponder tok s = Some (s', z) \<Longrightarrow> svc_step s s'"
| unregister_responder: "UnregisterResponder e now sid s = Some s' \<Longrightarrow> svc_step s s'"
| mark_available: "MarkResponderAvailable now sid accept s = Some (s', u) \<Longrightarrow> svc_step s s'"
| resume: "ResumeResponder now sid s = Some (s', u) \<Longrightarrow> svc_step s s'"
| acquire_fallback: "AcquireFallbackAssignment now rid s = (s', v) \<Longrightarrow> svc_step s s'"
| sweep: "SweepTimeouts ord rnd now ta ts s = Some (s', ids) \<Longrightarrow> svc_step s s'"
| submit: "SubmitFragment rnd now sid k text s = Some (s', w) \<Longrightarrow> svc_step s s'"
| finish: "Finish e now sid s = Some (s', u) \<Longrightarrow> svc_step s s'"
| skip: "Skip now now' sid s = Some (s', u) \<Longrightarrow> svc_step s s'"
| cancel: "CancelBeforeFirstFragment now rid s = Some (s', b) \<Longrightarrow> svc_step s s'"
| react: "React e now now' tok rid reaction s = Some (s', bal) \<Longrightarrow> svc_step s s'"
| subscribe: "Subscribe rid s = Some (s', ch) \<Longrightarrow> svc_step s s'"
| unsubscribe: "c \<in> set (mget0 (subscribers s) rid) \<Longrightarrow> CoreOps.unsubscribe rid c s = Some s' \<Longrightarrow>
     svc_step s s'"
| conversation: "conv_step s s' \<Longrightarrow> svc_step s s'"
| recv_event: "a < length (streamChans s) \<Longrightarrow> recv (streamChans s ! a) = Some (v, c) \<Longrightarrow>
     svc_step s (s\<lparr>streamChans := (streamChans s)[a := c]\<rparr>)"
| recv_assignment: "a < length (assignChans s) \<Longrightarrow> recv (assignChans s ! a) = Some (v, c) \<Longrightarrow>
     svc_step s (s\<lparr>assignChans := (assignChans s)[a := c]\<rparr>)"

lemma CreateRequest_evolve:
  "svc_inv s \<Longrightarrow> fresh_request (rnd 0) s \<Longrightarrow>
     \<exists>s' x. CreateRequest rnd now tok model msgs n allow s = Some (s', x) \<and> evolve s s'"
  using createRequest_evolve by (simp add: CreateRequest_def Let_def)

lemma CreateTargetedRequest_evolve:
  "svc_inv s \<Longrightarrow> fresh_request (rnd 0) s \<Longrightarrow>
     \<exists>s' x. CreateTargetedRequest rnd now tok model msgs n pref s = Some (s', x) \<and> evolve s s'"
  using createRequest_evolve by (simp add: CreateTargetedRequest_def evolve_refl)

lemma same_open_recv:
  "a < length h \<Longrightarrow> recv (h ! a) = Some (v, c) \<Longrightarrow> same_open h (h[a := c])"
  by (auto simp: same_open_def recv_def chan_open_def nth_list_update split: list.splits)

lemma wf_assignChans:
  "wf_service s \<Longrightarrow> same_open (assignChans s) h \<Longrightarrow> wf_service (s\<lparr>assignChans := h\<rparr>)"
  by (simp add: wf_service_def inv_defs same_open_def)

lemma evolve_recv:
  assumes inv: "svc_inv s"
  shows "same_open (streamChans s) h \<Longrightarrow> evolve s (s\<lparr>streamChans := h\<rparr>)"
    and "same_open (assignChans s) g \<Longrightarrow> evolve s (s\<lparr>assignChans := g\<rparr>)"
  by (rule evolve_frame [OF inv]; simp add: wf_streamChans wf_assignChans svc_invD(1) [OF inv])+

lemma svc_step_evolve:
  assumes st: "svc_step s s'" and inv: "svc_inv s"
  shows "evolve s s'"
  using st
proof cases
  case (register rnd gen now acc nick pw rep x)
  then show ?thesis using Register_evolve [OF inv, of rnd gen now acc nick pw rep] by auto
next
  case (login rnd cmp now acc pw x)
  then show ?thesis using Login_evolve [OF inv, of rnd cmp now acc pw] by auto
next
  case (guest rnd now nick a)
  then show ?thesis using GuestSession_evolve [OF inv, of rnd now nick] by auto
next
  case (persona rnd now nick a)
  then show ?thesis using PersonaSession_evolve [OF inv, of rnd now nick] by auto
next
  case (create rnd now tok model msgs n allow y)
  then show ?thesis using CreateRequest_evolve [OF inv, of rnd now tok model msgs n allow] by auto
next
  case (create_targeted rnd now tok model msgs n pref y)
  then show ?thesis
    using CreateTargetedRequest_evolve [OF inv, of rnd now tok model msgs n pref] by auto
next
  case (register_responder tok z)
  then show ?thesis using RegisterResponder_evolve [OF inv, of tok] by auto
next
  case (unregister_responder e now sid)
  then show ?thesis using UnregisterResponder_evolve [OF inv, of e now sid] by auto
next
  case (mark_available now sid accept u)
  then show ?thesis using MarkResponderAvailable_evolve [OF inv, of now sid accept] by auto
next
  case (resume now sid u)
  then show ?thesis using ResumeResponder_evolve [OF inv, of now sid] by auto
next
  case (acquire_fallback now rid v)
  then show ?thesis using AcquireFallback_evolve [OF inv, of now rid] by auto
next
  case (sweep ord rnd now ta ts ids)
  then show ?thesis using SweepTimeouts_evolve [OF inv, of ord rnd now ta ts] by auto
next
  case (submit rnd now sid k t w)
  then show ?thesis using SubmitFragment_evolve [OF inv, of rnd now sid k t] by auto
next
  case (finish e now sid u)
  then show ?thesis using Finish_evolve [OF inv, of e now sid] by auto
next
  case (skip now now' sid u)
  then show ?thesis using Skip_evolve [OF inv, of now now' sid] by auto
next
  case (cancel now rid b)
  then show ?thesis using Cancel_evolve [OF inv, of now rid] by auto
next
  case (react e now now' tok rid reaction bal)
  then show ?thesis using React_evolve [OF inv, of e now now' tok rid reaction] by auto
next
  case (subscribe rid ch)
  then show ?thesis using Subscribe_evolve [OF inv, of rid] by auto
next
  case (unsubscribe c rid)
  then show ?thesis using unsubscribe_evolve [OF inv unsubscribe(1)] by auto
next
  case conversation
  then show ?thesis using conv_step_evolve [OF inv] by blast
next
  case (recv_event a v c)
  then show ?thesis using evolve_recv(1) [OF inv same_open_recv] by simp
next
  case (recv_assignment a v c)
  then show ?thesis using evolve_recv(2) [OF inv same_open_recv] by simp
qed

interpretation svc: transition_system "\<lambda>s. s = NewService" svc_step svc_inv extends
proof
  fix s assume "s = NewService"
  then show "svc_inv s" by (simp add: svc_inv_NewService)
next
  fix s s' assume "svc_inv s" "svc_step s s'"
  then show "svc_inv s'" "extends s s'" using svc_step_evolve by (simp_all add: evolve_def)
qed (rule extends_refl, rule extends_trans)

definition reachable :: "service \<Rightarrow> bool" where
  "reachable s \<longleftrightarrow> svc_step\<^sup>*\<^sup>* NewService s"

lemma reachable_svc_inv: "reachable s \<Longrightarrow> svc_inv s"
  using svc.reachable_inv [OF refl] by (simp add: reachable_def)

lemma reachable_wf: "reachable s \<Longrightarrow> wf_service s"
  using reachable_svc_inv svc_invD(1) by blast

lemma reachable_extends: "reachable s \<Longrightarrow> svc_step\<^sup>*\<^sup>* s s' \<Longrightarrow> extends s s'"
  using svc.steps_hist reachable_svc_inv by blast

lemma reachable_NewService [simp]: "reachable NewService"
  by (simp add: reachable_def)

lemma reachable_step: "reachable s \<Longrightarrow> svc_step s s' \<Longrightarrow> reachable s'"
  by (simp add: reachable_def)

section \<open>The conversation store along the steps\<close>

text \<open>No operation but the conversation ones touches the two conversation maps.\<close>

definition keeps_convs :: "service \<Rightarrow> service \<Rightarrow> bool" where
  "keeps_convs s s' \<longleftrightarrow> conversations s' = conversations s \<and> convMessages s' = convMessages s"

named_theorems keeps \<open>operations that leave the conversations alone\<close>

lemma keeps_refl [keeps]: "keeps_convs s s"
  by (simp add: keeps_convs_def)

lemma keeps_trans: "keeps_convs a b \<Longrightarrow> keeps_convs b c \<Longrightarrow> keeps_convs a c"
  by (simp add: keeps_convs_def)

lemma keeps_publish [keeps]: "publishLocked ev s = Some s' \<Longrightarrow> keeps_convs s s'"
  by (auto simp: publishLocked_def keeps_convs_def split: Option.bind_splits)

lemma keeps_requeue [keeps]: "keeps_convs s (requeueLocked r now s)"
  by (simp add: keeps_convs_def requeueLocked_def Let_def put_req_def)

lemma keeps_abandon [keeps]: "abandonLocked r now s = Some s' \<Longrightarrow> keeps_convs s s'"
  unfolding abandonLocked_def by (drule keeps_publish)
    (simp add: keeps_convs_def abandonState_def Let_def service_defs)

lemma keeps_complete [keeps]: "completeLocked e r x now s = Some s' \<Longrightarrow> keeps_convs s s'"
  unfolding completeLocked_def
  by (auto simp: keeps_convs_def completeState_def Let_def service_defs dest!: keeps_publish
      split: if_splits)

lemma keeps_assignPair: "assignPair now q k s = Some s' \<Longrightarrow> keeps_convs s s'"
  by (auto simp: assignPair_def Let_def keeps_convs_def put_req_def requeueLocked_def
      split: Option.bind_splits if_splits)

lemma keeps_tryAssign [keeps]: "tryAssignLocked now s = Some s' \<Longrightarrow> keeps_convs s s'"
proof (induction now s rule: tryAssignLocked.induct)
  case (1 now s)
  show ?case
    using 1(2) keeps_trans [OF keeps_assignPair] 1(1)
    by (subst (asm) (1) tryAssignLocked.simps) (fastforce split: option.splits simp: keeps_refl)
qed

lemma keeps_createSession:
  "createSessionLocked e1 e2 uid guest nick kind now s = (s', x) \<Longrightarrow> keeps_convs s s'"
  by (auto simp: createSessionLocked_def Let_def keeps_convs_def)

lemma keeps_sessions:
  "Register gen rnd now acc nick pw rep s = Some (s', x) \<Longrightarrow> keeps_convs s s'"
  "Login cmp rnd now acc pw s = Some (s', x) \<Longrightarrow> keeps_convs s s'"
  "GuestSession rnd now nick s = Some (s', a) \<Longrightarrow> keeps_convs s s'"
  "PersonaSession rnd now nick s = Some (s', a) \<Longrightarrow> keeps_convs s s'"
  unfolding Register_def Login_def GuestSession_def PersonaSession_def createSessionLocked_def
    addLedgerLocked_def Let_def keeps_convs_def
  by (auto split: if_splits option.splits Option.bind_splits)

lemma keeps_create:
  assumes "createRequest rnd now tok model msgs n ai pref s = Some (s', x)"
  shows "keeps_convs s s'"
proof -
  have "keeps_convs s (enqueue r s)" for r
    by (simp add: keeps_convs_def enqueue_def put_req_def)
  from keeps_trans [OF this keeps_tryAssign] show ?thesis
    using assms
    by (auto simp: createRequest_eq Let_def keeps_refl split: if_splits option.splits Option.bind_splits)
qed

lemma keeps_unregister:
  assumes "UnregisterResponder e now sid s = Some s'" and "wf_service s"
  shows "keeps_convs s s'"
proof -
  have "keeps_convs s (leave sid s)"
    by (simp add: keeps_convs_def leave_def removeAvailableLocked_def)
  moreover have "keeps_convs (leave sid s) s'"
    using assms by (auto simp: Unregister_eq dropAssignment_def Let_def keeps
        split: if_splits option.splits)
  ultimately show ?thesis by (rule keeps_trans)
qed

lemma keeps_makeAvailable:
  assumes "makeAvailable now sid s = Some (s', x)"
  shows "keeps_convs s s'"
  using assms keeps_tryAssign
  by (fastforce simp: makeAvailable_def Let_def keeps_convs_def split: if_splits Option.bind_splits)

lemma keeps_responders:
  "RegisterResponder tok s = Some (s', z) \<Longrightarrow> keeps_convs s s'"
  "MarkResponderAvailable now sid accept s = Some (s', u) \<Longrightarrow> keeps_convs s s'"
  "ResumeResponder now sid s = Some (s', u) \<Longrightarrow> keeps_convs s s'"
  "AcquireFallbackAssignment now rid s = (s', v) \<Longrightarrow> keeps_convs s s'"
  using keeps_makeAvailable
  unfolding RegisterResponder_def MarkResponderAvailable_def ResumeResponder_def
    AcquireFallbackAssignment_def Let_def put_req_def removeQueuedRequestLocked_def
  by (fastforce simp: keeps_convs_def split: if_splits option.splits)+

lemma keeps_sweepLoop: "sweepLoop rnd now ta ts ord s = Some (s', ids) \<Longrightarrow> keeps_convs s s'"
proof (induction ord arbitrary: s s' ids)
  case (Cons rid ord)
  have "keeps_convs s t" if "sweepOne e now ta ts rid s = Some (t, c)" for e t c
    using that by (auto simp: sweepOne_def keeps split: if_splits option.splits Option.bind_splits)
  then show ?case using Cons keeps_trans by (fastforce split: Option.bind_splits)
qed (simp add: keeps_refl)

lemma keeps_sweep: "SweepTimeouts ord rnd now ta ts s = Some (s', ids) \<Longrightarrow> keeps_convs s s'"
  using keeps_sweepLoop keeps_trans [OF keeps_sweepLoop keeps_tryAssign]
  by (auto simp: SweepTimeouts_def split: Option.bind_splits if_splits)

lemma keeps_submit: "SubmitFragment rnd now sid k t s = Some (s', w) \<Longrightarrow> keeps_convs s s'"
proof -
  have c: "keeps_convs s (commitState e now r f s)" for e r f
    by (simp add: keeps_convs_def commitState_def Let_def)
  have "keeps_convs u u'" if "afterCommit e now r f u = Some (u', y)" for e r f u u' y
    using that keeps_publish keeps_complete keeps_trans
    by (fastforce simp: afterCommit_def split: Option.bind_splits if_splits)
  from keeps_trans [OF c this]
  show "SubmitFragment rnd now sid k t s = Some (s', w) \<Longrightarrow> keeps_convs s s'"
    by (auto simp: SubmitFragment_eq Let_def keeps_refl split: if_splits option.splits)
qed

lemma keeps_answers:
  "Finish e now sid s = Some (s', u) \<Longrightarrow> keeps_convs s s'"
  "Skip now now' sid s = Some (s', u) \<Longrightarrow> keeps_convs s s'"
  "CancelBeforeFirstFragment now rid s = Some (s', b) \<Longrightarrow> keeps_convs s s'"
  using keeps_trans [OF keeps_requeue keeps_tryAssign]
  by (auto simp: Finish_def Skip_def CancelBeforeFirstFragment_def Let_def keeps
      split: if_splits option.splits Option.bind_splits)

lemma keeps_streams:
  "React e now now' tok rid x s = Some (s', bal) \<Longrightarrow> keeps_convs s s'"
  "Subscribe rid s = Some (s', ch) \<Longrightarrow> keeps_convs s s'"
  "CoreOps.unsubscribe rid c s = Some s' \<Longrightarrow> keeps_convs s s'"
  by (auto simp: React_eq reactedState_def Subscribe_def unsubscribe_def Let_def keeps_convs_def
      split: if_splits option.splits Option.bind_splits)

lemma keeps_recv:
  "keeps_convs s (s\<lparr>streamChans := h\<rparr>)" "keeps_convs s (s\<lparr>assignChans := g\<rparr>)"
  by (simp_all add: keeps_convs_def)

lemma svc_step_convs:
  assumes "svc_step s s'" and "svc_inv s"
  shows "conv_step s s' \<or> keeps_convs s s'"
  using assms(1)
  by cases (use keeps_unregister [OF _ svc_invD(1) [OF assms(2)]] keeps_recv in
    \<open>auto simp: CreateRequest_def CreateTargetedRequest_def Let_def
      intro: keeps_sessions keeps_create keeps_responders keeps_sweep keeps_submit keeps_answers
        keeps_streams keeps_refl split: if_splits\<close>)

lemma conv_inv_NewService: "conv_inv NewService"
  by (simp add: conv_inv_def NewService_def)

lemma svc_step_conv_inv:
  assumes "svc_step s s'" and "svc_inv s" and "conv_inv s"
  shows "conv_inv s'"
proof -
  have "inv_sessions s" using svc_invD(1) [OF assms(2)] by (simp add: wf_service_def)
  then show ?thesis
    using svc_step_convs [OF assms(1,2)] conv_step_inv assms(3)
    by (auto simp: keeps_convs_def conv_inv_def)
qed

interpretation store: transition_system "\<lambda>s. s = NewService" svc_step
  "\<lambda>s. svc_inv s \<and> conv_inv s" extends
proof
  fix s assume "s = NewService"
  then show "svc_inv s \<and> conv_inv s" by (simp add: svc_inv_NewService conv_inv_NewService)
next
  fix s s' assume "svc_inv s \<and> conv_inv s" "svc_step s s'"
  then show "svc_inv s' \<and> conv_inv s'" "extends s s'"
    using svc.step_inv svc.step_hist svc_step_conv_inv by blast+
qed (rule extends_refl, rule extends_trans)

lemma reachable_conv_inv: "reachable s \<Longrightarrow> conv_inv s"
  using store.reachable_inv [OF refl] by (simp add: reachable_def)

end
