(* ===== verification/Scenario.thy ===== *)
theory Scenario
  imports CoreTrans
begin

text \<open>
  A short run of the service used to instantiate the properties: two accounts register, the
  second takes up answering, the first asks, the answer streams in, ends and is liked. The
  states \<open>demo0\<close>, \<open>demo1\<close>, ... are the ones after each call; every one is reachable.
\<close>

definition after :: "(service \<times> 'a) option \<Rightarrow> service" where
  "after x = fst (the x)"

definition ent :: "char \<Rightarrow> nat \<Rightarrow> entropy" where "ent c n = Entropy [c]"

definition demo1 :: service where
  "demo1 = after (Register Some (ent CHR ''a'') 100 ''ann'' ''Ann'' ''pw'' ''pw'' NewService)"

definition demo2 :: service where
  "demo2 = after (Register Some (ent CHR ''b'') 200 ''bob'' ''Bob'' ''pw'' ''pw'' demo1)"

definition annTok :: string where "annTok = newID ''tok'' (ent CHR ''a'' 3)"
definition bobTok :: string where "bobTok = newID ''tok'' (ent CHR ''b'' 3)"
definition bobSes :: string where "bobSes = newID ''ses'' (ent CHR ''b'' 2)"
definition reqA :: string where "reqA = newID ''req'' (ent CHR ''q'' 0)"

definition demo3 :: service where
  "demo3 = after (RegisterResponder bobTok demo2)"

definition question :: "Message list" where
  "question = [\<lparr>Role = ''user'', Content = ''why?''\<rparr>]"

definition demo4 :: service where
  "demo4 = after (CreateRequest (ent CHR ''q'') 300 annTok ''m'' question 0 [] demo3)"

definition demo5 :: service where
  "demo5 = after (MarkResponderAvailable 400 bobSes [] demo4)"

definition demo6 :: service where
  "demo6 = after (SubmitFragment (ent CHR ''f'') 500 bobSes 1 ''because'' demo5)"

definition demo7 :: service where
  "demo7 = after (Finish (ent CHR ''e'' 0) 600 bobSes demo6)"

definition demo8 :: service where
  "demo8 = after (React (ent CHR ''r'' 0) 700 700 annTok reqA ReactionLike demo7)"

lemmas demo_defs = demo1_def demo2_def demo3_def demo4_def demo5_def demo6_def demo7_def demo8_def

section \<open>Every state of the run is reachable\<close>

lemma outcome_ok: "(case x of Some (_, Inr v) \<Rightarrow> P v | _ \<Rightarrow> False) \<Longrightarrow> \<exists>v. x = ok (after x) v \<and> P v"
  by (auto simp: after_def split: option.splits prod.splits sum.splits)

lemma after_step:
  assumes "reachable s" and "\<exists>s' x. op = Some (s', x) \<and> evolve s s'"
    and "\<And>s' x. op = Some (s', x) \<Longrightarrow> svc_step s s'"
  shows "reachable (after op)"
  using assms reachable_step by (auto simp: after_def)

lemma reachable_demo1: "reachable demo1"
  unfolding demo1_def
  by (rule after_step [OF reachable_NewService Register_evolve svc_step.register])
    (use svc_inv_NewService in \<open>simp_all add: fresh_token_def NewService_def\<close>)

lemma demo_fresh:
  "fresh_token (ent CHR ''b'' 3) demo1" "mget (users demo1) (newID ''usr'' (ent CHR ''b'' 0)) = None"
  "fresh_request (ent CHR ''q'' 0) demo3"
  by code_simp+

lemma reachable_demo2: "reachable demo2"
  unfolding demo2_def
  by (rule after_step [OF reachable_demo1 Register_evolve svc_step.register])
    (use demo_fresh reachable_svc_inv [OF reachable_demo1] in simp_all)

lemma reachable_demo3: "reachable demo3"
  unfolding demo3_def
  by (rule after_step [OF reachable_demo2 RegisterResponder_evolve svc_step.register_responder])
    (use reachable_svc_inv [OF reachable_demo2] in simp_all)

lemma reachable_demo4: "reachable demo4"
  unfolding demo4_def
  by (rule after_step [OF reachable_demo3 CreateRequest_evolve svc_step.create])
    (use demo_fresh reachable_svc_inv [OF reachable_demo3] in simp_all)

lemma reachable_demo5: "reachable demo5"
  unfolding demo5_def
  by (rule after_step [OF reachable_demo4 MarkResponderAvailable_evolve svc_step.mark_available])
    (use reachable_svc_inv [OF reachable_demo4] in simp_all)

lemma reachable_demo6: "reachable demo6"
  unfolding demo6_def
  by (rule after_step [OF reachable_demo5 SubmitFragment_evolve svc_step.submit])
    (use reachable_svc_inv [OF reachable_demo5] in simp_all)

lemma reachable_demo7: "reachable demo7"
  unfolding demo7_def
  by (rule after_step [OF reachable_demo6 Finish_evolve svc_step.finish])
    (use reachable_svc_inv [OF reachable_demo6] in simp_all)

lemma reachable_demo8: "reachable demo8"
  unfolding demo8_def
  by (rule after_step [OF reachable_demo7 React_evolve svc_step.react])
    (use reachable_svc_inv [OF reachable_demo7] in simp_all)

text \<open>The same question, to be answered in at most three characters, and its responder.\<close>

definition demoShort :: service where
  "demoShort = after (CreateRequest (ent CHR ''q'') 300 annTok ''m'' question 3 [] demo3)"

lemma reachable_demoShort: "reachable demoShort"
  unfolding demoShort_def
  by (rule after_step [OF reachable_demo3 CreateRequest_evolve svc_step.create])
    (use demo_fresh reachable_svc_inv [OF reachable_demo3] in simp_all)

definition demoHeld :: service where
  "demoHeld = after (MarkResponderAvailable 400 bobSes [] demoShort)"

lemma reachable_demoHeld: "reachable demoHeld"
  unfolding demoHeld_def
  by (rule after_step [OF reachable_demoShort MarkResponderAvailable_evolve svc_step.mark_available])
    (use reachable_svc_inv [OF reachable_demoShort] in simp_all)

lemmas reachable_demo = reachable_demo1 reachable_demo2 reachable_demo3 reachable_demo4
  reachable_demo5 reachable_demo6 reachable_demo7 reachable_demo8

end
