(* ===== verification/CoreFrames.thy ===== *)
theory CoreFrames
  imports CoreTrans
begin

text \<open>
  What the operations leave alone: publishing changes stream buffers only, the assignment loop
  moves requests between the two states in which their points are held and changes no balance,
  completing and abandoning touch one request.
\<close>

section \<open>Publishing, completing, abandoning\<close>

lemma publish_only: "publishLocked ev s = Some s' \<Longrightarrow> \<exists>h. s' = s\<lparr>streamChans := h\<rparr>"
  by (auto simp: publishLocked_def split: Option.bind_splits)

lemma afterCommit_fields:
  assumes "afterCommit e now r f u = Some (s', x)"
  shows "x = Inr (f, False)" and "fragments s' = fragments u" and "seqSeen s' = seqSeen u"
    and "activeByRes s' = activeByRes u \<or>
      activeByRes s' = mdel (ResponderSessionID r) (activeByRes u)"
  using assms
  by (auto simp: afterCommit_def completeLocked_def completeState_def Let_def service_defs
      chargedRequest_def isTerminal_def dest!: publish_only split: Option.bind_splits if_splits)

section \<open>The assignment loop\<close>

definition touch :: "time \<Rightarrow> Request \<Rightarrow> Request \<Rightarrow> bool" where
  "touch now r r' \<longleftrightarrow> r' = r \<or> (held_status (Status r) \<and> held_status (Status r') \<and>
     UpdatedAt r' = now \<and> FrozenPoints r' = FrozenPoints r \<and> RequesterID r' = RequesterID r)"

definition touched :: "time \<Rightarrow> service \<Rightarrow> service \<Rightarrow> bool" where
  "touched now s t \<longleftrightarrow> ledger t = ledger s \<and> fragments t = fragments s \<and>
     (\<forall>rid. rel_option (touch now) (mget (requests s) rid) (mget (requests t) rid)) \<and>
     (\<forall>uid. msum (heldOf uid) (requests t) = msum (heldOf uid) (requests s))"

lemma touchI:
  "held_status (Status r) \<Longrightarrow> held_status (Status r') \<Longrightarrow> UpdatedAt r' = now \<Longrightarrow>
   FrozenPoints r' = FrozenPoints r \<Longrightarrow> RequesterID r' = RequesterID r \<Longrightarrow> touch now r r'"
  by (simp add: touch_def)

lemma touch_trans: "touch now a b \<Longrightarrow> touch now b c \<Longrightarrow> touch now a c"
  unfolding touch_def by metis

lemma touch_option_trans:
  "rel_option (touch now) x y \<Longrightarrow> rel_option (touch now) y z \<Longrightarrow> rel_option (touch now) x z"
  by (cases x; cases y; cases z) (auto intro: touch_trans)

lemma touched_refl: "touched now s s"
  by (simp add: touched_def touch_def option.rel_refl)

lemma touched_trans: "touched now a b \<Longrightarrow> touched now b c \<Longrightarrow> touched now a c"
  unfolding touched_def using touch_option_trans by metis

lemma heldOf_touch: "touch now r r' \<Longrightarrow> heldOf uid r' = heldOf uid r"
  by (auto simp: touch_def heldOf_def status_defs)

lemma touched_replace:
  assumes "mwf (requests s)" and "mget (requests s) rid = Some r"
    and "requests t = mput rid r' (requests s)" and "ledger t = ledger s"
    and "fragments t = fragments s" and "touch now r r'"
  shows "touched now s t"
  using assms heldOf_touch [OF assms(6)]
  by (auto simp: touched_def msum_mput_old rel_option_iff touch_def split: option.splits)

lemma mwf_requests: "wf_service s \<Longrightarrow> mwf (requests s)"
  by (simp add: wf_service_def inv_requests_def)

lemma touched_requeue:
  assumes "wf_service s" and "mget (requests s) rid = Some r" and "Status r = StatusAssigned"
  shows "touched now s (requeueLocked r now s)"
  by (rule touched_replace [OF mwf_requests [OF assms(1)] assms(2)])
    (use assms request_facts(1) [OF assms(1,2)] in \<open>simp_all add: requeueLocked_def Let_def put_req_def
      clearResponder_def held_status_def\<close>, auto intro!: touchI simp: held_status_def)

lemma touched_handover:
  assumes wf: "wf_service s" and h: "handover now q k req ses g s"
  shows "touched now s (assignState now q k req ses g s)"
    and "touched now s (requeueLocked (assigned req (available s ! k) ses now) now
           (assignState now q k req ses g s))"
proof -
  show t: "touched now s (assignState now q k req ses g s)"
    by (rule touched_replace [OF mwf_requests [OF wf], of "queue s ! q" req])
      (use h in \<open>simp_all add: handover_def assignState_def assigned_def\<close>, auto intro!: touchI simp: held_status_def)
  have "touched now (assignState now q k req ses g s)
      (requeueLocked (assigned req (available s ! k) ses now) now (assignState now q k req ses g s))"
    by (rule touched_requeue [OF wf_handover(1) [OF assms], of "queue s ! q"])
      (simp_all add: assignState_def assigned_def)
  with t show "touched now s (requeueLocked (assigned req (available s ! k) ses now) now
      (assignState now q k req ses g s))" by (rule touched_trans)
qed

lemma tryAssign_touched:
  assumes "wf_service s" and "tryAssignLocked now s = Some s'"
  shows "touched now s s'"
proof -
  have "\<exists>s'. tryAssignLocked now s = Some s' \<and> wf_service s' \<and> touched now s s' \<and>
      compatiblePairLocked s' = None"
    by (rule tryAssign_rule [OF assms(1) touched_refl])
      (use touched_handover touched_trans in blast)
  then show ?thesis using assms(2) by simp
qed

lemma touched_balance: "touched now s t \<Longrightarrow> balanceLocked t uid = balanceLocked s uid"
  by (simp add: touched_def balanceLocked_def Let_def)

lemma touched_request:
  assumes "touched now s t" and "mget (requests s) rid = Some r"
  obtains r' where "mget (requests t) rid = Some r'" and "touch now r r'"
  using assms by (metis touched_def option_rel_Some1)

lemma touched_request_back:
  assumes "touched now s t" and "mget (requests t) rid = Some r'"
  obtains r where "mget (requests s) rid = Some r" and "touch now r r'"
  using assms by (metis touched_def option_rel_Some2)

section \<open>Completion and abandonment of one request\<close>

lemma complete_fields:
  assumes "completeLocked e r reason now s = Some s'" and "\<not> isTerminal (Status r)"
    and "mget0 (fragments s) (ReqID r) \<noteq> []"
  shows "requests s' = mput (ReqID r) (r\<lparr>Status := (if reason = FinishPartial
        then StatusTimeoutCompleted else StatusCompleted), ReqFinish := reason, UpdatedAt := now,
        CompletedAt := now\<rparr>) (requests s)"
    and "ledger s' = ledger s @ rewardEntries e r now" and "fragments s' = fragments s"
    and "activeByRes s' = mdel (ResponderSessionID r) (activeByRes s)" and "queue s' = queue s"
    and "available s' = available s"
  using assms
  by (auto simp: completeLocked_def completeState_def Let_def service_defs rewardEntries_def
      dest!: publish_only split: if_splits)

lemma abandon_fields:
  assumes "abandonLocked r now s = Some s'"
  shows "requests s' = mput (ReqID r) ((clearResponder r)\<lparr>Status := StatusAbandoned,
        FrozenPoints := 0, UpdatedAt := now\<rparr>) (requests s)"
    and "ledger s' = ledger s" and "fragments s' = fragments s"
    and "queue s' = filter (\<lambda>x. x \<noteq> ReqID r) (queue s)" and "available s' = available s"
  using assms
  by (auto simp: abandonLocked_def abandonState_def Let_def put_req_def
      removeQueuedRequestLocked_def clearResponder_def dest!: publish_only)

section \<open>Errors\<close>

text \<open>An operation that returns an error leaves the state as it was.\<close>

lemma op_error_unchanged:
  shows "Register gen rnd now acc nick pw rep s = Some (s', Inl err) \<Longrightarrow> s' = s"
    and "Login cmp rnd now acc pw s = Some (s', Inl err) \<Longrightarrow> s' = s"
    and "createRequest rnd now tok model msgs n ai pref s = Some (s', Inl err) \<Longrightarrow> s' = s"
    and "RegisterResponder tok s = Some (s', Inl err) \<Longrightarrow> s' = s"
    and "MarkResponderAvailable now sid accept s = Some (s', Inl err) \<Longrightarrow> s' = s"
    and "ResumeResponder now sid s = Some (s', Inl err) \<Longrightarrow> s' = s"
    and "SubmitFragment rnd now sid k text s = Some (s', Inl err) \<Longrightarrow> s' = s"
    and "Finish e now sid s = Some (s', Inl err) \<Longrightarrow> s' = s"
    and "Skip now now' sid s = Some (s', Inl err) \<Longrightarrow> s' = s"
    and "React e now now' tok rid reaction s = Some (s', Inl err) \<Longrightarrow> s' = s"
    and "Subscribe rid s = Some (s', Inl err) \<Longrightarrow> s' = s"
proof -
  show "Register gen rnd now acc nick pw rep s = Some (s', Inl err) \<Longrightarrow> s' = s"
    by (auto simp: Register_def Let_def split: if_splits option.splits prod.splits Option.bind_splits)
  show "Login cmp rnd now acc pw s = Some (s', Inl err) \<Longrightarrow> s' = s"
    by (auto simp: Login_def Let_def split: if_splits option.splits prod.splits Option.bind_splits)
  show "createRequest rnd now tok model msgs n ai pref s = Some (s', Inl err) \<Longrightarrow> s' = s"
    by (auto simp: createRequest_eq Let_def split: if_splits option.splits Option.bind_splits)
  show "RegisterResponder tok s = Some (s', Inl err) \<Longrightarrow> s' = s"
    by (auto simp: RegisterResponder_def Let_def split: option.splits)
  show "MarkResponderAvailable now sid accept s = Some (s', Inl err) \<Longrightarrow> s' = s"
    by (auto simp: MarkResponderAvailable_def makeAvailable_def Let_def
        split: if_splits Option.bind_splits)
  show "ResumeResponder now sid s = Some (s', Inl err) \<Longrightarrow> s' = s"
    by (auto simp: ResumeResponder_def makeAvailable_def Let_def split: if_splits Option.bind_splits)
  show "SubmitFragment rnd now sid k text s = Some (s', Inl err) \<Longrightarrow> s' = s"
    by (auto simp: SubmitFragment_eq Let_def split: if_splits option.splits
        dest!: afterCommit_fields(1))
  show "Finish e now sid s = Some (s', Inl err) \<Longrightarrow> s' = s"
    by (auto simp: Finish_def Let_def split: if_splits option.splits Option.bind_splits)
  show "Skip now now' sid s = Some (s', Inl err) \<Longrightarrow> s' = s"
    by (auto simp: Skip_def Let_def split: if_splits option.splits Option.bind_splits)
  show "React e now now' tok rid reaction s = Some (s', Inl err) \<Longrightarrow> s' = s"
    by (auto simp: React_eq split: if_splits option.splits)
  show "Subscribe rid s = Some (s', Inl err) \<Longrightarrow> s' = s"
    by (auto simp: Subscribe_def Let_def split: if_splits option.splits Option.bind_splits)
qed

section \<open>A responder leaves\<close>

lemma unregister_effect:
  assumes inv: "svc_inv s" and un: "UnregisterResponder e now sid s = Some s'"
  shows "mget (responders s') sid = None \<and> sid \<notin> set (available s') \<and>
    mget (activeByRes s') sid = None \<and>
    (\<forall>rid r. mget (requests s) rid = Some r \<and> live_status (Status r) \<and> ResponderSessionID r = sid \<longrightarrow>
      (\<exists>r'. mget (requests s') rid = Some r' \<and>
        Status r' = (if mget0 (fragments s) rid \<noteq> [] then StatusTimeoutCompleted
                     else if PreferredResponderSessionID r \<noteq> [] then StatusAbandoned
                     else StatusQueued)))"
proof -
  let ?l = "leave sid s"
  have linv: "svc_inv ?l" using evolve_leave [OF inv] by (simp add: evolve_def)
  have same: "requests ?l = requests s" "activeByRes ?l = activeByRes s" "fragments ?l = fragments s"
    "mget (responders ?l) sid = None" "sid \<notin> set (available ?l)"
    by (simp_all add: leave_def removeAvailableLocked_def)
  have d: "dropAssignment e now sid ?l = Some s'"
    using un Unregister_eq [OF svc_invD(1) [OF inv]] by simp
  show ?thesis
  proof (cases "mget (activeByRes s) sid")
    case None
    then have "s' = ?l" using d same by (simp add: dropAssignment_def mget0_def)
    moreover have "\<not> (mget (requests s) rid = Some r \<and> live_status (Status r) \<and>
        ResponderSessionID r = sid)" for rid r
      using active_iff [OF svc_invD(1) [OF inv]] None by (metis option.distinct(1))
    ultimately show ?thesis using same None by auto
  next
    case (Some rid)
    obtain r where r: "mget (requests s) rid = Some r" "live_status (Status r)" "ResponderSessionID r = sid"
      using active_iff [OF svc_invD(1) [OF inv]] Some by blast
    note rf = request_facts [OF svc_invD(1) [OF inv] r(1)]
    have nt: "\<not> isTerminal (Status r)" using r(2) by (auto simp: status_defs)
    have sne: "ResponderSessionID r \<noteq> []" by (rule live_responder_nonempty [OF rf(4) r(2)])
    have only: "x = rid" if "mget (requests s) x = Some y" "live_status (Status y)"
      "ResponderSessionID y = sid" for x y
      using live_unique [OF svc_invD(1) [OF inv] that(1) r(1)] that r by simp
    let ?st = "if mget0 (fragments s) rid \<noteq> [] then StatusTimeoutCompleted
      else if PreferredResponderSessionID r \<noteq> [] then StatusAbandoned else StatusQueued"
    have res: "(\<exists>r'. mget (requests s') rid = Some r' \<and> Status r' = ?st) \<and>
        responders s' = responders ?l \<and> available s' = available ?l \<and> mget (activeByRes s') sid = None"
      using d Some r rf(1,2) nt same sne
      by (auto simp: dropAssignment_def mget0_def Let_def abandonLocked_def abandonState_def
          requeueLocked_def completeLocked_def completeState_def service_defs dest!: publish_only
          split: if_splits)
    show ?thesis
    proof (intro conjI allI impI)
      fix x y assume "mget (requests s) x = Some y \<and> live_status (Status y) \<and> ResponderSessionID y = sid"
      then have "x = rid" "y = r" using only [of x y] r(1) by auto
      then show "\<exists>r'. mget (requests s') x = Some r' \<and>
          Status r' = (if mget0 (fragments s) x \<noteq> [] then StatusTimeoutCompleted
            else if PreferredResponderSessionID y \<noteq> [] then StatusAbandoned else StatusQueued)"
        using res by blast
    qed (use res same in simp_all)
  qed
qed

end
