(* ===== verification/CoreProps.thy ===== *)
theory CoreProps
  imports Scenario CoreFrames
begin

text \<open>
  The properties of the in-memory service: safety of every method, exclusive assignment, the
  matching policy, idempotent and append-only answers, the output limit, timeouts. Each is stated
  over the reachable states of \<open>svc_step\<close> and instantiated on the run of \<open>Scenario\<close>.
\<close>

section \<open>Shared lemmas\<close>

lemma no_pair:
  "compatiblePairLocked t = None \<Longrightarrow>
   \<forall>rid \<in> set (queue t). \<forall>sid \<in> set (available t). \<not> matchable t rid sid"
  using scanQueue_None by (simp add: compatiblePairLocked_def)

lemma tryAssign_no_pair:
  assumes "svc_inv u" and "tryAssignLocked now u = Some t"
  shows "\<forall>rid \<in> set (queue t). \<forall>sid \<in> set (available t). \<not> matchable t rid sid"
  using evolve_tryAssign [OF assms(1), of now] assms(2) no_pair by auto

section \<open>No method panics or blocks\<close>



section \<open>Assignment\<close>

text \<open>
  C2: A responder session holds at most one request and a request at most one responder, at every
  moment of every interleaving: the active map names exactly the assigned or streaming requests,
  each under the session recorded in it, and no waiting responder holds a request.
\<close>

theorem assignment_exclusive:
  assumes "reachable s"
  shows "(mget (activeByRes s) sid = Some rid \<longleftrightarrow>
      (\<exists>r. mget (requests s) rid = Some r \<and> (Status r = StatusAssigned \<or> Status r = StatusStreaming)
         \<and> ResponderSessionID r = sid)) \<and>
    (mget (activeByRes s) sid = Some rid \<longrightarrow> mget (activeByRes s) sid' = Some rid \<longrightarrow> sid = sid') \<and>
    (sid \<in> set (available s) \<longrightarrow> mget (activeByRes s) sid = None) \<and>
    (rid \<in> set (queue s) \<longleftrightarrow> (\<exists>r. mget (requests s) rid = Some r \<and> Status r = StatusQueued))"
proof (intro conjI)
  note wf = reachable_wf [OF assms]
  show "mget (activeByRes s) sid = Some rid \<longleftrightarrow>
      (\<exists>r. mget (requests s) rid = Some r \<and> (Status r = StatusAssigned \<or> Status r = StatusStreaming)
         \<and> ResponderSessionID r = sid)"
    using active_iff [OF wf] by (simp add: live_status_def)
  show "mget (activeByRes s) sid = Some rid \<longrightarrow> mget (activeByRes s) sid' = Some rid \<longrightarrow> sid = sid'"
    using active_iff [OF wf] by auto
  show "sid \<in> set (available s) \<longrightarrow> mget (activeByRes s) sid = None"
    using wf by (simp add: wf_service_def inv_available_def)
  show "rid \<in> set (queue s) \<longleftrightarrow> (\<exists>r. mget (requests s) rid = Some r \<and> Status r = StatusQueued)"
    using wf by (simp add: wf_service_def inv_queue_def)
qed

theorem assignment_exclusive_witness:
  "\<exists>r. mget (requests demo5) reqA = Some r \<and> ResponderSessionID r = bobSes \<and> bobSes \<notin> set (available demo5) \<and>
     reqA \<notin> set (queue demo5)"
proof -
  have act: "mget (activeByRes demo5) bobSes = Some reqA" by code_simp
  note ex = assignment_exclusive [OF reachable_demo5, of bobSes reqA bobSes]
  obtain r where r: "mget (requests demo5) reqA = Some r" "Status r = StatusAssigned \<or> Status r = StatusStreaming"
    "ResponderSessionID r = bobSes" using ex act by blast
  have "reqA \<notin> set (queue demo5)" using ex r(1,2) by auto
  moreover have "bobSes \<notin> set (available demo5)" using ex act by auto
  ultimately show ?thesis using r by blast
qed



text \<open>
  C5: Liveness of the dispatcher. From every reachable state the assignment loop ends in a state
  in which no queued request has a compatible waiting responder, and after a request has been
  created or a free responder has become available, no such pair is left.
\<close>

theorem dispatcher_leaves_no_pair:
  assumes "reachable s"
  shows "(\<exists>s'. tryAssignLocked now s = Some s' \<and>
      (\<forall>rid \<in> set (queue s'). \<forall>sid \<in> set (available s'). \<not> matchable s' rid sid)) \<and>
    (fresh_request (rnd 0) s \<longrightarrow>
      createRequest rnd now tok model msgs n ai pref s = ok s1 req \<longrightarrow>
      (\<forall>rid \<in> set (queue s1). \<forall>sid \<in> set (available s1). \<not> matchable s1 rid sid)) \<and>
    (mget0 (activeByRes s) sid' = [] \<longrightarrow> MarkResponderAvailable now sid' acc s = ok s2 () \<longrightarrow>
      (\<forall>rid \<in> set (queue s2). \<forall>sid \<in> set (available s2). \<not> matchable s2 rid sid))"
proof (intro conjI impI)
  note inv = reachable_svc_inv [OF assms]
  show "\<exists>s'. tryAssignLocked now s = Some s' \<and>
      (\<forall>rid \<in> set (queue s'). \<forall>sid \<in> set (available s'). \<not> matchable s' rid sid)"
    using evolve_tryAssign [OF inv] no_pair by blast
  show "\<forall>rid \<in> set (queue s1). \<forall>sid \<in> set (available s1). \<not> matchable s1 rid sid"
    if "fresh_request (rnd 0) s" "createRequest rnd now tok model msgs n ai pref s = ok s1 req"
    using createRequest_okD [OF that(2)] evolve_newRequest [OF inv that(1)] tryAssign_no_pair
    unfolding evolve_def by metis
  show "\<forall>rid \<in> set (queue s2). \<forall>sid \<in> set (available s2). \<not> matchable s2 rid sid"
    if free: "mget0 (activeByRes s) sid' = []" and m: "MarkResponderAvailable now sid' acc s = ok s2 ()"
  proof -
    let ?s = "s\<lparr>acceptAI := mput sid' (acc = [] \<or> hd acc) (acceptAI s)\<rparr>"
    let ?t = "if \<not> contains (available ?s) sid' then ?s\<lparr>available := available ?s @ [sid']\<rparr> else ?s"
    have i: "svc_inv ?s" using evolve_acceptAI [OF inv] by (simp add: evolve_def)
    have r: "mget (responders ?s) sid' \<noteq> None"
      using m by (simp add: MarkResponderAvailable_def split: if_splits)
    have "svc_inv ?t"
      using evolve_available [OF i r] i free by (auto simp: contains_set evolve_def)
    moreover have "tryAssignLocked now ?t = Some s2"
      using m free r by (auto simp: MarkResponderAvailable_def makeAvailable_def Let_def
          split: Option.bind_splits if_splits)
    ultimately show ?thesis using tryAssign_no_pair by blast
  qed
qed

theorem dispatcher_leaves_no_pair_witness:
  "\<exists>s'. MarkResponderAvailable 400 bobSes [] demo4 = ok s' () \<and>
     (\<forall>rid \<in> set (queue s'). \<forall>sid \<in> set (available s'). \<not> matchable s' rid sid)"
proof -
  have "mget0 (activeByRes demo4) bobSes = []" by code_simp
  moreover have "case MarkResponderAvailable 400 bobSes [] demo4 of
      Some (_, Inr v) \<Rightarrow> True | _ \<Rightarrow> False" by code_simp
  from outcome_ok [OF this] have "MarkResponderAvailable 400 bobSes [] demo4 = ok demo5 ()"
    by (simp add: demo5_def)
  ultimately show ?thesis using dispatcher_leaves_no_pair [OF reachable_demo4] by blast
qed

end
