(* ===== verification/AnswerProps.thy ===== *)
theory AnswerProps
  imports Scenario CoreFrames
begin

text \<open>
  Properties of answers: who may answer, idempotent submission, append-only history, the output
  limit, finishing, timeouts, leaving responders, fallback and streams.
\<close>

section \<open>Shared lemmas\<close>

lemma prefix_answer:
  "prefix (mget0 (fragments s) rid) (mget0 (fragments s') rid) \<Longrightarrow>
   prefix (answerTextLocked s rid) (answerTextLocked s' rid)"
  by (auto simp: prefix_def answerTextLocked_def)

lemma submit_committed:
  assumes inv: "svc_inv s" and ok: "SubmitFragment rnd now sid n text s = ok s' (f, False)"
  obtains r where "committable s r f" and "mget0 (activeByRes s) sid = ReqID r"
    and "f = mkFragment (rnd 0) now (ReqID r) sid n text"
    and "afterCommit (rnd 2) now r f (commitState (rnd 1) now r f s) = ok s' (f, False)"
proof -
  let ?rid = "mget0 (activeByRes s) sid"
  have ne: "?rid \<noteq> []" using ok by (auto simp: SubmitFragment_eq Let_def split: if_splits)
  obtain r where r: "mget (requests s) ?rid = Some r" and live: "live_status (Status r)"
    using active_live [OF svc_invD(1) [OF inv] refl ne] by blast
  have id: "ReqID r = ?rid" using request_facts(1) [OF svc_invD(1) [OF inv] r] .
  have *: "0 < n" "text \<noteq> []" "mget (mget0 (seqSeen s) ?rid) (seqKey sid n) = None"
    "int (RuneCountInString (answerTextLocked s ?rid)) + int (RuneCountInString text) \<le> OutputLimit r"
    "\<not> isTerminal (Status r)"
    using ok r ne by (auto simp: SubmitFragment_eq Let_def not_less split: if_splits option.splits)
  let ?f = "mkFragment (rnd 0) now (ReqID r) sid n text"
  have ac: "afterCommit (rnd 2) now r ?f (commitState (rnd 1) now r ?f s) = ok s' (f, False)"
    using SubmitFragment_commit [OF *(1,2) refl ne r *(5,3,4), of rnd now] ok id by (simp add: Let_def)
  moreover from afterCommit_fields(1) [OF ac] have "f = ?f" by simp
  moreover have "committable s r ?f"
    using r live id * by (simp add: committable_def mkFragment_def)
  ultimately show ?thesis by (intro that [of r]) (simp_all add: id)
qed

section \<open>Who answers\<close>

text \<open>
  C15: Participation preferences are respected in every reachable state: a question whose author
  refused AI answers is never held or answered by a persona or by the fallback, a persona never
  answers a persona, and a reserved follow-up is only ever held by the responder it was reserved
  for.
\<close>

theorem participation_respected:
  assumes "reachable s" and "mget (requests s) rid = Some r"
    and "live_status (Status r) \<or> done_status (Status r)"
  shows "(ResponderKind r = KindAIPersona \<or> ResponderKind r = KindFallback \<longrightarrow> AllowAIAnswers r) \<and>
    (RequesterKind r = KindAIPersona \<longrightarrow> ResponderKind r \<noteq> KindAIPersona) \<and>
    (PreferredResponderSessionID r \<noteq> [] \<longrightarrow> ResponderSessionID r = PreferredResponderSessionID r)"
  using request_facts(4) [OF reachable_wf [OF assms(1)] assms(2)] assms(3)
  unfolding match_inv_def by blast

theorem participation_respected_witness:
  "\<exists>r. mget (requests (fst (AcquireFallbackAssignment 350 reqA demo4))) reqA = Some r \<and>
     ResponderKind r = KindFallback \<and> AllowAIAnswers r"
proof -
  let ?s = "fst (AcquireFallbackAssignment 350 reqA demo4)"
  have reach: "reachable ?s"
    by (rule reachable_step [OF reachable_demo4 svc_step.acquire_fallback]) (rule prod.collapse [symmetric])
  have "case mget (requests ?s) reqA of Some r \<Rightarrow> live_status (Status r) \<and> ResponderKind r = KindFallback
    | None \<Rightarrow> False" by code_simp
  then obtain r where r: "mget (requests ?s) reqA = Some r" "live_status (Status r)" "ResponderKind r = KindFallback"
    by (auto split: option.splits)
  then show ?thesis using participation_respected [OF reach r(1)] by blast
qed

section \<open>Committing fragments\<close>



text \<open>
  C4: Nothing committed is taken back. Along every run, the committed answer of a request only
  grows at its end, its author, text, limit and preferences never change, its responder never
  changes once a fragment is committed, and after it has ended its status, answer, finish reason
  and completion time are final. The ledger is append-only.
\<close>

theorem history_append_only:
  assumes "reachable s" and "svc_step\<^sup>*\<^sup>* s s'" and "mget (requests s) rid = Some r"
  shows "\<exists>r'. mget (requests s') rid = Some r' \<and> same_question r r' \<and>
      prefix (answerTextLocked s rid) (answerTextLocked s' rid) \<and>
      (answered_status (Status r) \<longrightarrow> same_responder r r' \<and> answered_status (Status r')) \<and>
      (isTerminal (Status r) \<longrightarrow> Status r' = Status r \<and> ReqFinish r' = ReqFinish r \<and>
         CompletedAt r' = CompletedAt r \<and> answerTextLocked s' rid = answerTextLocked s rid) \<and>
      prefix (ledger s) (ledger s')"
proof -
  note ext = reachable_extends [OF assms(1,2)]
  then obtain r' where r': "mget (requests s') rid = Some r'" "req_le r r'"
    "isTerminal (Status r) \<longrightarrow> mget0 (fragments s') rid = mget0 (fragments s) rid"
    using assms(3) unfolding extends_def by blast
  have "prefix (answerTextLocked s rid) (answerTextLocked s' rid)"
    using ext prefix_answer unfolding extends_def by blast
  moreover have "prefix (ledger s) (ledger s')" using ext by (simp add: extends_def)
  ultimately show ?thesis
    using r' can_become_terminal can_become_answered
    by (auto simp: req_le_def answerTextLocked_def)
qed

theorem history_append_only_witness:
  "\<exists>r r'. mget (requests demo6) reqA = Some r \<and> mget (requests demo7) reqA = Some r' \<and>
     same_question r r' \<and> prefix (answerTextLocked demo6 reqA) (answerTextLocked demo7 reqA)"
proof -
  have "mget (requests demo6) reqA \<noteq> None" by code_simp
  then obtain r where r: "mget (requests demo6) reqA = Some r" by blast
  have "\<exists>x. Finish (ent CHR ''e'' 0) 600 bobSes demo6 = Some (demo7, x)"
    using Finish_evolve [OF reachable_svc_inv [OF reachable_demo6], of "ent CHR ''e'' 0" 600 bobSes]
    by (auto simp: demo7_def after_def)
  then have "svc_step\<^sup>*\<^sup>* demo6 demo7" using svc_step.finish by blast
  from history_append_only [OF reachable_demo6 this r] r show ?thesis by blast
qed

text \<open>
  C17: The output limit holds in every reachable state: an answer never has more characters than
  the limit its author asked for, which is between 1 and 128000, and an answer that is still
  streaming has room left (reaching the limit ends it).
\<close>

theorem output_limit_respected:
  assumes "reachable s" and "mget (requests s) rid = Some r"
  shows "int (RuneCountInString (answerTextLocked s rid)) \<le> OutputLimit r \<and>
    0 < OutputLimit r \<and> OutputLimit r \<le> OutputLimitChars \<and>
    (Status r = StatusStreaming \<longrightarrow> int (RuneCountInString (answerTextLocked s rid)) < OutputLimit r)"
proof -
  note inv = reachable_svc_inv [OF assms(1)]
  show ?thesis
    using request_facts(3) [OF svc_invD(1) [OF inv] assms(2)] svc_invD(3) [OF inv assms(2)]
    by (simp add: req_inv_def has_room_def answerTextLocked_def)
qed

theorem output_limit_respected_witness:
  "\<exists>r. mget (requests demo6) reqA = Some r \<and>
     int (RuneCountInString (answerTextLocked demo6 reqA)) \<le> OutputLimit r"
proof -
  have "mget (requests demo6) reqA \<noteq> None" by code_simp
  then show ?thesis using output_limit_respected [OF reachable_demo6] by blast
qed

end
