(* ===== verification/LifecycleProps.thy ===== *)
theory LifecycleProps
  imports Scenario CoreFrames
begin

text \<open>
  Properties of the request life cycle: errors change nothing, finishing, leaving responders,
  timeouts, the fallback and late subscribers.
\<close>

section \<open>Errors\<close>

text \<open>
  C21: A method that returns an error has changed nothing: registration, login, asking, becoming
  available, resuming, submitting, finishing, skipping, reacting and subscribing.
\<close>

theorem errors_change_nothing:
  "Register gen rnd now acc nick pw rep s = Some (s', Inl err) \<or>
   Login cmp rnd now acc pw s = Some (s', Inl err) \<or>
   createRequest rnd now tok model msgs n ai pref s = Some (s', Inl err) \<or>
   RegisterResponder tok s = Some (s', Inl err) \<or>
   MarkResponderAvailable now sid accept s = Some (s', Inl err) \<or>
   ResumeResponder now sid s = Some (s', Inl err) \<or>
   SubmitFragment rnd now sid k text s = Some (s', Inl err) \<or>
   Finish e now sid s = Some (s', Inl err) \<or> Skip now now' sid s = Some (s', Inl err) \<or>
   React e now now' tok rid reaction s = Some (s', Inl err) \<or>
   Subscribe rid s = Some (s', Inl err) \<Longrightarrow> s' = s"
  using op_error_unchanged by metis

theorem errors_change_nothing_witness:
  "\<exists>s'. Finish (ent CHR ''e'' 0) 600 bobSes demo5 = Some (s', Inl ErrFinishBeforeFragment) \<and> s' = demo5"
proof -
  have "case Finish (ent CHR ''e'' 0) 600 bobSes demo5 of Some (_, Inl ErrFinishBeforeFragment) \<Rightarrow> True
    | _ \<Rightarrow> False" by code_simp
  then obtain s' where f: "Finish (ent CHR ''e'' 0) 600 bobSes demo5 = Some (s', Inl ErrFinishBeforeFragment)"
    by (auto split: option.splits prod.splits sum.splits error.splits)
  have "s' = demo5" by (rule errors_change_nothing) (use f in blast)
  then show ?thesis using f by blast
qed

section \<open>Finishing\<close>

text \<open>
  C20: Finishing succeeds exactly when the caller holds a request with committed output. It then
  completes that request with reason \<open>stop\<close>, frees the responder, credits the base reward to a
  registered responder and to nobody else, and touches no other request and no answer.
\<close>

theorem finish_completes:
  assumes "reachable s"
  shows "case mget (activeByRes s) sid of
      None \<Rightarrow> Finish e now sid s = fail s ErrNoActiveAssignment
    | Some rid \<Rightarrow>
        if mget0 (fragments s) rid = [] then Finish e now sid s = fail s ErrFinishBeforeFragment
        else \<exists>s' r. Finish e now sid s = ok s' () \<and> mget (requests s) rid = Some r \<and>
          requests s' = mput rid (r\<lparr>Status := StatusCompleted, ReqFinish := FinishStop,
            UpdatedAt := now, CompletedAt := now\<rparr>) (requests s) \<and>
          ledger s' = ledger s @ rewardEntries e r now \<and> fragments s' = fragments s \<and>
          mget (activeByRes s') sid = None"
proof (cases "mget (activeByRes s) sid")
  case None
  then show ?thesis by (simp add: Finish_def mget0_def)
next
  case (Some rid)
  note inv = reachable_svc_inv [OF assms]
  obtain r where r: "mget (requests s) rid = Some r" "live_status (Status r)" "ResponderSessionID r = sid"
    using active_iff [OF svc_invD(1) [OF inv]] Some by blast
  note rf = request_facts [OF svc_invD(1) [OF inv] r(1)]
  have rid: "mget0 (activeByRes s) sid = rid" using Some by (simp add: mget0_def)
  show ?thesis
  proof (cases "mget0 (fragments s) rid = []")
    case False
    obtain s' x where ok: "Finish e now sid s = Some (s', x)" using Finish_evolve [OF inv] by blast
    then have c: "completeLocked e r FinishStop now s = Some s'" "x = Inr ()"
      using rid r(1) rf(2) False by (auto simp: Finish_def split: Option.bind_splits)
    have "\<not> isTerminal (Status r)" using r(2) by (auto simp: status_defs)
    from complete_fields [OF c(1) this] show ?thesis using Some r ok c(2) rf(1) False by simp
  qed (use rid r(1) rf(2) Some in \<open>simp add: Finish_def\<close>)
qed

theorem finish_completes_witness:
  "\<exists>s'. Finish (ent CHR ''e'' 0) 600 bobSes demo6 = ok s' () \<and> mget (activeByRes s') bobSes = None"
proof -
  have "mget (activeByRes demo6) bobSes = Some reqA" "mget0 (fragments demo6) reqA \<noteq> []"
    by code_simp+
  then show ?thesis using finish_completes [where sid = bobSes, OF reachable_demo6] by auto
qed

section \<open>A responder leaves\<close>

text \<open>
  When a responder leaves, it is unregistered, not available and holds nothing. The request it
  held goes back to the queue if no output was committed (or is abandoned if it was reserved for
  that responder) and is closed as a partial answer otherwise; it is never lost.
\<close>

theorem unregister_releases:
  assumes "reachable s" and "UnregisterResponder e now sid s = Some s'"
  shows "mget (responders s') sid = None \<and> sid \<notin> set (available s') \<and>
    mget (activeByRes s') sid = None \<and>
    (\<forall>rid r. mget (requests s) rid = Some r \<and> live_status (Status r) \<and> ResponderSessionID r = sid \<longrightarrow>
      (\<exists>r'. mget (requests s') rid = Some r' \<and>
        Status r' = (if mget0 (fragments s) rid \<noteq> [] then StatusTimeoutCompleted
                     else if PreferredResponderSessionID r \<noteq> [] then StatusAbandoned
                     else StatusQueued)))"
  by (rule unregister_effect [OF reachable_svc_inv [OF assms(1)] assms(2)])

theorem unregister_releases_witness:
  "\<exists>s' r'. UnregisterResponder (ent CHR ''u'' 0) 550 bobSes demo5 = Some s' \<and>
     mget (requests s') reqA = Some r' \<and> Status r' = StatusQueued \<and> mget (activeByRes s') bobSes = None"
proof -
  obtain s' where s': "UnregisterResponder (ent CHR ''u'' 0) 550 bobSes demo5 = Some s'"
    using UnregisterResponder_evolve [OF reachable_svc_inv [OF reachable_demo5]] by blast
  have "case mget (requests demo5) reqA of None \<Rightarrow> False | Some r \<Rightarrow> live_status (Status r) \<and>
      ResponderSessionID r = bobSes \<and> PreferredResponderSessionID r = []" by code_simp
  then obtain r where "mget (requests demo5) reqA = Some r" "live_status (Status r)"
    "ResponderSessionID r = bobSes" "PreferredResponderSessionID r = []" by (auto split: option.splits)
  moreover have "mget0 (fragments demo5) reqA = []" by code_simp
  ultimately have "\<exists>r'. mget (requests s') reqA = Some r' \<and> Status r' = StatusQueued"
    using unregister_releases [OF reachable_demo5 s'] by fastforce
  then show ?thesis using unregister_releases [OF reachable_demo5 s'] s' by blast
qed

section \<open>Timeouts\<close>

definition in_time :: "time \<Rightarrow> duration \<Rightarrow> duration \<Rightarrow> Request \<Rightarrow> bool" where
  "in_time now ta ts r \<longleftrightarrow>
     (Status r = StatusAssigned \<longrightarrow> time_sub now (UpdatedAt r) < ta) \<and>
     (Status r = StatusStreaming \<longrightarrow> time_sub now (UpdatedAt r) < ts)"

lemma time_sub_self [simp]: "time_sub now now = 0"
  by (simp add: time_sub_def maxDuration_def minDuration_def)

lemma sweepOne_effect:
  assumes inv: "svc_inv s" and pos: "0 < ta" "0 < ts"
    and sw: "sweepOne e now ta ts rid s = Some (s', ids)"
  shows "x \<noteq> rid \<Longrightarrow> mget (requests s') x = mget (requests s) x"
    and "mget (requests s') rid = Some r' \<Longrightarrow> in_time now ta ts r'"
proof -
  have "(x \<noteq> rid \<longrightarrow> mget (requests s') x = mget (requests s) x) \<and>
    (mget (requests s') rid = Some r' \<longrightarrow> in_time now ta ts r')"
  proof (cases "mget (requests s) rid")
    case None
    then show ?thesis using sw by (simp add: sweepOne_def)
  next
    case (Some r)
    note rf = request_facts [OF svc_invD(1) [OF inv] Some]
    have frags: "Status r = StatusAssigned \<Longrightarrow> mget0 (fragments s) rid = []"
      "Status r = StatusStreaming \<Longrightarrow> mget0 (fragments s) rid \<noteq> []"
      using rf(3) by (simp_all add: req_inv_def status_defs)
    show ?thesis
      using sw Some rf(1) frags pos
      by (cases "Status r")
        (auto simp: sweepOne_def in_time_def status_defs abandonLocked_def abandonState_def
          requeueLocked_def completeLocked_def completeState_def Let_def service_defs not_le
          dest!: publish_only split: if_splits Option.bind_splits)
  qed
  then show "x \<noteq> rid \<Longrightarrow> mget (requests s') x = mget (requests s) x"
    and "mget (requests s') rid = Some r' \<Longrightarrow> in_time now ta ts r'" by blast+
qed

lemma sweepLoop_effect:
  assumes "svc_inv s" and pos: "0 < ta" "0 < ts"
    and "sweepLoop rnd now ta ts ord s = Some (s', ids)"
  shows "(x \<notin> set ord \<longrightarrow> mget (requests s') x = mget (requests s) x) \<and>
    (x \<in> set ord \<longrightarrow> mget (requests s') x = Some r' \<longrightarrow> in_time now ta ts r')"
  using assms(1,4)
proof (induction ord arbitrary: s s' ids)
  case (Cons rid ord)
  obtain s1 c d where s1: "sweepOne (rnd (length ord)) now ta ts rid s = Some (s1, c)"
    and s2: "sweepLoop rnd now ta ts ord s1 = Some (s', d)"
    using Cons.prems(2) by (auto split: Option.bind_splits)
  have inv1: "svc_inv s1"
    using sweepOne_evolve [OF Cons.prems(1), of "rnd (length ord)" now ta ts rid] s1
    by (auto simp: evolve_def)
  from Cons.IH [OF inv1 s2] sweepOne_effect(1) [OF Cons.prems(1) pos s1, of x]
    sweepOne_effect(2) [OF Cons.prems(1) pos s1, of r']
  show ?case by (cases "x = rid") auto
qed simp

text \<open>
  C14: A sweep leaves no stale work. After \<open>SweepTimeouts\<close> has visited every request (in any
  order), no assignment without output is older than the assignment limit and no streaming answer
  has been silent for the inactivity limit, whatever was reassigned in the meantime.
\<close>

theorem sweep_leaves_nothing_stale:
  assumes "reachable s" and "0 < ta" and "0 < ts" and "set (mkeys (requests s)) \<subseteq> set ord"
    and "SweepTimeouts ord rnd now ta ts s = Some (s', ids)"
    and "mget (requests s') rid = Some r"
  shows "in_time now ta ts r"
proof -
  note inv = reachable_svc_inv [OF assms(1)]
  obtain s1 where s1: "sweepLoop rnd now ta ts ord s = Some (s1, ids)"
    and s': "s' = s1 \<or> tryAssignLocked now s1 = Some s'"
    using assms(5) by (auto simp: SweepTimeouts_def split: Option.bind_splits if_splits)
  have wf1: "wf_service s1"
    using sweepLoop_evolve [OF inv, of rnd now ta ts ord] s1 by (auto simp: evolve_def svc_inv_def)
  have t: "touched now s1 s'" using s' tryAssign_touched [OF wf1] touched_refl by blast
  then obtain r1 where r1: "mget (requests s1) rid = Some r1" "touch now r1 r"
    by (rule touched_request_back [OF _ assms(6)])
  have eff: "rid \<notin> set ord \<longrightarrow> mget (requests s1) rid = mget (requests s) rid"
    "rid \<in> set ord \<longrightarrow> in_time now ta ts r1"
    using sweepLoop_effect [OF inv assms(2,3) s1, of rid r1] r1(1) by blast+
  have "rid \<in> set ord"
  proof (rule ccontr)
    assume "rid \<notin> set ord"
    then have "mget (requests s) rid = Some r1" using eff(1) r1(1) by simp
    then show False using mget_in_keys assms(4) \<open>rid \<notin> set ord\<close> by fastforce
  qed
  then have "in_time now ta ts r1" using eff(2) by blast
  then show ?thesis using r1(2) assms(2) by (auto simp: touch_def in_time_def status_defs)
qed

theorem sweep_leaves_nothing_stale_witness:
  "\<exists>s' ids r. SweepTimeouts [reqA] (ent CHR ''s'') (400 + 31 * second) AssignedTimeout
      StreamingInactivityTimeout demo5 = Some (s', ids) \<and> mget (requests s') reqA = Some r \<and>
      in_time (400 + 31 * second) AssignedTimeout StreamingInactivityTimeout r"
proof -
  obtain s' ids where sw: "SweepTimeouts [reqA] (ent CHR ''s'') (400 + 31 * second) AssignedTimeout
      StreamingInactivityTimeout demo5 = Some (s', ids)" and ev: "evolve demo5 s'"
    using SweepTimeouts_evolve [OF reachable_svc_inv [OF reachable_demo5]] by blast
  have "mget (requests demo5) reqA \<noteq> None" by code_simp
  then obtain r where r: "mget (requests s') reqA = Some r" using extends_request [OF ev] by blast
  have "set (mkeys (requests demo5)) \<subseteq> set [reqA]" by code_simp
  moreover have "0 < AssignedTimeout" "0 < StreamingInactivityTimeout"
    by (simp_all add: AssignedTimeout_def StreamingInactivityTimeout_def second_def)
  ultimately show ?thesis
    using sweep_leaves_nothing_stale [OF reachable_demo5 _ _ _ sw r] sw r by blast
qed

section \<open>Fallback\<close>

definition fallback_eligible :: "service \<Rightarrow> string \<Rightarrow> bool" where
  "fallback_eligible s rid \<longleftrightarrow> (case mget (requests s) rid of None \<Rightarrow> False
     | Some r \<Rightarrow> Status r = StatusQueued \<and> AllowAIAnswers r \<and> PreferredResponderSessionID r = [])"

text \<open>
  The fallback gets a request exactly when it is still queued, its author allows AI answers
  and it is not reserved. It then leaves the queue and is held by the fallback's own session, so
  that no waiting responder can be given it, and no other request changes. Otherwise nothing
  changes.
\<close>

theorem fallback_acquires:
  assumes "reachable s" and "AcquireFallbackAssignment now rid s = (s', res)"
  shows "case res of
      None \<Rightarrow> \<not> fallback_eligible s rid \<and> s' = s
    | Some (sid, a) \<Rightarrow> fallback_eligible s rid \<and> sid = ''fallback_'' @ rid \<and> AsgRequestID a = rid \<and>
        rid \<notin> set (queue s') \<and> mget (activeByRes s') sid = Some rid \<and>
        (\<forall>x. x \<noteq> rid \<longrightarrow> mget (requests s') x = mget (requests s) x)"
  using AcquireFallback_eq [OF reachable_wf [OF assms(1)], of now rid] assms(2)
  by (auto simp: fallback_eligible_def fallbackState_def split: option.splits if_splits)

theorem fallback_acquires_witness:
  "\<exists>s' a. AcquireFallbackAssignment 350 reqA demo4 = (s', Some a) \<and> reqA \<notin> set (queue s')"
proof -
  have e: "fallback_eligible demo4 reqA" by code_simp
  obtain s' res where ac: "AcquireFallbackAssignment 350 reqA demo4 = (s', res)" by fastforce
  then show ?thesis
    using fallback_acquires [OF reachable_demo4 ac] e by (cases res) (auto simp: ac)
qed

section \<open>Streams\<close>

text \<open>
  A subscriber that arrives late misses nothing: its channel starts with the whole committed
  answer as one fragment, followed by the end mark if the request has ended, and subscribing
  never blocks.
\<close>

theorem subscribe_backlog:
  assumes "reachable s" and "mget (requests s) rid = Some r"
  shows "\<exists>s' ch. Subscribe rid s = ok s' ch \<and> ch \<in> set (mget0 (subscribers s') rid) \<and>
    chan_open (streamChans s') ch \<and>
    cbuf (streamChans s' ! ch) =
      (if answerTextLocked s rid = [] then [] else [StreamEventFragment rid (answerTextLocked s rid)]) @
      (if isTerminal (Status r) then [StreamEventDone rid (ReqFinish r)] else [])"
  using Subscribe_eq [OF assms(2) request_facts(1) [OF reachable_wf [OF assms(1)] assms(2)]]
    request_facts(1) [OF reachable_wf [OF assms(1)] assms(2)]
  by (simp add: backlog_def chan_open_def)

theorem subscribe_backlog_witness:
  "\<exists>r s' ch. mget (requests demo7) reqA = Some r \<and> Subscribe reqA demo7 = ok s' ch \<and>
     chan_open (streamChans s') ch"
proof -
  have "mget (requests demo7) reqA \<noteq> None" by code_simp
  then show ?thesis using subscribe_backlog [OF reachable_demo7] by blast
qed

end
