(* ===== verification/PointsProps.thy ===== *)
theory PointsProps
  imports Scenario CoreFrames
begin

text \<open>
  Properties of points, accounts, the public board and saved conversations.
\<close>

section \<open>The ledger\<close>

definition open_question :: "string \<Rightarrow> Request \<Rightarrow> bool" where
  "open_question uid r \<longleftrightarrow> RequesterID r = uid \<and> held_status (Status r)"

lemma held_sum:
  assumes wf: "wf_service s" and "uid \<noteq> []"
  shows "msum (heldOf uid) (requests s) =
    QuestionCost * int (length (filter (open_question uid) (map snd (requests s))))"
proof (rule msum_count, intro ballI)
  fix p assume "p \<in> set (requests s)"
  then have "mget (requests s) (fst p) = Some (snd p)"
    using in_set_mget [OF mwf_requests [OF wf], of "fst p" "snd p"] by simp
  note rf = request_facts(3) [OF wf this]
  show "heldOf uid (snd p) = (if open_question uid (snd p) then QuestionCost else 0)"
    using rf assms(2)
    by (cases "Status (snd p)") (auto simp: req_inv_def heldOf_def open_question_def status_defs
        QuestionCost_def)
qed

text \<open>
  C3: The balance of an account is exactly what its history says, in every reachable state: the
  total is the signup grant, minus five points for each of its questions that got output, plus
  the reward of each of its finished answers at the current reaction (20 liked, 8 disliked,
  10 otherwise); five points are held for each of its questions that waits without output.
\<close>

theorem balance_is_history:
  assumes "reachable s" and "uid \<noteq> []"
  shows "balanceLocked s uid =
    (let total = grantOf s uid + msum (earned uid) (requests s);
         held = QuestionCost * int (length (filter (open_question uid) (map snd (requests s))))
     in \<lparr>Total = total, Held = held, Available = total - held\<rparr>)"
  using reachable_svc_inv [OF assms(1)] held_sum [OF reachable_wf [OF assms(1)] assms(2)]
  by (simp add: balanceLocked_def svc_inv_def points_inv_def Let_def)

definition annID :: string where "annID = newID ''usr'' (ent CHR ''a'' 0)"
definition bobID :: string where "bobID = newID ''usr'' (ent CHR ''b'' 0)"

theorem balance_is_history_witness:
  "balanceLocked demo8 bobID = \<lparr>Total = 40, Held = 0, Available = 40\<rparr> \<and> annID \<noteq> bobID"
proof -
  have ne: "bobID \<noteq> []" "annID \<noteq> bobID" by code_simp+
  have "grantOf demo8 bobID + msum (earned bobID) (requests demo8) = 40"
    "filter (open_question bobID) (map snd (requests demo8)) = []" by code_simp+
  then show ?thesis using balance_is_history [OF reachable_demo8 ne(1)] ne by (simp add: Let_def)
qed

text \<open>
  Points are frozen exactly while a registered author's question waits without output, and the
  question is charged exactly when output has been committed, so a question that ends without
  output costs nothing.
\<close>

theorem frozen_iff_waiting:
  assumes "reachable s" and "mget (requests s) rid = Some r"
  shows "(QuestionCharged r \<longleftrightarrow> mget0 (fragments s) rid \<noteq> []) \<and>
    FrozenPoints r = (if held_status (Status r) \<and> \<not> RequesterGuest r then QuestionCost else 0) \<and>
    (Status r = StatusAbandoned \<longrightarrow> \<not> QuestionCharged r \<and> FrozenPoints r = 0)"
  using request_facts(3) [OF reachable_wf [OF assms(1)] assms(2)]
  by (cases "Status r") (auto simp: req_inv_def status_defs)

theorem frozen_iff_waiting_witness:
  "\<exists>r. mget (requests demo4) reqA = Some r \<and> FrozenPoints r = QuestionCost"
proof -
  have "case mget (requests demo4) reqA of None \<Rightarrow> False
    | Some r \<Rightarrow> held_status (Status r) \<and> \<not> RequesterGuest r" by code_simp
  then obtain r where "mget (requests demo4) reqA = Some r" "held_status (Status r)" "\<not> RequesterGuest r"
    by (auto split: option.splits)
  then show ?thesis using frozen_iff_waiting [OF reachable_demo4] by simp
qed

text \<open>
  Asking needs five available points and freezes them. When a registered account asks, its
  total does not change, its held points grow by five and its available points shrink by five and
  stay non-negative, whether or not a responder is found at once.
\<close>

theorem asking_freezes_points:
  assumes "reachable s" and "fresh_request (rnd 0) s"
    and "createRequest rnd now tok model msgs n ai pref s = ok s' req"
    and "mget (sessionsByTok s) tok = Some ses" and "\<not> Guest ses"
  shows "Total (balanceLocked s' (SesUserID ses)) = Total (balanceLocked s (SesUserID ses)) \<and>
    Held (balanceLocked s' (SesUserID ses)) = Held (balanceLocked s (SesUserID ses)) + QuestionCost \<and>
    0 \<le> Available (balanceLocked s' (SesUserID ses))"
proof -
  let ?uid = "SesUserID ses"
  let ?r = "newRequest (rnd 0) now ses model msgs (clampLimit n) ai pref"
  note inv = reachable_svc_inv [OF assms(1)]
  from createRequest_okD [OF assms(3)] assms(4,5)
  have cost: "QuestionCost \<le> Available (balanceLocked s ?uid)"
    and ta: "tryAssignLocked now (enqueue ?r s) = Some s'" by auto
  have "evolve s (enqueue ?r s)" by (rule evolve_newRequest [where e = "rnd 0", OF inv assms(2,4)])
  then have "touched now (enqueue ?r s) s'"
    using tryAssign_touched [OF _ ta] by (simp add: evolve_def svc_inv_def)
  then have "balanceLocked s' ?uid = balanceLocked (enqueue ?r s) ?uid" by (rule touched_balance)
  moreover have "heldOf ?uid ?r = QuestionCost"
    using assms(5) by (simp add: heldOf_def newRequest_def isTerminal_def QuestionCost_def)
  moreover have "ledger (enqueue ?r s) = ledger s" "requests (enqueue ?r s) = mput (ReqID ?r) ?r (requests s)"
    "mget (requests s) (ReqID ?r) = None"
    using assms(2) by (simp_all add: enqueue_def put_req_def fresh_request_def newRequest_def)
  ultimately show ?thesis using cost by (simp add: balanceLocked_def Let_def msum_mput_new)
qed

theorem asking_freezes_points_witness:
  "\<exists>req. createRequest (ent CHR ''q'') 300 annTok ''m'' question 0 True [] demo3 = ok demo4 req \<and>
     Held (balanceLocked demo4 annID) = Held (balanceLocked demo3 annID) + QuestionCost"
proof -
  have "case createRequest (ent CHR ''q'') 300 annTok ''m'' question 0 True [] demo3 of
      Some (_, Inr v) \<Rightarrow> True | _ \<Rightarrow> False" by code_simp
  from outcome_ok [OF this] obtain req where
    c: "createRequest (ent CHR ''q'') 300 annTok ''m'' question 0 True [] demo3 = ok demo4 req"
    by (auto simp: demo4_def CreateRequest_def)
  have "case mget (sessionsByTok demo3) annTok of None \<Rightarrow> False
    | Some ses \<Rightarrow> \<not> Guest ses \<and> SesUserID ses = annID" by code_simp
  then obtain ses where "mget (sessionsByTok demo3) annTok = Some ses" "\<not> Guest ses" "SesUserID ses = annID"
    by (auto split: option.splits)
  then show ?thesis
    using asking_freezes_points [where rnd = "ent CHR ''q''", OF reachable_demo3 demo_fresh(3) c] c by auto
qed

text \<open>
  Cancelling before the first fragment succeeds exactly for an unfinished request without
  output. It abandons the request, takes it out of the queue and releases the frozen points:
  no ledger entry is written and the author's available points grow by what was frozen.
\<close>

theorem cancel_releases_points:
  assumes "reachable s" and "CancelBeforeFirstFragment now rid s = Some (s', done')"
  shows "case mget (requests s) rid of
      None \<Rightarrow> \<not> done' \<and> s' = s
    | Some r \<Rightarrow>
        if isTerminal (Status r) \<or> mget0 (fragments s) rid \<noteq> [] then \<not> done' \<and> s' = s
        else done' \<and> rid \<notin> set (queue s') \<and> ledger s' = ledger s \<and>
          (\<exists>r'. mget (requests s') rid = Some r' \<and> Status r' = StatusAbandoned \<and> FrozenPoints r' = 0) \<and>
          (\<forall>uid. Available (balanceLocked s' uid) = Available (balanceLocked s uid)
             + (if RequesterID r = uid then FrozenPoints r else 0))"
proof (cases "mget (requests s) rid")
  case (Some r)
  note wf = reachable_wf [OF assms(1)]
  note rf = request_facts [OF wf Some]
  show ?thesis
  proof (cases "isTerminal (Status r) \<or> mget0 (fragments s) rid \<noteq> []")
    case False
    then have a: "abandonLocked r now s = Some s'" and d: "done'"
      using assms(2) Some by (auto simp: CancelBeforeFirstFragment_def split: Option.bind_splits)
    note f = abandon_fields [OF a]
    have "0 \<le> FrozenPoints r" using rf(3) by (simp add: req_inv_def QuestionCost_def)
    then have "heldOf uid r = (if RequesterID r = uid then FrozenPoints r else 0)" for uid
      using False by (simp add: heldOf_def)
    then have "Available (balanceLocked s' uid) = Available (balanceLocked s uid)
        + (if RequesterID r = uid then FrozenPoints r else 0)" for uid
      using f(1,2) rf(1) Some mwf_requests [OF wf]
      by (simp add: balanceLocked_def Let_def msum_mput_old heldOf_def)
    then show ?thesis using Some False d f rf(1) by simp
  qed (use Some assms(2) in \<open>auto simp: CancelBeforeFirstFragment_def\<close>)
qed (use assms(2) in \<open>simp add: CancelBeforeFirstFragment_def\<close>)

theorem cancel_releases_points_witness:
  "\<exists>s'. CancelBeforeFirstFragment 350 reqA demo4 = Some (s', True) \<and> reqA \<notin> set (queue s')"
proof -
  obtain s' b where c: "CancelBeforeFirstFragment 350 reqA demo4 = Some (s', b)"
    using Cancel_evolve [OF reachable_svc_inv [OF reachable_demo4]] by blast
  have "case mget (requests demo4) reqA of None \<Rightarrow> False
    | Some r \<Rightarrow> \<not> (isTerminal (Status r) \<or> mget0 (fragments demo4) reqA \<noteq> [])" by code_simp
  then show ?thesis
    using cancel_releases_points [OF reachable_demo4 c] c by (auto split: option.splits)
qed

section \<open>Reactions\<close>

lemma ledger_reacted:
  "ledgerTotal uid (ledger (reactedState e now x r s)) = ledgerTotal uid (ledger s) +
     (if \<not> ResponderGuest r \<and> ResponderUserID r \<noteq> [] \<and> ResponderUserID r = uid
      then rewardFor x - rewardFor (ReqReaction r) else 0)"
  by (simp add: reactedState_def)

text \<open>
  Only the last reaction counts. If the author of a question reacts twice to the answer, a
  registered responder's total ends at what the last reaction alone would have given, a repeated
  reaction writes no ledger entry, and nobody else's total changes.
\<close>

theorem last_reaction_counts:
  assumes "reachable s" and "mget (requests s) rid = Some r"
    and "React e now t1 tok rid x s = ok s1 b1" and "React e' now' t2 tok' rid y s1 = ok s2 b2"
  shows "ledgerTotal uid (ledger s2) = ledgerTotal uid (ledger s) +
      (if \<not> ResponderGuest r \<and> ResponderUserID r \<noteq> [] \<and> ResponderUserID r = uid
       then rewardFor y - rewardFor (ReqReaction r) else 0) \<and>
    (x = y \<longrightarrow> ledger s2 = ledger s1)"
proof -
  have id: "ReqID r = rid" using request_facts(1) [OF reachable_wf [OF assms(1)] assms(2)] .
  have s1: "s1 = reactedState e t1 x r s"
    using assms(2,3) by (auto simp: React_eq split: if_splits option.splits)
  then have "mget (requests s1) rid = Some (r\<lparr>ReqReaction := x\<rparr>)"
    using id by (simp add: reactedState_def)
  then have s2: "s2 = reactedState e' t2 y (r\<lparr>ReqReaction := x\<rparr>) s1"
    using assms(4) by (auto simp: React_eq split: if_splits option.splits)
  show ?thesis by (simp add: ledger_reacted s1 s2) (simp add: reactedState_def)
qed

theorem last_reaction_counts_witness:
  "\<exists>s2 b2. React (ent CHR ''t'' 0) 800 800 annTok reqA ReactionDislike demo8 = ok s2 b2 \<and>
     ledgerTotal bobID (ledger s2) = ledgerTotal bobID (ledger demo7) - 2"
proof -
  have "case React (ent CHR ''r'' 0) 700 700 annTok reqA ReactionLike demo7 of
      Some (_, Inr v) \<Rightarrow> True | _ \<Rightarrow> False" by code_simp
  from outcome_ok [OF this] obtain b1 where
    one: "React (ent CHR ''r'' 0) 700 700 annTok reqA ReactionLike demo7 = ok demo8 b1"
    by (auto simp: demo8_def)
  have "case React (ent CHR ''t'' 0) 800 800 annTok reqA ReactionDislike demo8 of
      Some (_, Inr v) \<Rightarrow> True | _ \<Rightarrow> False" by code_simp
  from outcome_ok [OF this] obtain s2 b2 where
    two: "React (ent CHR ''t'' 0) 800 800 annTok reqA ReactionDislike demo8 = ok s2 b2" by blast
  have "case mget (requests demo7) reqA of None \<Rightarrow> False | Some r \<Rightarrow> \<not> ResponderGuest r \<and>
      ResponderUserID r \<noteq> [] \<and> ResponderUserID r = bobID \<and> ReqReaction r = ReactionNone" by code_simp
  then obtain r where "mget (requests demo7) reqA = Some r" "\<not> ResponderGuest r"
    "ResponderUserID r \<noteq> []" "ResponderUserID r = bobID" "ReqReaction r = ReactionNone"
    by (auto split: option.splits)
  then show ?thesis
    using last_reaction_counts [OF reachable_demo7 _ one two, of r bobID] two
    by (simp add: rewardFor_def BaseAnswerReward_def)
qed

text \<open>
  The balance that a reaction returns. A registered author who reacts to the answer of a
  registered responder is sent the responder's balance, not the author's own.
\<close>

theorem react_returns_responder_balance:
  assumes "mget (sessionsByTok s) tok = Some ses" and "\<not> Guest ses"
    and "mget (requests s) rid = Some r" and "\<not> ResponderGuest r" and "ResponderUserID r \<noteq> []"
    and "React e now now' tok rid x s = ok s' b"
  shows "b = balanceLocked s' (ResponderUserID r)"
  using assms by (auto simp: React_eq split: if_splits)

theorem react_returns_responder_balance_witness:
  "\<exists>b. React (ent CHR ''r'' 0) 700 700 annTok reqA ReactionLike demo7 = ok demo8 b \<and>
     b = balanceLocked demo8 bobID \<and> b \<noteq> balanceLocked demo8 annID"
proof -
  have "case React (ent CHR ''r'' 0) 700 700 annTok reqA ReactionLike demo7 of
      Some (_, Inr v) \<Rightarrow> True | _ \<Rightarrow> False" by code_simp
  from outcome_ok [OF this] obtain b where
    one: "React (ent CHR ''r'' 0) 700 700 annTok reqA ReactionLike demo7 = ok demo8 b"
    by (auto simp: demo8_def)
  have "case mget (requests demo7) reqA of None \<Rightarrow> False | Some r \<Rightarrow> \<not> ResponderGuest r \<and>
      ResponderUserID r \<noteq> [] \<and> ResponderUserID r = bobID" by code_simp
  then obtain r where r: "mget (requests demo7) reqA = Some r" "\<not> ResponderGuest r"
    "ResponderUserID r \<noteq> []" "ResponderUserID r = bobID" by (auto split: option.splits)
  have "case mget (sessionsByTok demo7) annTok of None \<Rightarrow> False | Some ses \<Rightarrow> \<not> Guest ses" by code_simp
  then obtain ses where "mget (sessionsByTok demo7) annTok = Some ses" "\<not> Guest ses"
    by (auto split: option.splits)
  then have "b = balanceLocked demo8 bobID"
    using react_returns_responder_balance [OF _ _ r(1,2,3) one] r(4) by simp
  moreover have "balanceLocked demo8 bobID \<noteq> balanceLocked demo8 annID" by code_simp
  ultimately show ?thesis using one by blast
qed

end
