(* ===== verification/StoreProps.thy ===== *)
theory StoreProps
  imports Scenario CoreFrames
begin

text \<open>
  Properties of accounts, the public board and saved conversations.
\<close>

section \<open>Accounts\<close>

text \<open>
  C25: Registering and logging in. After a successful registration the same account name (with any
  surrounding white space) and password log in, as the same user, provided the password check
  accepts what the hash function made; a second registration of the name is refused.
\<close>

theorem register_then_login:
  assumes "\<And>p h. gen p = Some h \<Longrightarrow> cmp h p"
    and "Register gen rnd now acc nick pw pw s = ok s' a"
    and "TrimSpace acc' = TrimSpace acc"
  shows "\<exists>s'' b. Login cmp rnd' now' acc' pw s' = ok s'' b \<and>
      DtoID (AuthUser b) = DtoID (AuthUser a) \<and> DtoAccountName (AuthUser b) = TrimSpace acc \<and>
      Register gen rnd'' now'' acc' nick pw pw s' = fail s' ErrAccountExists"
proof -
  let ?a = "TrimSpace acc" and ?n = "TrimSpace nick" and ?uid = "newID ''usr'' (rnd 0)"
  obtain hash where g: "?a \<noteq> []" "?n \<noteq> []" "pw \<noteq> []" "gen pw = Some hash"
    "mget (usersByAccount s) ?a = None"
    using assms(2) by (auto simp: Register_def Let_def split: if_splits option.splits)
  let ?u = "\<lparr>UsrID = ?uid, AccountName = ?a, UsrNickname = ?n, PasswordHash = hash, UsrCreatedAt = now\<rparr>"
  have s': "mget (users s') ?uid = Some ?u" "mget (usersByAccount s') ?a = Some ?uid"
    and a: "DtoID (AuthUser a) = ?uid"
    using assms(2) g
    by (auto simp: Register_def Let_def createSessionLocked_def authResultLocked_def
        addLedgerLocked_def split: Option.bind_splits)
  have "cmp hash pw" by (rule assms(1) [OF g(4)])
  then show ?thesis using s' a g assms(3)
    by (auto simp: Login_def Register_def createSessionLocked_def authResultLocked_def Let_def)
qed

theorem register_then_login_witness:
  "\<exists>s'' b. Login (=) (ent CHR ''l'') 150 '' ann'' ''pw'' demo1 = ok s'' b \<and>
     DtoAccountName (AuthUser b) = ''ann''"
proof -
  have "case Register Some (ent CHR ''a'') 100 ''ann'' ''Ann'' ''pw'' ''pw'' NewService of
      Some (_, Inr v) \<Rightarrow> True | _ \<Rightarrow> False" by code_simp
  from outcome_ok [OF this] obtain a where
    r: "Register Some (ent CHR ''a'') 100 ''ann'' ''Ann'' ''pw'' ''pw'' NewService = ok demo1 a"
    by (auto simp: demo1_def)
  have f: "TrimSpace '' ann'' = TrimSpace ''ann''" "TrimSpace ''ann'' = ''ann''" by code_simp+
  show ?thesis
    using register_then_login [where gen = Some and cmp = "(=)" and rnd = "ent CHR ''a''" and
        rnd' = "ent CHR ''l''" and acc' = "'' ann''" and now' = 150 and
        rnd'' = "ent CHR ''x''" and now'' = 0, OF _ r f(1)] f(2) by auto
qed

section \<open>The public board\<close>



section \<open>Conversations\<close>

text \<open>
  C23: In every reachable state the messages of a saved conversation are numbered 1, 2, 3, ...
  without gaps, messages exist only for existing conversations, and every conversation has a
  non-empty title of at most 80 characters and exactly one kind of owner.
\<close>

theorem conversations_numbered:
  assumes "reachable s"
  shows "map Seq (mget0 (convMessages s) cid) = [1..<length (mget0 (convMessages s) cid) + 1] \<and>
    (mget0 (convMessages s) cid \<noteq> [] \<longrightarrow> mget (conversations s) cid \<noteq> None) \<and>
    (\<forall>c. mget (conversations s) cid = Some c \<longrightarrow> CnvID c = cid \<and> Title c \<noteq> [] \<and>
       RuneCountInString (Title c) \<le> 80 \<and> (OwnerUserID c = [] \<longleftrightarrow> GuestSessionID c \<noteq> []))"
  using reachable_conv_inv [OF assms] by (simp add: conv_inv_def numbered_def conv_ok_def)

definition cnvA :: string where "cnvA = newID ''cnv'' (ent CHR ''c'' 0)"

definition demo9 :: service where
  "demo9 = fst (AppendConversationMessage (ent CHR ''m'' 0) 900 annTok cnvA ''user'' ''why?'' ''human'' reqA
     (fst (CreateConversation (ent CHR ''c'' 0) 850 annTok ''chat'' demo8)))"

lemma reachable_demo9: "reachable demo9"
proof -
  have "mget (conversations demo8) (newID ''cnv'' (ent CHR ''c'' 0)) = None" by code_simp
  then have "reachable (fst (CreateConversation (ent CHR ''c'' 0) 850 annTok ''chat'' demo8))"
    using reachable_step [OF reachable_demo8] svc_step.conversation conv_step.create by blast
  then show ?thesis unfolding demo9_def
    using reachable_step svc_step.conversation conv_step.append by blast
qed

theorem conversations_numbered_witness:
  "\<exists>c. mget (conversations demo9) cnvA = Some c \<and> CnvID c = cnvA \<and>
     map Seq (mget0 (convMessages demo9) cnvA) = [1]"
proof -
  have "mget (conversations demo9) cnvA \<noteq> None" by code_simp
  moreover have "length (mget0 (convMessages demo9) cnvA) = 1" by code_simp
  ultimately show ?thesis using conversations_numbered [OF reachable_demo9, of cnvA] by auto
qed



end
