(* ===== verification/Chunking.thy ===== *)
theory Chunking
  imports GoStrings
begin

text \<open>
  Splitting an answer into fragments: \<open>chunkRunes\<close> of the persona manager and
  \<open>splitFallbackChunk\<close> of the fallback responder. Both cut a rune slice into pieces of bounded
  length; the contract their callers rely on is the locale \<open>chunker\<close>, interpreted on both.
\<close>

section \<open>The contract\<close>

locale chunker =
  fixes split :: "string \<Rightarrow> int \<Rightarrow> string list"
    and dflt :: int
  assumes split_concat: "concat (split t n) = string_of_runes (runes t)"
    and split_nonempty: "c \<in> set (split t n) \<Longrightarrow> c \<noteq> []"
    and split_size: "c \<in> set (split t n) \<Longrightarrow>
      int (RuneCountInString c) \<le> (if n \<le> 0 then dflt else n)"
    and split_valid: "c \<in> set (split t n) \<Longrightarrow> valid_utf8 c"
begin

lemma lossless: "valid_utf8 t \<Longrightarrow> concat (split t n) = t"
  by (simp add: split_concat string_of_runes_runes)

lemma concat_valid_count:
  "(\<And>c. c \<in> set cs \<Longrightarrow> valid_utf8 c) \<Longrightarrow>
   RuneCountInString (concat cs) = sum_list (map RuneCountInString cs)"
  by (induction cs) (auto simp: RuneCount_append_valid)

lemma total_size: "sum_list (map RuneCountInString (split t n)) = RuneCountInString t"
  using concat_valid_count [of "split t n"] split_valid split_concat [of t n]
  by (simp add: length_runes)

lemma empty_iff: "split t n = [] \<longleftrightarrow> t = []"
proof
  assume "split t n = []"
  then have "RuneCountInString t = 0" using total_size [of t n] by simp
  then show "t = []" using RuneCount_pos [of t] by auto
next
  assume "t = []"
  then have "concat (split t n) = []" by (simp add: split_concat string_of_runes_def runes_def)
  then show "split t n = []" using split_nonempty [of _ t n] by (cases "split t n") auto
qed

end

section \<open>The two implementations\<close>

text \<open>The loop both functions share: \<open>for len(runes) > 0\<close> with a positive step.\<close>

function cutRunes :: "nat \<Rightarrow> nat list \<Rightarrow> string list" where
  "cutRunes sz rs =
     (if rs = [] \<or> sz = 0 then []
      else let n = min sz (length rs)
           in string_of_runes (take n rs) # cutRunes sz (drop n rs))"
  by pat_completeness auto
termination
  by (relation "measure (\<lambda>(sz, rs). length rs)") auto

declare cutRunes.simps [simp del]

definition chunkRunes :: "string \<Rightarrow> int \<Rightarrow> string list" where
  "chunkRunes text sz = cutRunes (nat (if sz \<le> 0 then 6 else sz)) (runes text)"

definition defaultFallbackMaxChunkRunes :: int where "defaultFallbackMaxChunkRunes = 5"

definition splitFallbackChunk :: "string \<Rightarrow> int \<Rightarrow> string list" where
  "splitFallbackChunk text maxRunes =
     (if text = [] then []
      else cutRunes (nat (if maxRunes \<le> 0 then defaultFallbackMaxChunkRunes else maxRunes)) (runes text))"

lemma concat_cutRunes: "0 < sz \<Longrightarrow> concat (cutRunes sz rs) = string_of_runes rs"
proof (induction sz rs rule: cutRunes.induct)
  case (1 sz rs)
  show ?case
  proof (cases "rs = []")
    case False
    let ?n = "min sz (length rs)"
    have "string_of_runes (take ?n rs) @ string_of_runes (drop ?n rs) = string_of_runes rs"
      by (simp add: string_of_runes_def flip: concat_append map_append)
    then show ?thesis
      using 1(1) [OF _ refl] 1(2) False by (subst cutRunes.simps) (simp add: Let_def)
  qed (subst cutRunes.simps, simp add: string_of_runes_def)
qed

lemma cutRunes_pieces:
  "c \<in> set (cutRunes sz rs) \<Longrightarrow> \<exists>p. c = string_of_runes p \<and> p \<noteq> [] \<and> length p \<le> sz"
proof (induction sz rs rule: cutRunes.induct)
  case (1 sz rs)
  then have ne: "rs \<noteq> []" "sz \<noteq> 0" by (auto simp: cutRunes.simps [of sz rs] split: if_splits)
  let ?n = "min sz (length rs)"
  have "c = string_of_runes (take ?n rs) \<or> c \<in> set (cutRunes sz (drop ?n rs))"
    using 1(2) ne by (subst (asm) cutRunes.simps) (simp add: Let_def)
  then show ?case
  proof
    assume c: "c = string_of_runes (take ?n rs)"
    show ?thesis by (rule exI [of _ "take ?n rs"]) (use c ne in auto)
  next
    assume "c \<in> set (cutRunes sz (drop ?n rs))"
    then show ?thesis using 1(1) ne by blast
  qed
qed

lemma string_of_runes_nonempty: "p \<noteq> [] \<Longrightarrow> string_of_runes p \<noteq> []"
  using RuneCount_string_of_runes [of p] by (cases "string_of_runes p") auto

lemma cutRunes_contract:
  assumes "0 < sz"
  shows "c \<in> set (cutRunes (nat sz) rs) \<Longrightarrow>
    c \<noteq> [] \<and> int (RuneCountInString c) \<le> sz \<and> valid_utf8 c"
  using cutRunes_pieces [of c "nat sz" rs] assms string_of_runes_nonempty by auto

lemma chunkRunes_contract:
  "c \<in> set (chunkRunes t n) \<Longrightarrow>
   c \<noteq> [] \<and> int (RuneCountInString c) \<le> (if n \<le> 0 then 6 else n) \<and> valid_utf8 c"
  using cutRunes_contract [of 6 c "runes t"] cutRunes_contract [of n c "runes t"]
  by (cases "n \<le> 0") (simp_all add: chunkRunes_def)

lemma splitFallbackChunk_contract:
  "c \<in> set (splitFallbackChunk t n) \<Longrightarrow>
   c \<noteq> [] \<and> int (RuneCountInString c) \<le> (if n \<le> 0 then defaultFallbackMaxChunkRunes else n) \<and>
   valid_utf8 c"
  using cutRunes_contract [of 5 c "runes t"] cutRunes_contract [of n c "runes t"]
  by (cases "n \<le> 0"; cases "t = []")
    (simp_all add: splitFallbackChunk_def defaultFallbackMaxChunkRunes_def)

interpretation persona_chunks: chunker chunkRunes 6
proof
  fix t n show "concat (chunkRunes t n) = string_of_runes (runes t)"
    by (simp add: chunkRunes_def concat_cutRunes)
qed (use chunkRunes_contract in blast)+

interpretation fallback_chunks: chunker splitFallbackChunk defaultFallbackMaxChunkRunes
proof
  fix t n show "concat (splitFallbackChunk t n) = string_of_runes (runes t)"
    by (simp add: splitFallbackChunk_def concat_cutRunes defaultFallbackMaxChunkRunes_def
        string_of_runes_def runes_def)
qed (use splitFallbackChunk_contract in blast)+

section \<open>Properties\<close>



end
