(* ===== verification/RateLimit.thy ===== *)
theory RateLimit
  imports GoStrings "HOL-Library.Sublist" Complex_Main
begin

text \<open>
  The per-client rate limiter of \<open>internal/httpapi/ratelimit.go\<close>: token buckets keyed by the
  client's address, and the derivation of that address from the proxy headers. The \<open>float64\<close>
  token counts and rates are rational numbers here: rounding is not modelled. Instants are
  nanoseconds, so \<open>Seconds()\<close> divides by \<open>10^9\<close>.
\<close>

section \<open>Token buckets\<close>

record tokenBucket =
  tokens :: rat
  last_seen :: time

record rateLimiter =
  buckets :: "(string, tokenBucket) gomap"
  ratePerSec :: rat
  burst :: rat

definition newRateLimiter :: "int \<Rightarrow> int \<Rightarrow> rateLimiter option" where
  "newRateLimiter perMin burst0 =
     (if perMin \<le> 0 then None
      else Some \<lparr>buckets = [], ratePerSec = of_int perMin / 60,
                 burst = of_int (if burst0 \<le> 0 then perMin else burst0)\<rparr>)"

definition seconds :: "duration \<Rightarrow> rat" where
  "seconds d = of_int d / of_int second"

definition sweepLocked :: "time \<Rightarrow> rateLimiter \<Rightarrow> rateLimiter" where
  "sweepLocked now rl =
     rl\<lparr>buckets := filter (\<lambda>(k, b). \<not> time_sub now (last_seen b) > 10 * 60 * second) (buckets rl)\<rparr>"

text \<open>\<open>allow\<close> at the instant \<open>now\<close>; the nil limiter (rate limiting disabled) is \<open>None\<close>.\<close>

definition allowLive :: "time \<Rightarrow> string \<Rightarrow> rateLimiter \<Rightarrow> rateLimiter \<times> bool" where
  "allowLive now key rl =
     (case mget (buckets rl) key of
        None \<Rightarrow>
          (let rl1 = (if length (buckets rl) > 20000 then sweepLocked now rl else rl)
           in (rl1\<lparr>buckets := mput key \<lparr>tokens = burst rl1 - 1, last_seen = now\<rparr> (buckets rl1)\<rparr>, True))
      | Some b \<Rightarrow>
          (let t1 = tokens b + seconds (time_sub now (last_seen b)) * ratePerSec rl;
               t2 = (if t1 > burst rl then burst rl else t1)
           in if t2 \<ge> 1
              then (rl\<lparr>buckets := mput key \<lparr>tokens = t2 - 1, last_seen = now\<rparr> (buckets rl)\<rparr>, True)
              else (rl\<lparr>buckets := mput key \<lparr>tokens = t2, last_seen = now\<rparr> (buckets rl)\<rparr>, False)))"

definition allow :: "time \<Rightarrow> string \<Rightarrow> rateLimiter option \<Rightarrow> rateLimiter option \<times> bool" where
  "allow now key limiter =
     (case limiter of
        None \<Rightarrow> (None, True)
      | Some rl \<Rightarrow> (let (rl', ok) = allowLive now key rl in (Some rl', ok)))"

text \<open>The middleware: POST requests are throttled, other methods pass.\<close>

definition rateLimited ::
  "time \<Rightarrow> string \<Rightarrow> string \<Rightarrow> rateLimiter option \<Rightarrow> rateLimiter option \<times> bool"
where
  "rateLimited now method ip limiter =
     (if method = ''POST'' then allow now ip limiter else (limiter, True))"

section \<open>The client address\<close>

text \<open>\<open>strings.Split(s, ",")\<close>.\<close>

fun splitComma :: "string \<Rightarrow> string list" where
  "splitComma [] = [[]]"
| "splitComma (c # cs) =
     (if c = CHR '','' then [] # splitComma cs
      else case splitComma cs of [] \<Rightarrow> [[c]] | p # ps \<Rightarrow> (c # p) # ps)"

text \<open>The host of \<open>net.SplitHostPort\<close>, \<open>None\<close> for its error.\<close>

fun indexByte :: "char \<Rightarrow> string \<Rightarrow> nat option" where
  "indexByte x [] = None"
| "indexByte x (c # cs) = (if c = x then Some 0 else map_option Suc (indexByte x cs))"

definition lastIndexByte :: "char \<Rightarrow> string \<Rightarrow> nat option" where
  "lastIndexByte x s = map_option (\<lambda>i. length s - Suc i) (indexByte x (rev s))"

definition SplitHostPort :: "string \<Rightarrow> string option" where
  "SplitHostPort hostport =
     (case lastIndexByte CHR '':'' hostport of
        None \<Rightarrow> None
      | Some i \<Rightarrow>
          if hd hostport = CHR ''['' then
            (case indexByte CHR '']'' hostport of
               None \<Rightarrow> None
             | Some e \<Rightarrow>
                 if e + 1 \<noteq> i then None
                 else if indexByte CHR ''['' (drop 1 hostport) \<noteq> None
                    \<or> indexByte CHR '']'' (drop (e + 1) hostport) \<noteq> None then None
                 else Some (drop 1 (take e hostport)))
          else
            let host = take i hostport in
            if indexByte CHR '':'' host \<noteq> None \<or> indexByte CHR ''['' hostport \<noteq> None
               \<or> indexByte CHR '']'' hostport \<noteq> None then None
            else Some host)"

definition clientIP :: "string \<Rightarrow> string \<Rightarrow> int \<Rightarrow> string" where
  "clientIP xff remoteAddr trustedHops =
     (let direct = (case SplitHostPort remoteAddr of Some host \<Rightarrow> host | None \<Rightarrow> remoteAddr) in
      if trustedHops > 0 \<and> xff \<noteq> [] then
        (let parts = splitComma xff;
             idx = int (length parts) - trustedHops;
             ip = TrimSpace (parts ! nat (if idx < 0 then 0 else idx))
         in if ip \<noteq> [] then ip else direct)
      else direct)"

section \<open>The limiter's bound\<close>

text \<open>The tokens a key could use at \<open>now\<close>: what its bucket holds after refilling.\<close>

definition potential :: "rateLimiter \<Rightarrow> string \<Rightarrow> time \<Rightarrow> rat" where
  "potential rl key now =
     (case mget (buckets rl) key of
        None \<Rightarrow> burst rl
      | Some b \<Rightarrow> min (burst rl) (tokens b + seconds (now - last_seen b) * ratePerSec rl))"

text \<open>
  \<open>lo\<close> is when the limiter started: as long as the clock has not moved by more than the range of
  a \<open>time.Duration\<close> (292 years) since, \<open>Sub\<close> does not saturate. The last condition of the second
  line makes a bucket that the sweep may drop (idle for ten minutes) a full one.
\<close>

definition limiter_ok :: "rateLimiter \<Rightarrow> time \<Rightarrow> time \<Rightarrow> bool" where
  "limiter_ok rl lo now \<longleftrightarrow> mwf (buckets rl) \<and> 0 \<le> ratePerSec rl \<and> 1 \<le> burst rl \<and>
     burst rl \<le> 600 * ratePerSec rl \<and> lo \<le> now \<and> now \<le> lo + maxDuration \<and>
     (\<forall>k b. mget (buckets rl) k = Some b \<longrightarrow> 0 \<le> tokens b \<and> lo \<le> last_seen b \<and> last_seen b \<le> now)"

lemma limiter_ok_later:
  "limiter_ok rl lo now \<Longrightarrow> now \<le> t \<Longrightarrow> t \<le> lo + maxDuration \<Longrightarrow> limiter_ok rl lo t"
  by (auto simp: limiter_ok_def intro: order_trans)

lemma time_sub_exact: "lo \<le> u \<Longrightarrow> u \<le> t \<Longrightarrow> t \<le> lo + maxDuration \<Longrightarrow> time_sub t u = t - u"
  by (simp add: time_sub_def minDuration_def maxDuration_def)

lemma seconds_mono: "d \<le> d' \<Longrightarrow> seconds d \<le> seconds d'"
  by (simp add: seconds_def second_def divide_right_mono)

lemma seconds_add: "seconds (d + d') = seconds d + seconds d'"
  by (simp add: seconds_def add_divide_distrib)

lemma seconds_nonneg: "0 \<le> d \<Longrightarrow> 0 \<le> seconds d"
  by (simp add: seconds_def second_def)

lemma potential_bounds:
  assumes "limiter_ok rl lo now"
  shows "0 \<le> potential rl key now" and "potential rl key now \<le> burst rl"
proof -
  show "potential rl key now \<le> burst rl" by (simp add: potential_def split: option.split)
  show "0 \<le> potential rl key now"
    using assms seconds_nonneg
    by (auto simp: potential_def limiter_ok_def split: option.split intro!: add_nonneg_nonneg)
qed

lemma potential_later:
  assumes ok: "limiter_ok rl lo now" and "now \<le> t"
  shows "potential rl key t \<le> potential rl key now + seconds (t - now) * ratePerSec rl"
proof (cases "mget (buckets rl) key")
  case None
  then show ?thesis using ok assms(2) by (simp add: potential_def seconds_nonneg limiter_ok_def)
next
  case (Some b)
  have rate: "0 \<le> seconds (t - now) * ratePerSec rl"
    using ok assms(2) by (simp add: limiter_ok_def seconds_nonneg)
  have "seconds (t - last_seen b) = seconds (now - last_seen b) + seconds (t - now)"
    using seconds_add [of "now - last_seen b" "t - now"] by simp
  then have "seconds (t - last_seen b) * ratePerSec rl =
      seconds (now - last_seen b) * ratePerSec rl + seconds (t - now) * ratePerSec rl"
    by (simp add: distrib_right)
  then show ?thesis using Some rate by (simp add: potential_def min_def)
qed

lemma mget_filter:
  "mwf m \<Longrightarrow> mget (filter P m) k = (case mget m k of None \<Rightarrow> None
     | Some v \<Rightarrow> if P (k, v) then Some v else None)"
  by (induction m) (auto simp: mget_def mwf_def mkeys_def map_of_eq_None_iff split: option.splits)

lemma mwf_filter: "mwf m \<Longrightarrow> mwf (filter P m)"
  by (simp add: mwf_def mkeys_def distinct_map_filter)

text \<open>The sweep drops only buckets that are full again.\<close>

lemma sweep_keeps:
  assumes ok: "limiter_ok rl lo now"
  shows "limiter_ok (sweepLocked now rl) lo now"
    and "potential (sweepLocked now rl) key now = potential rl key now"
proof -
  have m: "mwf (buckets rl)" using ok by (simp add: limiter_ok_def)
  show "limiter_ok (sweepLocked now rl) lo now"
    using ok m by (auto simp: limiter_ok_def sweepLocked_def mget_filter mwf_filter split: option.splits if_splits)
  show "potential (sweepLocked now rl) key now = potential rl key now"
  proof (cases "mget (buckets rl) key")
    case (Some b)
    have b: "0 \<le> tokens b" "time_sub now (last_seen b) = now - last_seen b"
      using ok Some time_sub_exact [of lo "last_seen b" now] by (auto simp: limiter_ok_def)
    have "burst rl \<le> tokens b + seconds (now - last_seen b) * ratePerSec rl"
      if "10 * 60 * second < now - last_seen b"
    proof -
      have "600 = seconds (10 * 60 * second)" by (simp add: seconds_def second_def)
      also have "\<dots> \<le> seconds (now - last_seen b)" using that by (intro seconds_mono) simp
      finally have "600 * ratePerSec rl \<le> seconds (now - last_seen b) * ratePerSec rl"
        using ok by (intro mult_right_mono) (auto simp: limiter_ok_def)
      then show ?thesis using ok b(1) unfolding limiter_ok_def by linarith
    qed
    then show ?thesis using Some m b(2) by (auto simp: potential_def sweepLocked_def mget_filter min_def)
  qed (use m in \<open>simp add: potential_def sweepLocked_def mget_filter\<close>)
qed

lemma potential_other:
  "key \<noteq> k \<Longrightarrow> potential (rl\<lparr>buckets := mput k b (buckets rl)\<rparr>) key now = potential rl key now"
  by (simp add: potential_def split: option.split)

lemma allow_step:
  assumes ok: "limiter_ok rl lo now" and al: "allowLive now k rl = (rl', res)"
  shows "limiter_ok rl' lo now" and "ratePerSec rl' = ratePerSec rl" and "burst rl' = burst rl"
    and "potential rl' key now = potential rl key now - (if key = k \<and> res then 1 else 0)"
proof -
  have "limiter_ok rl' lo now \<and> ratePerSec rl' = ratePerSec rl \<and> burst rl' = burst rl \<and>
    potential rl' key now = potential rl key now - (if key = k \<and> res then 1 else 0)"
  proof (cases "mget (buckets rl) k")
    case None
    define rl1 where "rl1 = (if length (buckets rl) > 20000 then sweepLocked now rl else rl)"
    have r: "rl' = rl1\<lparr>buckets := mput k \<lparr>tokens = burst rl1 - 1, last_seen = now\<rparr> (buckets rl1)\<rparr>" "res"
      using al None by (simp_all add: allowLive_def Let_def rl1_def)
    have ok1: "limiter_ok rl1 lo now" and p1: "potential rl1 key now = potential rl key now"
      using sweep_keeps [OF ok] ok by (simp_all add: rl1_def)
    have same: "ratePerSec rl1 = ratePerSec rl" "burst rl1 = burst rl"
      by (simp_all add: rl1_def sweepLocked_def)
    have "limiter_ok rl' lo now" using ok1 r(1) by (auto simp: limiter_ok_def)
    moreover have "potential rl k now = burst rl" using None by (simp add: potential_def)
    ultimately show ?thesis using p1 r same
      by (auto simp: potential_def seconds_def split: option.splits)
  next
    case (Some b)
    let ?t1 = "tokens b + seconds (time_sub now (last_seen b)) * ratePerSec rl"
    let ?t2 = "if ?t1 > burst rl then burst rl else ?t1"
    have b: "0 \<le> tokens b" "last_seen b \<le> now" "time_sub now (last_seen b) = now - last_seen b"
      using ok Some time_sub_exact [of lo "last_seen b" now] by (auto simp: limiter_ok_def)
    have pk: "potential rl k now = ?t2" using Some b(3) by (simp add: potential_def min_def)
    have pos: "0 \<le> ?t2" using potential_bounds(1) [OF ok, of k] pk by simp
    have r: "rl' = rl\<lparr>buckets := mput k \<lparr>tokens = (if ?t2 \<ge> 1 then ?t2 - 1 else ?t2),
        last_seen = now\<rparr> (buckets rl)\<rparr>" "res \<longleftrightarrow> ?t2 \<ge> 1"
      using al Some by (auto simp: allowLive_def Let_def split: if_splits)
    have ok': "limiter_ok rl' lo now" using ok r(1) pos by (auto simp: limiter_ok_def)
    have "potential rl' k now = ?t2 - (if res then 1 else 0)"
      using r by (auto simp: potential_def seconds_def min_def)
    moreover have "potential rl' key now = potential rl key now" if "key \<noteq> k"
      unfolding r(1) by (rule potential_other [OF that])
    ultimately show ?thesis using r(1) pk ok' by (cases "key = k") simp_all
  qed
  then show "limiter_ok rl' lo now" "ratePerSec rl' = ratePerSec rl" "burst rl' = burst rl"
    "potential rl' key now = potential rl key now - (if key = k \<and> res then 1 else 0)" by blast+
qed

text \<open>A run of calls, each with its instant and key; the count of those let through for \<open>key\<close>.\<close>

fun runCalls :: "(time \<times> string) list \<Rightarrow> rateLimiter \<Rightarrow> rateLimiter \<times> bool list" where
  "runCalls [] rl = (rl, [])"
| "runCalls ((t, k) # cs) rl =
     (let (rl1, ok) = allowLive t k rl; (rl2, oks) = runCalls cs rl1 in (rl2, ok # oks))"

definition passed :: "string \<Rightarrow> (time \<times> string) list \<Rightarrow> rateLimiter \<Rightarrow> nat" where
  "passed key cs rl = length (filter (\<lambda>((t, k), ok). k = key \<and> ok) (zip cs (snd (runCalls cs rl))))"

lemma passed_Cons:
  assumes "allowLive t k rl = (rl1, ok)"
  shows "passed key ((t, k) # cs) rl = (if k = key \<and> ok then 1 else 0) + passed key cs rl1"
  using assms by (auto simp: passed_def Let_def split: prod.split)

lemma passed_bound:
  assumes "limiter_ok rl lo now" and "sorted (now # map fst cs)"
    and "\<forall>c \<in> set cs. fst c \<le> lo + maxDuration"
  shows "of_nat (passed key cs rl) \<le>
    potential rl key now + seconds (last (now # map fst cs) - now) * ratePerSec rl"
  using assms
proof (induction cs arbitrary: rl now)
  case Nil
  then show ?case using potential_bounds(1) [OF Nil(1)] by (simp add: passed_def seconds_def)
next
  case (Cons c cs)
  obtain t k where c: "c = (t, k)" by (cases c)
  obtain rl1 ok where al: "allowLive t k rl = (rl1, ok)" by (cases "allowLive t k rl")
  have t: "now \<le> t" "t \<le> lo + maxDuration" using Cons.prems c by auto
  have okt: "limiter_ok rl lo t" by (rule limiter_ok_later [OF Cons.prems(1) t])
  note st = allow_step [OF okt al]
  let ?L = "last (t # map fst cs)"
  have "seconds (?L - now) = seconds (?L - t) + seconds (t - now)"
    using seconds_add [of "?L - t" "t - now"] by simp
  then have dist: "seconds (?L - now) * ratePerSec rl =
      seconds (?L - t) * ratePerSec rl + seconds (t - now) * ratePerSec rl"
    by (simp add: distrib_right)
  have ih: "of_nat (passed key cs rl1) \<le> potential rl1 key t + seconds (?L - t) * ratePerSec rl"
    using Cons.IH [OF st(1)] Cons.prems c st(2) by auto
  have later: "potential rl key t \<le> potential rl key now + seconds (t - now) * ratePerSec rl"
    by (rule potential_later [OF Cons.prems(1) t(1)])
  have one: "of_nat (passed key (c # cs) rl) =
      (if key = k \<and> ok then 1 else 0) + rat_of_nat (passed key cs rl1)"
    using passed_Cons [OF al, of key cs] c by auto
  have "of_nat (passed key (c # cs) rl) \<le> potential rl key now + seconds (?L - now) * ratePerSec rl"
    using ih later one dist st(4) [of key] by linarith
  then show ?case using c by simp
qed

section \<open>Properties\<close>



lemma splitComma_nonempty: "splitComma s \<noteq> []"
  by (induction s) (auto split: list.split)

lemma splitComma_append: "splitComma (a @ CHR '','' # b) = splitComma a @ splitComma b"
  by (induction a) (auto split: list.splits simp: splitComma_nonempty)

text \<open>
  C27: A client cannot choose the address it is limited under. Whatever a client puts in front of
  the \<open>X-Forwarded-For\<close> entries that the trusted proxies append, the address derived is the same.
\<close>

theorem client_ip_not_spoofable:
  assumes "0 < hops" and "hops \<le> int (length (splitComma genuine))"
  shows "clientIP (fake @ CHR '','' # genuine) remote hops = clientIP genuine remote hops"
proof -
  let ?f = "length (splitComma fake)" and ?r = "length (splitComma genuine)"
  have idx: "nat (int (?f + ?r) - hops) = ?f + nat (int ?r - hops)" using assms by simp
  have "(splitComma fake @ splitComma genuine) ! (?f + nat (int ?r - hops)) =
      splitComma genuine ! nat (int ?r - hops)" by (simp add: nth_append)
  then have same: "splitComma (fake @ CHR '','' # genuine) ! nat (int (?f + ?r) - hops) =
      splitComma genuine ! nat (int ?r - hops)" by (simp only: splitComma_append idx)
  show ?thesis
  proof (cases "genuine = []")
    case True
    then have "hops = 1" using assms by simp
    then show ?thesis using True same by (simp add: clientIP_def Let_def splitComma_append)
  next
    case False
    then show ?thesis using assms same
      by (simp add: clientIP_def Let_def splitComma_append)
  qed
qed

theorem client_ip_not_spoofable_witness:
  "clientIP (''6.6.6.6'' @ CHR '','' # ''10.0.0.7'') ''proxy'' 1 =
   clientIP ''10.0.0.7'' ''proxy'' 1"
  by (rule client_ip_not_spoofable) simp_all

end
