(* ===== verification/GoParse.thy ===== *)
theory GoParse
  imports GoStrings "HOL-Library.Sublist"
begin

text \<open>
  More of the Go library, as the HTTP layer uses it: \<open>strconv.ParseInt\<close> and \<open>Atoi\<close>, ASCII case
  folding, \<open>strings.TrimSuffix\<close> and \<open>CutSuffix\<close>, \<open>path.Clean\<close> and \<open>filepath.Join\<close>, and the part
  of \<open>encoding/json\<close> that stores a parsed document in a struct. The text of a document is not
  parsed here: a body is given by its first JSON value, and objects repeat no key.
\<close>

section \<open>Strings\<close>

definition TrimPrefix :: "string \<Rightarrow> string \<Rightarrow> string" where
  "TrimPrefix s pre = (if HasPrefix s pre then drop (length pre) s else s)"

definition TrimSuffix :: "string \<Rightarrow> string \<Rightarrow> string" where
  "TrimSuffix s suf = (if HasSuffix s suf then take (length s - length suf) s else s)"

definition CutSuffix :: "string \<Rightarrow> string \<Rightarrow> string \<times> bool" where
  "CutSuffix s suf = (if HasSuffix s suf then (take (length s - length suf) s, True) else (s, False))"

text \<open>
  \<open>strings.ToLower\<close> on ASCII letters. The sources compare its result with ASCII texts without
  \<open>i\<close> and \<open>k\<close>, the only ASCII letters that are the lower case of another character.
\<close>

definition lowerByte :: "char \<Rightarrow> char" where
  "lowerByte c = (if 65 \<le> byte c \<and> byte c \<le> 90 then char_of (byte c + 32) else c)"

definition ToLower :: "string \<Rightarrow> string" where
  "ToLower s = map lowerByte s"

section \<open>Numbers\<close>

definition maxInt64 :: int where "maxInt64 = 2 ^ 63 - 1"
definition minInt64 :: int where "minInt64 = - (2 ^ 63)"

definition isDigit :: "char \<Rightarrow> bool" where
  "isDigit c \<longleftrightarrow> 48 \<le> byte c \<and> byte c \<le> 57"

text \<open>\<open>strconv.ParseInt(s, 10, 64)\<close>, which is also \<open>Atoi\<close>; \<open>None\<close> for its errors.\<close>

definition ParseInt :: "string \<Rightarrow> int option" where
  "ParseInt s =
     (let neg = HasPrefix s ''-'';
          ds = (if neg \<or> HasPrefix s ''+'' then drop 1 s else s)
      in if ds = [] \<or> \<not> list_all isDigit ds then None
         else let n = (if neg then - int (digits_value ds) else int (digits_value ds))
              in if n < minInt64 \<or> n > maxInt64 then None else Some n)"

abbreviation Atoi :: "string \<Rightarrow> int option" where
  "Atoi \<equiv> ParseInt"

lemma ParseInt_range: "ParseInt s = Some n \<Longrightarrow> minInt64 \<le> n \<and> n \<le> maxInt64"
  by (auto simp: ParseInt_def Let_def split: if_splits)

lemma list_all_digits_itoa: "list_all isDigit (itoa_nat n)"
  using itoa_nat_digits by (auto simp: list_all_iff isDigit_def)

lemma itoa_nat_no_sign: "\<not> HasPrefix (itoa_nat n) ''-''" "\<not> HasPrefix (itoa_nat n) ''+''"
proof -
  have d: "48 \<le> byte (hd (itoa_nat n))" using itoa_nat_digits [of "hd (itoa_nat n)" n] by simp
  show "\<not> HasPrefix (itoa_nat n) ''-''" "\<not> HasPrefix (itoa_nat n) ''+''"
    using d by (cases "itoa_nat n"; auto simp: HasPrefix_def byte_def)+
qed

lemma ParseInt_itoa: "minInt64 \<le> n \<Longrightarrow> n \<le> maxInt64 \<Longrightarrow> ParseInt (itoa n) = Some n"
  using itoa_nat_no_sign list_all_digits_itoa
  by (auto simp: ParseInt_def itoa_def Let_def digits_value_itoa_nat HasPrefix_def)

section \<open>Paths\<close>

text \<open>\<open>splitSlash\<close> is \<open>strings.Split(s, "/")\<close>.\<close>

fun splitSlash :: "string \<Rightarrow> string list" where
  "splitSlash [] = [[]]"
| "splitSlash (c # cs) =
     (if c = CHR ''/'' then [] # splitSlash cs
      else case splitSlash cs of [] \<Rightarrow> [[c]] | p # ps \<Rightarrow> (c # p) # ps)"

fun joinSlash :: "string list \<Rightarrow> string" where
  "joinSlash [] = []"
| "joinSlash [p] = p"
| "joinSlash (p # ps) = p @ ''/'' @ joinSlash ps"

text \<open>
  The elements of a cleaned path, last one first: empty elements and \<open>.\<close> vanish, \<open>..\<close> removes the
  element before it, and at the start is dropped in a rooted path and kept in a relative one.
\<close>

definition cleanStep :: "bool \<Rightarrow> string list \<Rightarrow> string \<Rightarrow> string list" where
  "cleanStep rooted acc e =
     (if e = [] \<or> e = ''.'' then acc
      else if e = ''..'' then
        (case acc of
           [] \<Rightarrow> if rooted then [] else [''..'']
         | a # as \<Rightarrow> if a = ''..'' then ''..'' # acc else as)
      else e # acc)"

fun cleanElems :: "bool \<Rightarrow> string list \<Rightarrow> string list \<Rightarrow> string list" where
  "cleanElems rooted acc [] = acc"
| "cleanElems rooted acc (e # es) = cleanElems rooted (cleanStep rooted acc e) es"

definition pathElems :: "string \<Rightarrow> string list" where
  "pathElems p = rev (cleanElems (HasPrefix p ''/'') [] (splitSlash p))"

text \<open>\<open>path.Clean\<close>, and \<open>filepath.Join\<close> of two elements.\<close>

definition Clean :: "string \<Rightarrow> string" where
  "Clean p =
     (if HasPrefix p ''/'' then ''/'' @ joinSlash (pathElems p)
      else if pathElems p = [] then ''.'' else joinSlash (pathElems p))"

definition Join :: "string \<Rightarrow> string \<Rightarrow> string" where
  "Join a b = (if a = [] then (if b = [] then [] else Clean b) else Clean (a @ ''/'' @ b))"

subsection \<open>Laws of cleaned paths\<close>

lemma splitSlash_nonempty [simp]: "splitSlash s \<noteq> []"
  by (induction s) (auto split: list.split)

lemma splitSlash_append: "splitSlash (a @ CHR ''/'' # b) = splitSlash a @ splitSlash b"
  by (induction a) (auto split: list.splits)

lemma splitSlash_no_slash: "e \<in> set (splitSlash s) \<Longrightarrow> CHR ''/'' \<notin> set e"
  by (induction s arbitrary: e) (auto split: list.splits if_splits)

lemma splitSlash_single: "CHR ''/'' \<notin> set e \<Longrightarrow> splitSlash e = [e]"
  by (induction e) auto

lemma splitSlash_joinSlash:
  "es \<noteq> [] \<Longrightarrow> \<forall>e \<in> set es. CHR ''/'' \<notin> set e \<Longrightarrow> splitSlash (joinSlash es) = es"
  by (induction es rule: joinSlash.induct) (auto simp: splitSlash_single splitSlash_append)

definition plainElem :: "string \<Rightarrow> bool" where
  "plainElem e \<longleftrightarrow> e \<noteq> [] \<and> e \<noteq> ''.''"

text \<open>Without \<open>..\<close>, cleaning only drops the empty elements and the dots.\<close>

lemma cleanElems_plain:
  "''..'' \<notin> set es \<Longrightarrow> cleanElems rooted acc es = rev (filter plainElem es) @ acc"
  by (induction es arbitrary: acc) (auto simp: plainElem_def cleanStep_def)

lemma cleanElems_append:
  "cleanElems rooted acc (as @ bs) = cleanElems rooted (cleanElems rooted acc as) bs"
  by (induction as arbitrary: acc) simp_all

text \<open>The elements of a cleaned path: plain ones after leading \<open>..\<close>, none of those if it is rooted.\<close>

definition cleaned :: "bool \<Rightarrow> string list \<Rightarrow> bool" where
  "cleaned rooted acc \<longleftrightarrow> (\<exists>k plain. acc = plain @ replicate k ''..'' \<and> (rooted \<longrightarrow> k = 0) \<and>
     (\<forall>e \<in> set plain. plainElem e \<and> e \<noteq> ''..'' \<and> CHR ''/'' \<notin> set e))"

lemma cleaned_Cons: "cleaned rooted acc \<Longrightarrow> plainElem e \<Longrightarrow> e \<noteq> ''..'' \<Longrightarrow> CHR ''/'' \<notin> set e \<Longrightarrow> cleaned rooted (e # acc)"
  unfolding cleaned_def by (metis append_Cons set_ConsD)

lemma cleaned_up:
  "cleaned rooted (a # as) \<Longrightarrow> if a = ''..'' then cleaned rooted (''..'' # a # as) else cleaned rooted as"
proof -
  assume "cleaned rooted (a # as)"
  then obtain k plain where *: "a # as = plain @ replicate k ''..''" "rooted \<longrightarrow> k = 0"
    "\<forall>e \<in> set plain. plainElem e \<and> e \<noteq> ''..'' \<and> CHR ''/'' \<notin> set e" by (auto simp: cleaned_def)
  show ?thesis
  proof (cases plain)
    case Nil
    then have "''..'' # a # as = [] @ replicate (Suc k) ''..''" "a = ''..''" "\<not> rooted"
      using *(1,2) by (cases k; simp)+
    then show ?thesis unfolding cleaned_def by (metis empty_iff empty_set)
  next
    case (Cons b bs)
    then have "a = b" "as = bs @ replicate k ''..''" using *(1) by auto
    then show ?thesis using * Cons unfolding cleaned_def by auto
  qed
qed

lemma cleanStep_cleaned:
  assumes "cleaned rooted acc" and "CHR ''/'' \<notin> set e"
  shows "cleaned rooted (cleanStep rooted acc e)"
proof -
  have one: "cleaned False [''..'']"
    unfolding cleaned_def by (rule exI [of _ 1], rule exI [of _ "[]"]) simp
  have none: "cleaned True []" by (simp add: cleaned_def)
  show ?thesis
  proof (cases "e = [] \<or> e = ''.'' \<or> e = ''..''")
    case True
    show ?thesis
    proof (cases acc)
      case Nil
      then show ?thesis using True assms(1) one none by (auto simp: cleanStep_def)
    next
      case (Cons a as)
      then show ?thesis
        using True assms(1) cleaned_up [of rooted a as] by (simp add: cleanStep_def split: if_splits) auto
    qed
  next
    case False
    then have "cleanStep rooted acc e = e # acc" by (simp add: cleanStep_def)
    then show ?thesis using cleaned_Cons [OF assms(1)] False assms(2) by (simp add: plainElem_def)
  qed
qed

lemma cleanElems_cleaned:
  "cleaned rooted acc \<Longrightarrow> \<forall>e \<in> set es. CHR ''/'' \<notin> set e \<Longrightarrow> cleaned rooted (cleanElems rooted acc es)"
  by (induction es arbitrary: acc) (simp_all add: cleanStep_cleaned)

lemma cleanElems_dots: "cleanElems False (replicate j ''..'') (replicate k ''..'' @ es) =
    cleanElems False (replicate (j + k) ''..'') es"
proof (induction k arbitrary: j)
  case (Suc k)
  show ?case using Suc [of "Suc j"] by (cases j) (simp_all add: cleanStep_def)
qed simp

lemma cleanElems_again:
  assumes "cleaned rooted acc"
  shows "cleanElems rooted [] (rev acc) = acc"
proof -
  obtain k plain where *: "acc = plain @ replicate k ''..''" "rooted \<longrightarrow> k = 0"
    "\<forall>e \<in> set plain. plainElem e \<and> e \<noteq> ''..'' \<and> CHR ''/'' \<notin> set e" using assms by (auto simp: cleaned_def)
  have "filter plainElem plain = plain" "''..'' \<notin> set (rev plain)" using *(3) by (auto simp: filter_id_conv)
  then have plain: "cleanElems rooted as (rev plain) = plain @ as" for as
    using cleanElems_plain [of "rev plain" rooted as] by (simp add: rev_filter)
  show ?thesis
  proof (cases rooted)
    case False
    then show ?thesis using * plain cleanElems_dots [of 0 k "rev plain"] by simp
  qed (use * plain in simp)
qed

lemma cleaned_elems:
  assumes "cleaned rooted acc" and "e \<in> set acc"
  shows "e \<noteq> [] \<and> e \<noteq> ''.'' \<and> CHR ''/'' \<notin> set e"
proof -
  obtain k plain where *: "acc = plain @ replicate k ''..''"
    "\<forall>e \<in> set plain. plainElem e \<and> e \<noteq> ''..'' \<and> CHR ''/'' \<notin> set e" using assms(1) unfolding cleaned_def by blast
  have "e \<in> set plain \<or> e = ''..''" using assms(2) *(1) by (cases k) auto
  then show ?thesis
  proof
    assume "e \<in> set plain"
    then show ?thesis using *(2) by (simp add: plainElem_def)
  qed simp
qed

lemma pathElems_cleaned: "cleaned (HasPrefix p ''/'') (rev (pathElems p))"
  unfolding pathElems_def rev_rev_ident
  by (rule cleanElems_cleaned) (auto simp: cleaned_def dest: splitSlash_no_slash)

lemma HasPrefix_slash: "HasPrefix p ''/'' \<longleftrightarrow> (\<exists>q. p = CHR ''/'' # q)"
  by (cases p) (auto simp: HasPrefix_def)

lemma joinSlash_not_rooted:
  assumes "\<forall>e \<in> set es. e \<noteq> [] \<and> CHR ''/'' \<notin> set e"
  shows "\<not> HasPrefix (joinSlash es) ''/''"
  using assms by (induction es rule: joinSlash.induct) (auto simp: HasPrefix_slash append_eq_Cons_conv)

text \<open>Cleaning a path does not change its elements.\<close>

lemma pathElems_Clean: "pathElems (Clean p) = pathElems p"
proof -
  let ?es = "pathElems p"
  note c = pathElems_cleaned [of p]
  have el: "\<forall>e \<in> set ?es. e \<noteq> [] \<and> CHR ''/'' \<notin> set e" using cleaned_elems [OF c] by auto
  have sp: "?es \<noteq> [] \<Longrightarrow> splitSlash (joinSlash ?es) = ?es" using splitSlash_joinSlash el by blast
  have again: "rev (cleanElems (HasPrefix p ''/'') [] ?es) = ?es" using cleanElems_again [OF c] by simp
  show ?thesis
  proof (cases "HasPrefix p ''/''")
    case True
    have "splitSlash (CHR ''/'' # joinSlash ?es) = [] # (if ?es = [] then [[]] else ?es)" using sp by simp
    then show ?thesis using True again by (auto simp: Clean_def pathElems_def [of "CHR ''/'' # _"] HasPrefix_slash cleanStep_def)
  next
    case False
    show ?thesis
    proof (cases "?es = []")
      case True
      then show ?thesis using False by (simp add: Clean_def) (simp add: pathElems_def HasPrefix_slash cleanStep_def)
    next
      case ne: False
      then show ?thesis using False again sp joinSlash_not_rooted [OF el]
        by (simp add: Clean_def pathElems_def [of "joinSlash ?es"])
    qed
  qed
qed

end
