(* ===== verification/Json.thy ===== *)
theory Json
  imports CoreTypes GoParse
begin

text \<open>
  What \<open>encoding/json\<close> does when it stores a document in a struct: fields are found by their exact
  name or else by their name up to case, \<open>null\<close> leaves a field alone (and clears a pointer or a
  slice), a value of another type and, for a strict decoder, an unknown field are errors that are
  reported after the rest has been stored. The text of a document is not parsed: a body is its
  first JSON value, \<open>None\<close> when the body does not start with one, and objects repeat no key. A
  number is kept as its literal.
\<close>

datatype json =
  JNull | JBool bool | JNumber string | JString string | JArray "json list"
| JObject "(string \<times> json) list"

text \<open>
  Names are compared by simple case folding; besides the ASCII letters only the long s and the
  Kelvin sign fold to a letter of a field name.
\<close>

definition foldRune :: "nat \<Rightarrow> nat" where
  "foldRune r = (if 65 \<le> r \<and> r \<le> 90 then r + 32 else if r = 0x17F then 115
     else if r = 0x212A then 107 else r)"

definition foldName :: "string \<Rightarrow> nat list" where
  "foldName s = map foldRune (runes s)"

definition fieldFor :: "string list \<Rightarrow> string \<Rightarrow> string option" where
  "fieldFor names key =
     (if key \<in> set names then Some key else find (\<lambda>n. foldName n = foldName key) names)"

text \<open>
  A struct is described by the names of its fields and by \<open>store n v x\<close>, the struct \<open>x\<close> with
  the value \<open>v\<close> in the field \<open>n\<close>, \<open>None\<close> for a value of the wrong type. The flag of the result
  says whether an error was reported.
\<close>

type_synonym 'a storer = "string \<Rightarrow> json \<Rightarrow> 'a \<Rightarrow> 'a option"

fun decodeFields :: "bool \<Rightarrow> string list \<Rightarrow> 'a storer \<Rightarrow> (string \<times> json) list \<Rightarrow> 'a \<Rightarrow> 'a \<times> bool" where
  "decodeFields strict names store [] x = (x, False)"
| "decodeFields strict names store ((key, v) # kvs) x =
     (case fieldFor names key of
        None \<Rightarrow> (let (y, err) = decodeFields strict names store kvs x in (y, err \<or> strict))
      | Some n \<Rightarrow>
          (case store n v x of
             None \<Rightarrow> (let (y, err) = decodeFields strict names store kvs x in (y, True))
           | Some x' \<Rightarrow> decodeFields strict names store kvs x'))"

definition decodeStruct :: "bool \<Rightarrow> string list \<Rightarrow> 'a storer \<Rightarrow> json \<Rightarrow> 'a \<Rightarrow> 'a \<times> bool" where
  "decodeStruct strict names store v x =
     (case v of
        JNull \<Rightarrow> (x, False)
      | JObject kvs \<Rightarrow> decodeFields strict names store kvs x
      | _ \<Rightarrow> (x, True))"

text \<open>\<open>Decode\<close> of a body; a body that is no JSON value leaves the struct alone.\<close>

definition Decode :: "bool \<Rightarrow> string list \<Rightarrow> 'a storer \<Rightarrow> json option \<Rightarrow> 'a \<Rightarrow> 'a \<times> bool" where
  "Decode strict names store body x =
     (case body of None \<Rightarrow> (x, True) | Some v \<Rightarrow> decodeStruct strict names store v x)"

section \<open>Values of the field types\<close>

definition storeString :: "json \<Rightarrow> (string \<Rightarrow> 'a \<Rightarrow> 'a) \<Rightarrow> 'a \<Rightarrow> 'a option" where
  "storeString v f x = (case v of JString t \<Rightarrow> Some (f t x) | JNull \<Rightarrow> Some x | _ \<Rightarrow> None)"

definition storeBool :: "json \<Rightarrow> (bool \<Rightarrow> 'a \<Rightarrow> 'a) \<Rightarrow> 'a \<Rightarrow> 'a option" where
  "storeBool v f x = (case v of JBool b \<Rightarrow> Some (f b x) | JNull \<Rightarrow> Some x | _ \<Rightarrow> None)"

definition storeInt :: "json \<Rightarrow> (int \<Rightarrow> 'a \<Rightarrow> 'a) \<Rightarrow> 'a \<Rightarrow> 'a option" where
  "storeInt v f x =
     (case v of
        JNumber lit \<Rightarrow> (case ParseInt lit of None \<Rightarrow> None | Some n \<Rightarrow> Some (f n x))
      | JNull \<Rightarrow> Some x | _ \<Rightarrow> None)"

text \<open>Pointer fields: \<open>null\<close> is the nil pointer.\<close>

definition storeStringPtr :: "json \<Rightarrow> (string option \<Rightarrow> 'a \<Rightarrow> 'a) \<Rightarrow> 'a \<Rightarrow> 'a option" where
  "storeStringPtr v f x = (case v of JString t \<Rightarrow> Some (f (Some t) x) | JNull \<Rightarrow> Some (f None x) | _ \<Rightarrow> None)"

definition storeBoolPtr :: "json \<Rightarrow> (bool option \<Rightarrow> 'a \<Rightarrow> 'a) \<Rightarrow> 'a \<Rightarrow> 'a option" where
  "storeBoolPtr v f x = (case v of JBool b \<Rightarrow> Some (f (Some b) x) | JNull \<Rightarrow> Some (f None x) | _ \<Rightarrow> None)"

definition messageStore :: "Message storer" where
  "messageStore n v m =
     (if n = ''role'' then storeString v (\<lambda>t m. m\<lparr>Role := t\<rparr>) m
      else storeString v (\<lambda>t m. m\<lparr>Content := t\<rparr>) m)"

definition decodeMessage :: "bool \<Rightarrow> json \<Rightarrow> Message \<times> bool" where
  "decodeMessage strict v =
     decodeStruct strict [''role'', ''content''] messageStore v \<lparr>Role = [], Content = []\<rparr>"

text \<open>A slice of messages: an element in error is an error of the document.\<close>

definition storeMessages :: "bool \<Rightarrow> json \<Rightarrow> (Message list \<Rightarrow> 'a \<Rightarrow> 'a) \<Rightarrow> 'a \<Rightarrow> 'a option" where
  "storeMessages strict v f x =
     (case v of
        JArray vs \<Rightarrow>
          if list_ex (\<lambda>u. snd (decodeMessage strict u)) vs then None
          else Some (f (map (\<lambda>u. fst (decodeMessage strict u)) vs) x)
      | JNull \<Rightarrow> Some (f [] x)
      | _ \<Rightarrow> None)"

end
