(* ===== verification/World.thy ===== *)
theory World
  imports CoreTrans
begin

text \<open>
  The surroundings of a goroutine that calls the service more than once. Others act between two
  of its calls, so the model is told by \<open>ext w i s\<close> what the rest of the program has made of the
  state \<open>s\<close> before the \<open>i\<close>-th call; \<open>ids w i\<close> and \<open>clk w i\<close> are the entropy and the clock readings of
  that call and \<open>expired w i\<close> says whether the goroutine's context is done by then. \<open>rely\<close> is
  what the theorems assume of the others: they too act only through the service's methods.
\<close>

record world =
  ext :: "nat \<Rightarrow> service \<Rightarrow> service"
  ids :: "nat \<Rightarrow> nat \<Rightarrow> entropy"
  clk :: "nat \<Rightarrow> nat \<Rightarrow> time"
  expired :: "nat \<Rightarrow> bool"

abbreviation svc_steps :: "service \<Rightarrow> service \<Rightarrow> bool" where
  "svc_steps \<equiv> svc_step\<^sup>*\<^sup>*"

definition rely :: "world \<Rightarrow> bool" where
  "rely w \<longleftrightarrow> (\<forall>i s. svc_steps s (ext w i s))"

text \<open>A world in which nobody else acts, for concrete runs.\<close>

definition alone :: "(nat \<Rightarrow> nat \<Rightarrow> entropy) \<Rightarrow> world" where
  "alone f = \<lparr>ext = (\<lambda>_ s. s), ids = f, clk = (\<lambda>i j. int i * second + int j), expired = (\<lambda>_. False)\<rparr>"

lemma relyD: "rely w \<Longrightarrow> svc_steps s (ext w i s)"
  by (simp add: rely_def)

lemma rely_alone [simp]: "rely (alone f)"
  by (simp add: rely_def alone_def)

lemma steps_then_step: "svc_steps s t \<Longrightarrow> svc_step t u \<Longrightarrow> svc_steps s u"
  by (rule rtranclp.rtrancl_into_rtrancl)

lemma rely_then_step: "rely w \<Longrightarrow> svc_step (ext w i s) u \<Longrightarrow> svc_steps s u"
  using relyD steps_then_step by blast

lemma reachable_steps: "reachable s \<Longrightarrow> svc_steps s t \<Longrightarrow> reachable t"
  unfolding reachable_def by (rule rtranclp_trans)

lemma reachable_ext: "rely w \<Longrightarrow> reachable s \<Longrightarrow> reachable (ext w i s)"
  using relyD reachable_steps by blast

lemma inv_ext: "rely w \<Longrightarrow> reachable s \<Longrightarrow> svc_inv (ext w i s)"
  by (rule reachable_svc_inv, rule reachable_ext)

text \<open>A call made in the world returns, and with what the others did it is a sequence of steps.\<close>

lemma world_calls:
  assumes "rely w" and "reachable s"
  shows "\<exists>t x. MarkResponderAvailable now sid accept (ext w i s) = Some (t, x) \<and> svc_steps s t"
    and "\<exists>t x. SubmitFragment rnd now sid n piece (ext w i s) = Some (t, x) \<and> svc_steps s t"
    and "\<exists>t x. Finish e now sid (ext w i s) = Some (t, x) \<and> svc_steps s t"
    and "\<exists>t x. Skip now now' sid (ext w i s) = Some (t, x) \<and> svc_steps s t"
    and "\<exists>t x. CancelBeforeFirstFragment now rid (ext w i s) = Some (t, x) \<and> svc_steps s t"
    and "\<exists>t. UnregisterResponder e now sid (ext w i s) = Some t \<and> svc_steps s t"
    and "\<exists>t x. ResumeResponder now sid (ext w i s) = Some (t, x) \<and> svc_steps s t"
    and "\<exists>t x. RegisterResponder tok (ext w i s) = Some (t, x) \<and> svc_steps s t"
proof -
  note inv = inv_ext [OF assms] and go = rely_then_step [OF assms(1)]
  show "\<exists>t x. MarkResponderAvailable now sid accept (ext w i s) = Some (t, x) \<and> svc_steps s t"
    using MarkResponderAvailable_evolve [OF inv] go [OF svc_step.mark_available] by meson
  show "\<exists>t x. SubmitFragment rnd now sid n piece (ext w i s) = Some (t, x) \<and> svc_steps s t"
    using SubmitFragment_evolve [OF inv] go [OF svc_step.submit] by meson
  show "\<exists>t x. Finish e now sid (ext w i s) = Some (t, x) \<and> svc_steps s t"
    using Finish_evolve [OF inv] go [OF svc_step.finish] by meson
  show "\<exists>t x. Skip now now' sid (ext w i s) = Some (t, x) \<and> svc_steps s t"
    using Skip_evolve [OF inv] go [OF svc_step.skip] by meson
  show "\<exists>t x. CancelBeforeFirstFragment now rid (ext w i s) = Some (t, x) \<and> svc_steps s t"
    using Cancel_evolve [OF inv] go [OF svc_step.cancel] by meson
  show "\<exists>t. UnregisterResponder e now sid (ext w i s) = Some t \<and> svc_steps s t"
    using UnregisterResponder_evolve [OF inv] go [OF svc_step.unregister_responder] by meson
  show "\<exists>t x. ResumeResponder now sid (ext w i s) = Some (t, x) \<and> svc_steps s t"
    using ResumeResponder_evolve [OF inv] go [OF svc_step.resume] by meson
  show "\<exists>t x. RegisterResponder tok (ext w i s) = Some (t, x) \<and> svc_steps s t"
    using RegisterResponder_evolve [OF inv] go [OF svc_step.register_responder] by meson
qed

text \<open>A world in which nobody else acts.\<close>

definition quiet :: "world \<Rightarrow> bool" where
  "quiet w \<longleftrightarrow> (\<forall>i s. ext w i s = s)"

lemma quietD [simp]: "quiet w \<Longrightarrow> ext w i s = s"
  by (simp add: quiet_def)

lemma quiet_alone [simp]: "quiet (alone f)"
  by (simp add: quiet_def alone_def)

lemma quiet_rely: "quiet w \<Longrightarrow> rely w"
  by (simp add: rely_def)

text \<open>The instant as \<open>Unix()\<close> shows it: seconds since 1970, instants being counted from year 1.\<close>

definition Unix :: "time \<Rightarrow> int" where
  "Unix t = t div second - 62135596800"

text \<open>A loop that waits for others may still be running when the model stops watching it.\<close>

datatype 'a run = Running | Panic | Returned 'a

end
