(* ===== verification/Llm.thy ===== *)
theory Llm
  imports Json
begin

text \<open>
  The streaming client of the upstream model (\<open>internal/llm/client.go\<close>): reading the server-sent
  events, the checks on the response, and the accumulation of a complete answer. The network is
  a parameter \<open>net\<close>: the response to a request, or a transport failure. \<open>parse\<close> gives the JSON
  value of a text. The consumer of the deltas is a function on its own state.
\<close>

section \<open>Reading the stream\<close>

datatype 'e streamError =
  DeltaError 'e | JSONError | ScanError | StatusError int | NoSSEData | TransportError

record llmConfig =
  BaseURL :: string
  APIKey :: string
  LModel :: string
  MaxTokens :: int

definition Enabled :: "llmConfig \<Rightarrow> bool" where
  "Enabled c \<longleftrightarrow> APIKey c \<noteq> [] \<and> BaseURL c \<noteq> [] \<and> LModel c \<noteq> []"

text \<open>
  \<open>json.Unmarshal\<close> of one frame, reduced to what the reader uses: the text \<open>Delta["content"]\<close> of
  each choice. A delta is a map of strings, so any other value in it fails the frame.
\<close>

definition deltaContent :: "json \<Rightarrow> string option" where
  "deltaContent v =
     (case v of
        JNull \<Rightarrow> Some []
      | JObject kvs \<Rightarrow>
          if list_ex (\<lambda>(k, u). case u of JString _ \<Rightarrow> False | JNull \<Rightarrow> False | _ \<Rightarrow> True) kvs then None
          else Some (case map_of kvs ''content'' of Some (JString t) \<Rightarrow> t | _ \<Rightarrow> [])
      | _ \<Rightarrow> None)"

definition choiceStore :: "string storer" where
  "choiceStore n v x = deltaContent v"

definition choicesStore :: "string list storer" where
  "choicesStore n v x =
     (case v of
        JNull \<Rightarrow> Some []
      | JArray vs \<Rightarrow>
          if list_ex (\<lambda>u. snd (decodeStruct False [''delta''] choiceStore u [])) vs then None
          else Some (map (\<lambda>u. fst (decodeStruct False [''delta''] choiceStore u [])) vs)
      | _ \<Rightarrow> None)"

definition unmarshalChunk :: "(string \<Rightarrow> json option) \<Rightarrow> string \<Rightarrow> string list option" where
  "unmarshalChunk parse payload =
     (let (x, err) = Decode False [''choices''] choicesStore (parse payload) [] in
      if err then None else Some x)"

type_synonym ('s, 'e) consumer = "string \<Rightarrow> 's \<Rightarrow> 's \<times> 'e option"

fun feed :: "('s, 'e) consumer \<Rightarrow> string list \<Rightarrow> 's \<Rightarrow> 's \<times> 'e option" where
  "feed onDelta [] st = (st, None)"
| "feed onDelta (d # ds) st =
     (case onDelta d st of
        (st1, Some err) \<Rightarrow> (st1, Some err)
      | (st1, None) \<Rightarrow> feed onDelta ds st1)"

text \<open>\<open>lines\<close> are what the scanner delivers, \<open>scanErr\<close> whether it ends with an error.\<close>

fun readSSE ::
  "(string \<Rightarrow> json option) \<Rightarrow> ('s, 'e) consumer \<Rightarrow> bool \<Rightarrow> string list \<Rightarrow> bool \<Rightarrow> 's
   \<Rightarrow> 's \<times> bool \<times> 'e streamError option"
where
  "readSSE parse onDelta scanErr [] sawFrame st =
     (st, sawFrame, if scanErr then Some ScanError else None)"
| "readSSE parse onDelta scanErr (raw # lines) sawFrame st =
     (let line = TrimSpace raw in
      if \<not> HasPrefix line ''data:'' then readSSE parse onDelta scanErr lines sawFrame st
      else let payload = TrimSpace (TrimPrefix line ''data:'') in
        if payload = [] then readSSE parse onDelta scanErr lines sawFrame st
        else if payload = ''[DONE]'' then (st, True, None)
        else case unmarshalChunk parse payload of
          None \<Rightarrow> (st, True, Some JSONError)
        | Some contents \<Rightarrow>
            (case feed onDelta contents st of
               (st1, Some err) \<Rightarrow> (st1, True, Some (DeltaError err))
             | (st1, None) \<Rightarrow> readSSE parse onDelta scanErr lines True st1))"

datatype upstream = NoResponse | Response int "string list" bool

record upstreamRequest =
  upEndpoint :: string
  upAuthorization :: string
  upModel :: string
  upMessages :: "Message list"
  upMaxTokens :: int

definition trimSlashes :: "string \<Rightarrow> string" where
  "trimSlashes s = rev (dropWhile (\<lambda>c. c = CHR ''/'') (rev s))"

definition streamRequest :: "llmConfig \<Rightarrow> Message list \<Rightarrow> upstreamRequest" where
  "streamRequest c messages =
     \<lparr>upEndpoint = trimSlashes (BaseURL c) @ ''/v1/chat/completions'',
      upAuthorization = ''Bearer '' @ APIKey c, upModel = LModel c, upMessages = messages,
      upMaxTokens = MaxTokens c\<rparr>"

definition Stream ::
  "(string \<Rightarrow> json option) \<Rightarrow> (upstreamRequest \<Rightarrow> upstream) \<Rightarrow> llmConfig \<Rightarrow> Message list
   \<Rightarrow> ('s, 'e) consumer \<Rightarrow> 's \<Rightarrow> 's \<times> 'e streamError option"
where
  "Stream parse net c messages onDelta st =
     (case net (streamRequest c messages) of
        NoResponse \<Rightarrow> (st, Some TransportError)
      | Response status lines scanErr \<Rightarrow>
          if status < 200 \<or> status \<ge> 300 then (st, Some (StatusError status))
          else
            (case readSSE parse onDelta scanErr lines False st of
               (st1, sawFrame, Some err) \<Rightarrow> (st1, Some err)
             | (st1, sawFrame, None) \<Rightarrow>
                 if \<not> sawFrame then (st1, Some NoSSEData) else (st1, None)))"

definition Complete ::
  "(string \<Rightarrow> json option) \<Rightarrow> (upstreamRequest \<Rightarrow> upstream) \<Rightarrow> llmConfig \<Rightarrow> Message list
   \<Rightarrow> string \<times> unit streamError option"
where
  "Complete parse net c messages = Stream parse net c messages (\<lambda>delta b. (b @ delta, None)) []"

section \<open>What a stream delivers\<close>

text \<open>The payload of a line, \<open>None\<close> for a line the reader skips.\<close>

definition framePayload :: "string \<Rightarrow> string option" where
  "framePayload raw =
     (let line = TrimSpace raw; payload = TrimSpace (TrimPrefix line ''data:'') in
      if HasPrefix line ''data:'' \<and> payload \<noteq> [] then Some payload else None)"

definition frames :: "string list \<Rightarrow> string list" where
  "frames lines = takeWhile (\<lambda>p. p \<noteq> ''[DONE]'') (List.map_filter framePayload lines)"

lemma readSSE_step:
  "readSSE parse onDelta e (raw # lines) saw st =
     (case framePayload raw of
        None \<Rightarrow> readSSE parse onDelta e lines saw st
      | Some payload \<Rightarrow>
          if payload = ''[DONE]'' then (st, True, None)
          else case unmarshalChunk parse payload of
            None \<Rightarrow> (st, True, Some JSONError)
          | Some contents \<Rightarrow>
              (case feed onDelta contents st of
                 (st1, Some err) \<Rightarrow> (st1, True, Some (DeltaError err))
               | (st1, None) \<Rightarrow> readSSE parse onDelta e lines True st1))"
  by (simp add: framePayload_def Let_def)

declare readSSE.simps(2) [simp del]

lemma frames_Cons:
  "frames (raw # lines) = (case framePayload raw of None \<Rightarrow> frames lines
     | Some p \<Rightarrow> if p = ''[DONE]'' then [] else p # frames lines)"
  by (auto simp: frames_def List.map_filter_def split: option.split)

lemma feed_append:
  "feed onDelta (ds @ ds') st = (case feed onDelta ds st of (st1, Some err) \<Rightarrow> (st1, Some err)
     | (st1, None) \<Rightarrow> feed onDelta ds' st1)"
  by (induction ds arbitrary: st) (auto split: prod.splits option.splits)

text \<open>
  If every frame before the end mark parses, the reader feeds exactly their deltas, in order,
  to the consumer.
\<close>

definition deltas :: "(string \<Rightarrow> json option) \<Rightarrow> string list \<Rightarrow> string list" where
  "deltas parse ps = concat (map (\<lambda>p. the (unmarshalChunk parse p)) ps)"

lemma deltas_Cons: "unmarshalChunk parse p = Some ds \<Longrightarrow> deltas parse (p # ps) = ds @ deltas parse ps"
  by (simp add: deltas_def)

lemma readSSE_feeds:
  assumes "\<forall>p \<in> set (frames lines). unmarshalChunk parse p \<noteq> None"
    and "feed onDelta (deltas parse (frames lines)) st = (st', None)"
  shows "readSSE parse onDelta False lines saw st =
    (st', saw \<or> List.map_filter framePayload lines \<noteq> [], None)"
  using assms
proof (induction lines arbitrary: saw st)
  case Nil
  then show ?case by (simp add: frames_def deltas_def List.map_filter_def)
next
  case (Cons raw lines)
  show ?case
  proof (cases "framePayload raw")
    case None
    then show ?thesis using Cons by (simp add: readSSE_step frames_Cons List.map_filter_def)
  next
    case (Some p)
    show ?thesis
    proof (cases "p = ''[DONE]''")
      case True
      then show ?thesis using Cons.prems Some
        by (simp add: readSSE_step frames_Cons deltas_def List.map_filter_def)
    next
      case False
      then obtain ds where ds: "unmarshalChunk parse p = Some ds" using Cons.prems(1) Some by (auto simp: frames_Cons)
      obtain st1 where st1: "feed onDelta ds st = (st1, None)"
        and rest: "feed onDelta (deltas parse (frames lines)) st1 = (st', None)"
        using Cons.prems(2) Some False
        by (auto simp: frames_Cons deltas_Cons [of parse p ds, OF ds] feed_append split: prod.splits option.splits)
      have "\<forall>q \<in> set (frames lines). unmarshalChunk parse q \<noteq> None" using Cons.prems(1) Some False by (simp add: frames_Cons)
      from Cons.IH [OF this rest, of True] show ?thesis
        using Some False ds st1 by (simp add: readSSE_step List.map_filter_def)
    qed
  qed
qed

text \<open>The first error of the consumer ends the stream.\<close>

lemma readSSE_fails:
  assumes "\<forall>p \<in> set (frames lines). unmarshalChunk parse p \<noteq> None"
    and "feed onDelta (deltas parse (frames lines)) st = (st', Some err)"
  shows "readSSE parse onDelta e lines saw st = (st', True, Some (DeltaError err))"
  using assms
proof (induction lines arbitrary: saw st)
  case Nil
  then show ?case by (simp add: frames_def deltas_def List.map_filter_def)
next
  case (Cons raw lines)
  show ?case
  proof (cases "framePayload raw")
    case None
    then show ?thesis using Cons by (simp add: readSSE_step frames_Cons)
  next
    case (Some p)
    have nd: "p \<noteq> ''[DONE]''" using Cons.prems(2) Some by (auto simp: frames_Cons deltas_def)
    then obtain ds where ds: "unmarshalChunk parse p = Some ds" using Cons.prems(1) Some by (auto simp: frames_Cons)
    have rest: "\<forall>q \<in> set (frames lines). unmarshalChunk parse q \<noteq> None"
      using Cons.prems(1) Some nd by (simp add: frames_Cons)
    have eq: "frames (raw # lines) = p # frames lines" using Some nd by (simp add: frames_Cons)
    obtain st1 e1 where f: "feed onDelta ds st = (st1, e1)" by (cases "feed onDelta ds st")
    show ?thesis
    proof (cases e1)
      case None
      then have "feed onDelta (deltas parse (frames lines)) st1 = (st', Some err)"
        using Cons.prems(2) f by (simp add: eq deltas_Cons [of parse p ds, OF ds] feed_append)
      from Cons.IH [OF rest this] show ?thesis using Some nd ds f None by (simp add: readSSE_step)
    next
      case (Some e2)
      then show ?thesis using \<open>framePayload raw = Some p\<close> nd ds f Cons.prems(2)
        by (simp add: readSSE_step eq deltas_Cons [of parse p ds, OF ds] feed_append)
    qed
  qed
qed

text \<open>What every call of the consumer keeps, the whole stream keeps.\<close>

lemma feed_inv:
  assumes "\<And>d st st' err. P st \<Longrightarrow> onDelta d st = (st', err) \<Longrightarrow> P st'"
  shows "P st \<Longrightarrow> feed onDelta ds st = (st', err) \<Longrightarrow> P st'"
  by (induction ds arbitrary: st) (auto split: prod.splits option.splits dest: assms)

lemma readSSE_inv:
  assumes keep: "\<And>d st st' err. P st \<Longrightarrow> onDelta d st = (st', err) \<Longrightarrow> P st'"
  shows "P st \<Longrightarrow> readSSE parse onDelta e lines saw st = (st', saw', err) \<Longrightarrow> P st'"
proof (induction lines arbitrary: saw st)
  case (Cons raw lines)
  show ?case
  proof (cases "framePayload raw")
    case None
    then show ?thesis using Cons by (simp add: readSSE_step)
  next
    case (Some payload)
    show ?thesis
    proof (cases "payload = ''[DONE]'' \<or> unmarshalChunk parse payload = None")
      case True
      then show ?thesis using Some Cons.prems by (auto simp: readSSE_step split: if_splits)
    next
      case False
      then obtain cs where cs: "unmarshalChunk parse payload = Some cs" by auto
      obtain st1 e1 where f: "feed onDelta cs st = (st1, e1)" by (cases "feed onDelta cs st")
      note P1 = feed_inv [of P onDelta, OF keep Cons.prems(1) f]
      show ?thesis using Some False Cons.prems(2) Cons.IH [OF P1] P1 cs f
        by (cases e1) (auto simp: readSSE_step)
    qed
  qed
qed simp

lemma Stream_inv:
  assumes "\<And>d st st' err. P st \<Longrightarrow> onDelta d st = (st', err) \<Longrightarrow> P st'"
    and "P st" and "Stream parse net c messages onDelta st = (st', err)"
  shows "P st'"
proof (cases "net (streamRequest c messages)")
  case NoResponse
  then show ?thesis using assms(2,3) by (simp add: Stream_def)
next
  case (Response status lines scanErr)
  obtain st1 saw e1 where r: "readSSE parse onDelta scanErr lines False st = (st1, saw, e1)"
    by (cases "readSSE parse onDelta scanErr lines False st") auto
  have "P st1" by (rule readSSE_inv [of P onDelta, OF assms(1) assms(2) r])
  then show ?thesis using assms(2,3) Response r
    by (cases e1) (simp_all add: Stream_def split: if_splits)
qed

lemma feed_collect: "feed (\<lambda>d b. (b @ d, None)) ds acc = (acc @ concat ds, None)"
  by (induction ds arbitrary: acc) auto

section \<open>Properties\<close>

text \<open>
  A complete answer is the concatenation of the deltas of the frames before the end mark, in
  order, whenever the upstream answers with success, every such frame parses and the connection
  does not break; a response without a single frame is an error, never an empty answer.
\<close>

theorem complete_collects_deltas:
  assumes "net (streamRequest c messages) = Response status lines False"
    and "200 \<le> status" and "status < 300"
    and "\<forall>p \<in> set (frames lines). unmarshalChunk parse p \<noteq> None"
  shows "Complete parse net c messages =
    (if List.map_filter framePayload lines = [] then ([], Some NoSSEData)
     else (concat (deltas parse (frames lines)), None))"
proof -
  have "readSSE parse (\<lambda>d b. (b @ d, None :: unit option)) False lines False [] =
      (concat (deltas parse (frames lines)), List.map_filter framePayload lines \<noteq> [], None)"
    using readSSE_feeds [OF assms(4), of "\<lambda>d b. (b @ d, None)" "[]"
        "concat (deltas parse (frames lines))" False] by (simp add: feed_collect)
  moreover have "frames lines = []" if "List.map_filter framePayload lines = []"
    using that by (simp add: frames_def)
  ultimately show ?thesis using assms(1-3) by (simp add: Complete_def Stream_def deltas_def)
qed

text \<open>A parser that knows one kind of document, for concrete runs: the text is the delta.\<close>

definition toyParse :: "string \<Rightarrow> json option" where
  "toyParse t = Some (JObject [(''choices'', JArray [JObject [(''delta'', JObject [(''content'', JString t)])]])])"

definition demoLines :: "string list" where
  "demoLines = [''data: a'', '': note'', ''data:b'', ''data: [DONE]'']"

theorem complete_collects_deltas_witness:
  "Complete toyParse (\<lambda>_. Response 200 demoLines False)
     \<lparr>BaseURL = ''u'', APIKey = ''k'', LModel = ''m'', MaxTokens = 9\<rparr> [] = (''ab'', None)"
proof -
  have f: "List.map_filter framePayload demoLines \<noteq> []" "frames demoLines = [''a'', ''b'']"
    "unmarshalChunk toyParse ''a'' = Some [''a'']" "unmarshalChunk toyParse ''b'' = Some [''b'']"
    by code_simp+
  show ?thesis
    using complete_collects_deltas [of "\<lambda>_. Response 200 demoLines False" _ _ 200 demoLines toyParse] f
    by (simp add: deltas_def)
qed

definition longLines :: "string list" where
  "longLines = [''data: hello you'', ''data: [DONE]'']"

end
