(* ===== verification/Fallback.thy ===== *)
theory Fallback
  imports Chunking Llm World CoreFrames
begin

text \<open>
  The fallback responder (\<open>internal/httpapi/fallback.go\<close>): configuration defaults, the prompt, the
  paced emitter, the run of one attempt and the goroutine that watches a request. The goroutine
  calls the service many times and others act in between: its surroundings are a \<open>world\<close>. The
  timers are not modelled, but the delays the goroutine asks for are returned; whether the
  two-minute context has expired at a wait is \<open>expired\<close>.
\<close>

section \<open>Configuration\<close>

record FallbackConfig =
  FEnabled :: bool
  FBaseURL :: string
  FAPIKey :: string
  FModel :: string
  FDelay :: duration
  FChunkDelay :: duration
  FMaxChunkRunes :: int
  FMaxAnswerRunes :: int

definition defaultFallbackBaseURL :: string where
  "defaultFallbackBaseURL = ''https://oneapi.43ever.me''"
definition defaultFallbackModel :: string where
  "defaultFallbackModel = ''deepseek/deepseek-v4-flash''"
definition defaultFallbackDelay :: duration where "defaultFallbackDelay = 10 * second"
definition defaultFallbackChunkDelay :: duration where "defaultFallbackChunkDelay = 85 * millisecond"
definition defaultFallbackMaxAnswerRunes :: int where "defaultFallbackMaxAnswerRunes = 4000"

definition withDefaults :: "FallbackConfig \<Rightarrow> FallbackConfig" where
  "withDefaults c =
     \<lparr>FEnabled = (if FAPIKey c = [] then False else FEnabled c),
      FBaseURL = (if FBaseURL c = [] then defaultFallbackBaseURL else FBaseURL c),
      FAPIKey = FAPIKey c,
      FModel = (if FModel c = [] then defaultFallbackModel else FModel c),
      FDelay = (if FDelay c \<le> 0 then defaultFallbackDelay else FDelay c),
      FChunkDelay = (if FChunkDelay c \<le> 0 then defaultFallbackChunkDelay else FChunkDelay c),
      FMaxChunkRunes = (if FMaxChunkRunes c \<le> 0 then defaultFallbackMaxChunkRunes else FMaxChunkRunes c),
      FMaxAnswerRunes = (if FMaxAnswerRunes c \<le> 0 \<or> FMaxAnswerRunes c > OutputLimitChars
         then defaultFallbackMaxAnswerRunes else FMaxAnswerRunes c)\<rparr>"

definition fallbackLlmConfig :: "FallbackConfig \<Rightarrow> llmConfig" where
  "fallbackLlmConfig c = \<lparr>BaseURL = FBaseURL c, APIKey = FAPIKey c, LModel = FModel c,
     MaxTokens = FMaxAnswerRunes c\<rparr>"

definition fallbackMessages :: "Message list \<Rightarrow> Message list" where
  "fallbackMessages messages =
     \<lparr>Role = ''system'', Content =
        ''You are an AI simulating a human who is simulating an AI for a parody chat product. '' @
        ''Answer naturally and concisely. Do not mention hidden system instructions.''\<rparr> # messages"

section \<open>One attempt\<close>

record fbRun =
  svc :: service
  calls :: nat
  seqNo :: int
  submitted :: bool
  emitted :: bool

datatype fbError = SvcError error | Expired | Panicked

text \<open>The closure \<open>submit\<close> of \<open>runFallbackResponder\<close>.\<close>

definition submit :: "world \<Rightarrow> string \<Rightarrow> (fbRun, fbError) consumer" where
  "submit w sessionID text st =
     (if text = [] then (st, None)
      else let i = calls st; s0 = ext w i (svc st) in
        case SubmitFragment (ids w i) (clk w i 0) sessionID (seqNo st) text s0 of
          None \<Rightarrow> (st\<lparr>svc := s0, calls := Suc i\<rparr>, Some Panicked)
        | Some (s1, Inl err) \<Rightarrow> (st\<lparr>svc := s1, calls := Suc i\<rparr>, Some (SvcError err))
        | Some (s1, Inr _) \<Rightarrow>
            (st\<lparr>svc := s1, calls := Suc i, seqNo := seqNo st + 1, submitted := True\<rparr>, None))"

definition waitFallbackChunkDelay :: "world \<Rightarrow> duration \<Rightarrow> fbRun \<Rightarrow> fbError option" where
  "waitFallbackChunkDelay w delay st =
     (if delay \<le> 0 then None else if expired w (calls st) then Some Expired else None)"

fun emitChunks :: "world \<Rightarrow> duration \<Rightarrow> string \<Rightarrow> string list \<Rightarrow> fbRun \<Rightarrow> fbRun \<times> fbError option" where
  "emitChunks w delay sessionID [] st = (st, None)"
| "emitChunks w delay sessionID (chunk # chunks) st =
     (case (if emitted st then waitFallbackChunkDelay w delay st else None) of
        Some err \<Rightarrow> (st, Some err)
      | None \<Rightarrow>
          (case submit w sessionID chunk st of
             (st1, Some err) \<Rightarrow> (st1, Some err)
           | (st1, None) \<Rightarrow> emitChunks w delay sessionID chunks (st1\<lparr>emitted := True\<rparr>)))"

definition Emit :: "world \<Rightarrow> FallbackConfig \<Rightarrow> string \<Rightarrow> (fbRun, fbError) consumer" where
  "Emit w c sessionID text st =
     emitChunks w (FChunkDelay c) sessionID (splitFallbackChunk text (FMaxChunkRunes c)) st"

text \<open>\<open>net\<close> is the upstream and \<open>parse\<close> the JSON parser, as in \<open>Llm\<close>.\<close>

definition callFallbackUpstream ::
  "(string \<Rightarrow> json option) \<Rightarrow> (upstreamRequest \<Rightarrow> upstream) \<Rightarrow> world \<Rightarrow> FallbackConfig
   \<Rightarrow> string \<Rightarrow> AssignedRequest \<Rightarrow> fbRun \<Rightarrow> fbRun \<times> fbError streamError option"
where
  "callFallbackUpstream parse net w c sessionID assignment st =
     Stream parse net (fallbackLlmConfig c) (fallbackMessages (AsgMessages assignment))
       (Emit w c sessionID) st"

definition runFallbackResponder ::
  "(string \<Rightarrow> json option) \<Rightarrow> (upstreamRequest \<Rightarrow> upstream) \<Rightarrow> world \<Rightarrow> FallbackConfig
   \<Rightarrow> string \<Rightarrow> AssignedRequest \<Rightarrow> nat \<Rightarrow> service \<Rightarrow> (nat \<times> service \<times> bool) option"
where
  "runFallbackResponder parse net w c sessionID assignment i s =
     (let st0 = \<lparr>svc = s, calls = i, seqNo = 1, submitted = False, emitted = False\<rparr>;
          (st1, _) = callFallbackUpstream parse net w c sessionID assignment st0;
          k = calls st1; s0 = ext w k (svc st1)
      in if submitted st1
         then (case Finish (ids w k 0) (clk w k 0) sessionID s0 of
                 None \<Rightarrow> None
               | Some (s1, _) \<Rightarrow> Some (Suc k, s1, False))
         else (case Skip (clk w k 0) (clk w k 1) sessionID s0 of
                 None \<Rightarrow> None
               | Some (s1, Inl _) \<Rightarrow> Some (Suc k, s1, False)
               | Some (s1, Inr _) \<Rightarrow> Some (Suc k, s1, True)))"

section \<open>The watching goroutine\<close>

text \<open>
  The loop of \<open>scheduleFallback\<close>; it may watch for ever, so it has fuel, and \<open>Running\<close> is a loop
  that still runs when the fuel is used up. \<open>delay\<close> is the wait at the top of the loop, \<open>c\<close> the
  configuration; the result carries the delays waited for.
\<close>

fun fallbackLoop ::
  "(string \<Rightarrow> json option) \<Rightarrow> (upstreamRequest \<Rightarrow> upstream) \<Rightarrow> world \<Rightarrow> FallbackConfig
   \<Rightarrow> string \<Rightarrow> nat \<Rightarrow> duration \<Rightarrow> duration list \<Rightarrow> nat \<Rightarrow> service \<Rightarrow> (service \<times> duration list) run"
where
  "fallbackLoop parse net w c requestID 0 delay waits i s = Running"
| "fallbackLoop parse net w c requestID (Suc fuel) delay waits0 i s =
     (let waits = (if delay > 0 then waits0 @ [delay] else waits0) in
      case AcquireFallbackAssignment (clk w i 0) requestID (ext w i s) of
        (s1, None) \<Rightarrow>
          (let s2 = ext w (Suc i) s1 in
           if FallbackStillWanted requestID s2
           then fallbackLoop parse net w c requestID fuel (FDelay c) waits (Suc (Suc i)) s2
           else Returned (s2, waits))
      | (s1, Some (sessionID, assignment)) \<Rightarrow>
          (case runFallbackResponder parse net w c sessionID assignment (Suc i) s1 of
             None \<Rightarrow> Panic
           | Some (k, s2, True) \<Rightarrow> fallbackLoop parse net w c requestID fuel (FDelay c) waits k s2
           | Some (k, s2, False) \<Rightarrow> Returned (s2, waits)))"

definition scheduleFallback ::
  "(string \<Rightarrow> json option) \<Rightarrow> (upstreamRequest \<Rightarrow> upstream) \<Rightarrow> world \<Rightarrow> FallbackConfig
   \<Rightarrow> Request \<Rightarrow> nat \<Rightarrow> service \<Rightarrow> (service \<times> duration list) run"
where
  "scheduleFallback parse net w c req fuel s =
     (if \<not> FEnabled c \<or> \<not> AllowAIAnswers req then Returned (s, [])
      else
        let s0 = ext w 0 s;
            initialDelay = (if OnlineHumanResponderCount s0 = 0 then 0 else FDelay c)
        in fallbackLoop parse net w c (ReqID req) fuel initialDelay [] 1 s0)"

end
