(* ===== verification/HttpApi.thy ===== *)
theory HttpApi
  imports Json World RateLimit Fallback
begin

text \<open>
  The HTTP layer over the in-memory service: the server struct, the mapping of service errors to
  responses, the bearer token, and the handlers that answer at once (\<open>internal/httpapi/server.go\<close>,
  \<open>conversations.go\<close> and the list of \<open>board.go\<close>). A handler is a function of the request and the
  service state; others may act before each of its service calls (\<open>world\<close>), and \<open>None\<close> is a panic.
  A response is its status and the value that is encoded as JSON. bcrypt is the two functions
  \<open>gen\<close> and \<open>cmp\<close>, the file system the predicate \<open>isFile\<close>.
\<close>

section \<open>Requests and responses\<close>

record HttpRequest =
  Method :: string
  Path :: string
  Authorization :: string
  ForwardedFor :: string
  RemoteAddr :: string
  Query :: "(string \<times> string) list"
  Body :: "json option"
  CanFlush :: bool

text \<open>\<open>r.URL.Query().Get(key)\<close>: the first value, or the empty string.\<close>

definition queryGet :: "HttpRequest \<Rightarrow> string \<Rightarrow> string" where
  "queryGet r key = (case map_of (Query r) key of None \<Rightarrow> [] | Some v \<Rightarrow> v)"

text \<open>The message of an error response: a literal, or the text of an error value.\<close>

datatype errText = Literal string | ErrorText error | DecodeError | NotReady string

record chatCompletionChoice =
  ChIndex :: int
  ChMessage :: "Message option"
  ChDelta :: "(string \<times> string) list"
  ChFinish :: "FinishReason option"

record chatCompletionResponse =
  RspID :: string
  RspObject :: string
  RspCreated :: int
  RspModel :: string
  RspChoices :: "chatCompletionChoice list"
  RspResponderKind :: string

datatype payload =
  ErrorBody string errText
| StatusBody string "string option"
| AuthBody AuthResult
| LedgerBody "PointEntry list" Balance
| ReactionBody Balance Reaction
| TicketsBody "BoardTicket list"
| ConversationsBody "Conversation list"
| ConversationBody Conversation
| DetailBody Conversation "ConversationMessage list"
| CompletionBody chatCompletionResponse

text \<open>What a handler writes to an event stream.\<close>

datatype sse = Comment string | Chunk chatCompletionResponse | DoneMark

datatype reply =
  Reply int payload
| EventStream "sse list"
| FileReply string
| PlainError int
| RedirectTo string
| NoContent
| Disconnected

definition writeJSON :: "int \<Rightarrow> payload \<Rightarrow> reply" where
  "writeJSON status v = Reply status v"

definition writeError :: "int \<Rightarrow> string \<Rightarrow> errText \<Rightarrow> reply" where
  "writeError status typ message = writeJSON status (ErrorBody typ message)"

definition writeServiceError :: "error \<Rightarrow> reply" where
  "writeServiceError err =
     (case err of
        ErrUnauthorized \<Rightarrow> writeError 401 ''unauthorized'' (ErrorText err)
      | ErrInvalidCredentials \<Rightarrow> writeError 401 ''invalid_credentials'' (ErrorText err)
      | ErrInsufficientPoints \<Rightarrow> writeError 402 ''insufficient_points'' (ErrorText err)
      | ErrInputTooLarge \<Rightarrow> writeError 400 ''context_length_exceeded'' (ErrorText err)
      | ErrOutputTooLarge \<Rightarrow> writeError 400 ''output_length_exceeded'' (ErrorText err)
      | ErrAccountExists \<Rightarrow> writeError 409 ''account_exists'' (ErrorText err)
      | ErrRequestNotFound \<Rightarrow> writeError 404 ''not_found'' (ErrorText err)
      | ErrConversationNotFound \<Rightarrow> writeError 404 ''not_found'' (ErrorText err)
      | _ \<Rightarrow> writeError 400 ''bad_request'' (ErrorText err))"

definition methodNotAllowed :: reply where
  "methodNotAllowed = writeError 405 ''method_not_allowed'' (Literal ''method not allowed'')"

definition routeNotFound :: reply where
  "routeNotFound = writeError 404 ''not_found'' (Literal ''route not found'')"

definition decodeJSON :: "string list \<Rightarrow> 'a storer \<Rightarrow> json option \<Rightarrow> 'a \<Rightarrow> reply + 'a" where
  "decodeJSON names store body zero =
     (let (x, err) = Decode True names store body zero in
      if err then Inl (writeError 400 ''invalid_json'' DecodeError) else Inr x)"

definition bearerToken :: "HttpRequest \<Rightarrow> string" where
  "bearerToken r =
     (let v = Authorization r in
      if HasPrefix (ToLower v) ''bearer '' then TrimSpace (drop 7 v) else [])"

definition bearerTokenWS :: "HttpRequest \<Rightarrow> string" where
  "bearerTokenWS r = (let t = bearerToken r in if t \<noteq> [] then t else queryGet r ''token'')"

text \<open>The common end of a handler: an error becomes its response, a value is written.\<close>

definition respond :: "'a outcome \<Rightarrow> ('a \<Rightarrow> reply) \<Rightarrow> (service \<times> reply) option" where
  "respond res k =
     map_option (\<lambda>(s, x). (s, case x of Inl err \<Rightarrow> writeServiceError err | Inr v \<Rightarrow> k v)) res"

section \<open>The server\<close>

record Server =
  srvFallback :: FallbackConfig
  srvStaticDir :: string
  srvMode :: string
  srvReady :: "(nat \<Rightarrow> string option) option"
  srvLimiter :: "rateLimiter option"
  srvTrustedHops :: int

record ServerOptions =
  optFallback :: FallbackConfig
  optStaticDir :: string
  optRatePerMin :: int
  optRateBurst :: int
  optTrustedProxies :: int

text \<open>\<open>ping\<close> is the \<open>Ping\<close> of a backend that has one: the error text of its \<open>i\<close>-th call.\<close>

definition NewServerWithOptions ::
  "(nat \<Rightarrow> string option) option \<Rightarrow> ServerOptions \<Rightarrow> Server"
where
  "NewServerWithOptions ping options =
     \<lparr>srvFallback = withDefaults (optFallback options),
      srvStaticDir = optStaticDir options,
      srvMode = (case ping of None \<Rightarrow> ''memory'' | Some _ \<Rightarrow> ''pgredis''),
      srvReady = ping,
      srvLimiter = newRateLimiter (optRatePerMin options) (optRateBurst options),
      srvTrustedHops = (if optTrustedProxies options \<le> 0 then 1 else optTrustedProxies options)\<rparr>"

section \<open>Health, readiness and the frontend\<close>

definition handleHealth :: "Server \<Rightarrow> HttpRequest \<Rightarrow> reply" where
  "handleHealth srv r =
     (if Method r \<noteq> ''GET'' then methodNotAllowed
      else writeJSON 200 (StatusBody ''ok'' (Some (srvMode srv))))"

definition handleReady :: "Server \<Rightarrow> nat \<Rightarrow> HttpRequest \<Rightarrow> reply" where
  "handleReady srv i r =
     (if Method r \<noteq> ''GET'' then methodNotAllowed
      else case srvReady srv of
        Some ping \<Rightarrow>
          (case ping i of
             Some err \<Rightarrow> writeError 503 ''not_ready'' (NotReady err)
           | None \<Rightarrow> writeJSON 200 (StatusBody ''ready'' (Some (srvMode srv))))
      | None \<Rightarrow> writeJSON 200 (StatusBody ''ready'' (Some (srvMode srv))))"

text \<open>
  \<open>http.ServeFile\<close> refuses a URL path with an element \<open>..\<close> (both slashes separate there) and sends
  a URL that ends in \<open>/index.html\<close> to its directory.
\<close>

definition slashed :: "string \<Rightarrow> string" where
  "slashed p = map (\<lambda>c. if c = CHR 0x5C then CHR ''/'' else c) p"

definition containsDotDot :: "string \<Rightarrow> bool" where
  "containsDotDot p \<longleftrightarrow> ''..'' \<in> set (splitSlash (slashed p))"

definition ServeFile :: "HttpRequest \<Rightarrow> string \<Rightarrow> reply" where
  "ServeFile r target =
     (if containsDotDot (Path r) then PlainError 400
      else if HasSuffix (Path r) ''/index.html'' then RedirectTo ''./''
      else FileReply target)"

definition handleFrontend :: "(string \<Rightarrow> bool) \<Rightarrow> Server \<Rightarrow> HttpRequest \<Rightarrow> reply" where
  "handleFrontend isFile srv r =
     (if HasPrefix (Path r) ''/api/'' \<or> HasPrefix (Path r) ''/v1/'' \<or> HasPrefix (Path r) ''/ws/''
      then routeNotFound
      else if srvStaticDir srv = []
      then writeError 404 ''not_found'' (Literal ''frontend is not configured'')
      else
        let cleaned = Clean (TrimPrefix (Path r) ''/'');
            cleanPath = (if cleaned = ''.'' \<or> cleaned = ''/'' then ''index.html'' else cleaned);
            target = Join (srvStaticDir srv) cleanPath
        in ServeFile r (if isFile target then target else Join (srvStaticDir srv) ''index.html''))"

section \<open>Accounts\<close>

record registerBody =
  rbAccountName :: string
  rbNickname :: string
  rbPassword :: string
  rbRepeatPassword :: string

definition registerStore :: "registerBody storer" where
  "registerStore n v b =
     (if n = ''account_name'' then storeString v (\<lambda>t b. b\<lparr>rbAccountName := t\<rparr>) b
      else if n = ''nickname'' then storeString v (\<lambda>t b. b\<lparr>rbNickname := t\<rparr>) b
      else if n = ''password'' then storeString v (\<lambda>t b. b\<lparr>rbPassword := t\<rparr>) b
      else storeString v (\<lambda>t b. b\<lparr>rbRepeatPassword := t\<rparr>) b)"

definition handleRegister ::
  "(string \<Rightarrow> string option) \<Rightarrow> world \<Rightarrow> HttpRequest \<Rightarrow> service \<Rightarrow> (service \<times> reply) option"
where
  "handleRegister gen w r s =
     (if Method r \<noteq> ''POST'' then Some (s, methodNotAllowed)
      else case decodeJSON [''account_name'', ''nickname'', ''password'', ''repeat_password'']
          registerStore (Body r)
          \<lparr>rbAccountName = [], rbNickname = [], rbPassword = [], rbRepeatPassword = []\<rparr> of
        Inl err \<Rightarrow> Some (s, err)
      | Inr body \<Rightarrow>
          respond (Register gen (ids w 0) (clk w 0 0) (rbAccountName body) (rbNickname body)
              (rbPassword body) (rbRepeatPassword body) (ext w 0 s))
            (\<lambda>auth. writeJSON 201 (AuthBody auth)))"

definition loginStore :: "(string \<times> string) storer" where
  "loginStore n v b =
     (if n = ''account_name'' then storeString v (\<lambda>t (_, p). (t, p)) b
      else storeString v (\<lambda>t (a, _). (a, t)) b)"

definition handleLogin ::
  "(string \<Rightarrow> string \<Rightarrow> bool) \<Rightarrow> world \<Rightarrow> HttpRequest \<Rightarrow> service \<Rightarrow> (service \<times> reply) option"
where
  "handleLogin cmp w r s =
     (if Method r \<noteq> ''POST'' then Some (s, methodNotAllowed)
      else case decodeJSON [''account_name'', ''password''] loginStore (Body r) ([], []) of
        Inl err \<Rightarrow> Some (s, err)
      | Inr (accountName, password) \<Rightarrow>
          respond (Login cmp (ids w 0) (clk w 0 0) accountName password (ext w 0 s))
            (\<lambda>auth. writeJSON 200 (AuthBody auth)))"

definition nameStore :: "string storer" where
  "nameStore n v x = storeString v (\<lambda>t _. t) x"

definition handleGuest :: "world \<Rightarrow> HttpRequest \<Rightarrow> service \<Rightarrow> (service \<times> reply) option" where
  "handleGuest w r s =
     (if Method r \<noteq> ''POST'' then Some (s, methodNotAllowed)
      else let (nickname, _) = Decode False [''nickname''] nameStore (Body r) [] in
        case GuestSession (ids w 0) (clk w 0 0) nickname (ext w 0 s) of
          None \<Rightarrow> None
        | Some (s1, auth) \<Rightarrow>
            if AuthToken auth = []
            then Some (s1, writeError 503 ''service_unavailable''
                   (Literal ''unable to create guest session''))
            else Some (s1, writeJSON 201 (AuthBody auth)))"

definition handleMe :: "world \<Rightarrow> HttpRequest \<Rightarrow> service \<Rightarrow> (service \<times> reply) option" where
  "handleMe w r s =
     (if Method r \<noteq> ''GET'' then Some (s, methodNotAllowed)
      else respond (Me (bearerToken r) (ext w 0 s)) (\<lambda>auth. writeJSON 200 (AuthBody auth)))"

definition handleLedger :: "world \<Rightarrow> HttpRequest \<Rightarrow> service \<Rightarrow> (service \<times> reply) option" where
  "handleLedger w r s =
     (if Method r \<noteq> ''GET'' then Some (s, methodNotAllowed)
      else respond (LedgerForUser (bearerToken r) (ext w 0 s))
        (\<lambda>(entries, balance). writeJSON 200 (LedgerBody entries balance)))"

section \<open>Reactions\<close>

definition reactionOf :: "string \<Rightarrow> Reaction" where
  "reactionOf t =
     (if t = ''none'' then ReactionNone else if t = ''like'' then ReactionLike
      else if t = ''dislike'' then ReactionDislike else ReactionOther t)"

definition reactionStore :: "Reaction storer" where
  "reactionStore n v x = storeString v (\<lambda>t _. reactionOf t) x"

definition handleAnswerRoutes :: "world \<Rightarrow> HttpRequest \<Rightarrow> service \<Rightarrow> (service \<times> reply) option" where
  "handleAnswerRoutes w r s =
     (if \<not> HasSuffix (Path r) ''/reaction'' then Some (s, routeNotFound)
      else if Method r \<noteq> ''POST'' then Some (s, methodNotAllowed)
      else let requestID = TrimSuffix (TrimPrefix (Path r) ''/api/answers/'') ''/reaction'' in
        if requestID = []
        then Some (s, writeError 400 ''bad_request'' (Literal ''request id is required''))
        else case decodeJSON [''reaction''] reactionStore (Body r) (ReactionOther []) of
          Inl err \<Rightarrow> Some (s, err)
        | Inr reaction \<Rightarrow>
            respond (React (ids w 0 0) (clk w 0 0) (clk w 0 1) (bearerToken r) requestID reaction
                (ext w 0 s))
              (\<lambda>balance. writeJSON 200 (ReactionBody balance reaction)))"

section \<open>The public list and the conversations\<close>

text \<open>\<open>ord\<close> is the order in which \<open>Board\<close> and \<open>ListConversations\<close> range over their map.\<close>

definition handleBoard ::
  "string list \<Rightarrow> world \<Rightarrow> HttpRequest \<Rightarrow> service \<Rightarrow> (service \<times> reply) option"
where
  "handleBoard ord w r s =
     (if Method r \<noteq> ''GET'' then Some (s, methodNotAllowed)
      else
        let v = queryGet r ''limit'';
            limit = (if v \<noteq> [] then (case Atoi v of Some n \<Rightarrow> if n > 0 then n else 50 | None \<Rightarrow> 50)
                     else 50);
            s0 = ext w 0 s
        in Some (s0, writeJSON 200 (TicketsBody (Board ord limit s0))))"

definition handleConversations ::
  "string list \<Rightarrow> world \<Rightarrow> HttpRequest \<Rightarrow> service \<Rightarrow> (service \<times> reply) option"
where
  "handleConversations ord w r s =
     (let token = bearerToken r in
      if Method r = ''GET'' then
        respond (Some (ext w 0 s, ListConversations ord token (ext w 0 s)))
          (\<lambda>convs. writeJSON 200 (ConversationsBody convs))
      else if Method r = ''POST'' then
        (let (title, _) = Decode False [''title''] nameStore (Body r) [] in
         respond (Some (CreateConversation (ids w 0 0) (clk w 0 0) token title (ext w 0 s)))
           (\<lambda>conv. writeJSON 201 (ConversationBody conv)))
      else Some (s, methodNotAllowed))"

type_synonym patchBody = "string option \<times> bool option"

definition patchStore :: "patchBody storer" where
  "patchStore n v b =
     (if n = ''title'' then storeStringPtr v (\<lambda>t (_, a). (t, a)) b
      else storeBoolPtr v (\<lambda>a (t, _). (t, a)) b)"

definition handleConversationItem :: "world \<Rightarrow> HttpRequest \<Rightarrow> service \<Rightarrow> service \<times> reply" where
  "handleConversationItem w r s =
     (let token = bearerToken r; cid = TrimPrefix (Path r) ''/api/conversations/'' in
      if cid = [] \<or> CHR ''/'' \<in> set cid then (s, routeNotFound)
      else if Method r = ''GET'' then
        (let s0 = ext w 0 s in
         case GetConversation token cid s0 of
           Inl err \<Rightarrow> (s0, writeServiceError err)
         | Inr (conv, msgs) \<Rightarrow> (s0, writeJSON 200 (DetailBody conv msgs)))
      else if Method r = ''PATCH'' then
        (case decodeJSON [''title'', ''archived''] patchStore (Body r) (None, None) of
           Inl err \<Rightarrow> (s, err)
         | Inr (title, archived) \<Rightarrow>
             (case (case title of
                 None \<Rightarrow> (s, None)
               | Some t \<Rightarrow> RenameConversation (clk w 0 0) token cid t (ext w 0 s)) of
                (s1, Some err) \<Rightarrow> (s1, writeServiceError err)
              | (s1, None) \<Rightarrow>
                  (case (case archived of
                      None \<Rightarrow> (s1, None)
                    | Some b \<Rightarrow> SetConversationArchived (clk w 1 0) token cid b (ext w 1 s1)) of
                     (s2, Some err) \<Rightarrow> (s2, writeServiceError err)
                   | (s2, None) \<Rightarrow> (s2, writeJSON 200 (StatusBody ''ok'' None)))))
      else if Method r = ''DELETE'' then
        (case DeleteConversation token cid (ext w 0 s) of
           (s1, Some err) \<Rightarrow> (s1, writeServiceError err)
         | (s1, None) \<Rightarrow> (s1, writeJSON 200 (StatusBody ''ok'' None)))
      else (s, methodNotAllowed))"

end
