(* ===== verification/HttpStreams.thy ===== *)
theory HttpStreams
  imports HttpApi
begin

text \<open>
  The handlers that stay: the chat completion with its streaming and its blocking answer
  (\<open>internal/httpapi/openai.go\<close>) and the spectator's stream (\<open>board.go\<close>). Each waits in a
  \<open>select\<close>; the branches it takes are given as a list of \<open>wake\<close>s, and \<open>Running\<close> is a loop that
  is still waiting when the list ends. Every service call of a handler has its own index in the
  \<open>world\<close>, so that others may act between any two of them.
\<close>

section \<open>Events of a subscription\<close>

datatype 'a received = Got 'a | Closed | Blocked

definition recvEvent :: "nat \<Rightarrow> service \<Rightarrow> service \<times> StreamEvent received" where
  "recvEvent ch s =
     (case heap_get (streamChans s) ch of
        None \<Rightarrow> (s, Blocked)
      | Some c \<Rightarrow>
          (case recv c of
             Some (v, c') \<Rightarrow> (s\<lparr>streamChans := (streamChans s)[ch := c']\<rparr>, Got v)
           | None \<Rightarrow> (s, if cclosed c then Closed else Blocked)))"

text \<open>The branch of the \<open>select\<close> that runs; a branch on an empty open channel does not.\<close>

datatype wake = CtxDone | Heartbeat | EventReady

section \<open>Chat completions\<close>

record chatCompletionRequest =
  crModel :: string
  crMessages :: "Message list"
  crStream :: bool
  crMaxTokens :: int
  crConversationID :: string
  crAllowAIAnswers :: "bool option"

definition chatFields :: "string list" where
  "chatFields = [''model'', ''messages'', ''stream'', ''max_tokens'', ''conversation_id'', ''allow_ai_answers'']"

definition chatStore :: "chatCompletionRequest storer" where
  "chatStore n v b =
     (if n = ''model'' then storeString v (\<lambda>t b. b\<lparr>crModel := t\<rparr>) b
      else if n = ''messages'' then storeMessages True v (\<lambda>ms b. b\<lparr>crMessages := ms\<rparr>) b
      else if n = ''stream'' then storeBool v (\<lambda>x b. b\<lparr>crStream := x\<rparr>) b
      else if n = ''max_tokens'' then storeInt v (\<lambda>x b. b\<lparr>crMaxTokens := x\<rparr>) b
      else if n = ''conversation_id'' then storeString v (\<lambda>t b. b\<lparr>crConversationID := t\<rparr>) b
      else storeBoolPtr v (\<lambda>x b. b\<lparr>crAllowAIAnswers := x\<rparr>) b)"

definition zeroChat :: chatCompletionRequest where
  "zeroChat = \<lparr>crModel = [], crMessages = [], crStream = False, crMaxTokens = 0,
     crConversationID = [], crAllowAIAnswers = None\<rparr>"

definition streamChunk ::
  "time \<Rightarrow> Request \<Rightarrow> (string \<times> string) list \<Rightarrow> FinishReason option \<Rightarrow> chatCompletionResponse"
where
  "streamChunk now req delta finishReason =
     \<lparr>RspID = ''chatcmpl_'' @ ReqID req, RspObject = ''chat.completion.chunk'',
      RspCreated = Unix now, RspModel = Model req,
      RspChoices = [\<lparr>ChIndex = 0, ChMessage = None, ChDelta = delta, ChFinish = finishReason\<rparr>],
      RspResponderKind = []\<rparr>"

text \<open>The responder's kind on a chunk, from a snapshot taken when the chunk is written.\<close>

definition stampKind :: "string \<Rightarrow> service \<Rightarrow> chatCompletionResponse \<Rightarrow> chatCompletionResponse" where
  "stampKind requestID s chunk =
     (case RequestSnapshot requestID s of
        Inl _ \<Rightarrow> chunk
      | Inr (snap, _) \<Rightarrow> chunk\<lparr>RspResponderKind := ResponderKind snap\<rparr>)"

text \<open>\<open>persistAssistant\<close> makes the calls \<open>i\<close> and \<open>i + 1\<close>.\<close>

definition persistAssistant ::
  "world \<Rightarrow> nat \<Rightarrow> string \<Rightarrow> string \<Rightarrow> string \<Rightarrow> service \<Rightarrow> service"
where
  "persistAssistant w i convID token requestID s =
     (if convID = [] then s
      else
        let s0 = ext w i s in
        case RequestSnapshot requestID s0 of
          Inl _ \<Rightarrow> s0
        | Inr (snap, answer) \<Rightarrow>
            if answer = [] then s0
            else fst (AppendConversationMessage (ids w (i + 1) 0) (clk w (i + 1) 0) token convID
                   ''assistant'' answer (ResponderKind snap) requestID (ext w (i + 1) s0)))"

text \<open>The deferred \<open>unsubscribe\<close>, after which the handler has answered.\<close>

definition leaveStream :: "world \<Rightarrow> nat \<Rightarrow> string \<Rightarrow> nat \<Rightarrow> service \<Rightarrow> reply \<Rightarrow> (service \<times> reply) run" where
  "leaveStream w i requestID ch s rep =
     (case unsubscribe requestID ch (ext w i s) of None \<Rightarrow> Panic | Some s' \<Rightarrow> Returned (s', rep))"

fun streamLoop ::
  "world \<Rightarrow> Request \<Rightarrow> string \<Rightarrow> string \<Rightarrow> nat \<Rightarrow> wake list \<Rightarrow> nat \<Rightarrow> sse list \<Rightarrow> service
   \<Rightarrow> (service \<times> reply) run"
where
  "streamLoop w req convID token ch [] i out s = Running"
| "streamLoop w req convID token ch (CtxDone # wakes) i out s =
     (case CancelBeforeFirstFragment (clk w i 0) (ReqID req) (ext w i s) of
        None \<Rightarrow> Panic
      | Some (s1, _) \<Rightarrow> leaveStream w (i + 1) (ReqID req) ch s1 (EventStream out))"
| "streamLoop w req convID token ch (Heartbeat # wakes) i out s =
     streamLoop w req convID token ch wakes i (out @ [Comment '': waiting'']) s"
| "streamLoop w req convID token ch (EventReady # wakes) i out s =
     (case recvEvent ch (ext w i s) of
        (s1, Blocked) \<Rightarrow> streamLoop w req convID token ch wakes (i + 1) out s1
      | (s1, Closed) \<Rightarrow> leaveStream w (i + 1) (ReqID req) ch s1 (EventStream out)
      | (s1, Got (StreamEventFragment _ t)) \<Rightarrow>
          (let s2 = ext w (i + 1) s1;
               chunk = stampKind (ReqID req) s2
                 (streamChunk (clk w (i + 1) 0) req [(''content'', t)] None)
           in streamLoop w req convID token ch wakes (i + 2) (out @ [Chunk chunk]) s2)
      | (s1, Got (StreamEventDone _ reason)) \<Rightarrow>
          (let s2 = ext w (i + 1) s1;
               chunk = stampKind (ReqID req) s2 (streamChunk (clk w (i + 1) 0) req [] (Some reason));
               s3 = persistAssistant w (i + 2) convID token (ReqID req) s2
           in leaveStream w (i + 4) (ReqID req) ch s3 (EventStream (out @ [Chunk chunk, DoneMark]))))"

definition streamChatCompletion ::
  "world \<Rightarrow> HttpRequest \<Rightarrow> Request \<Rightarrow> string \<Rightarrow> string \<Rightarrow> wake list \<Rightarrow> nat \<Rightarrow> service
   \<Rightarrow> (service \<times> reply) run"
where
  "streamChatCompletion w r req convID token wakes i s =
     (if \<not> CanFlush r
      then Returned (s, writeError 500 ''streaming_unsupported''
             (Literal ''response writer does not support streaming''))
      else case Subscribe (ReqID req) (ext w i s) of
        None \<Rightarrow> Panic
      | Some (s1, Inl err) \<Rightarrow> Returned (s1, writeServiceError err)
      | Some (s1, Inr ch) \<Rightarrow> streamLoop w req convID token ch wakes (i + 1) [] s1)"

fun blockingLoop ::
  "world \<Rightarrow> Request \<Rightarrow> string \<Rightarrow> string \<Rightarrow> nat \<Rightarrow> wake list \<Rightarrow> nat \<Rightarrow> string \<Rightarrow> service
   \<Rightarrow> (service \<times> reply) run"
where
  "blockingLoop w req convID token ch [] i content s = Running"
| "blockingLoop w req convID token ch (CtxDone # wakes) i content s =
     (case CancelBeforeFirstFragment (clk w i 0) (ReqID req) (ext w i s) of
        None \<Rightarrow> Panic
      | Some (s1, _) \<Rightarrow> leaveStream w (i + 1) (ReqID req) ch s1 Disconnected)"
| "blockingLoop w req convID token ch (Heartbeat # wakes) i content s =
     blockingLoop w req convID token ch wakes i content s"
| "blockingLoop w req convID token ch (EventReady # wakes) i content s =
     (case recvEvent ch (ext w i s) of
        (s1, Blocked) \<Rightarrow> blockingLoop w req convID token ch wakes (i + 1) content s1
      | (s1, Closed) \<Rightarrow>
          leaveStream w (i + 1) (ReqID req) ch s1
            (writeError 503 ''stream_unavailable'' (Literal ''answer stream closed unexpectedly''))
      | (s1, Got (StreamEventFragment _ t)) \<Rightarrow>
          blockingLoop w req convID token ch wakes (i + 1) (content @ t) s1
      | (s1, Got (StreamEventDone _ finishReason)) \<Rightarrow>
          (let resp = \<lparr>RspID = ''chatcmpl_'' @ ReqID req, RspObject = ''chat.completion'',
                 RspCreated = Unix (clk w i 1), RspModel = Model req,
                 RspChoices = [\<lparr>ChIndex = 0,
                   ChMessage = Some \<lparr>Role = ''assistant'', Content = content\<rparr>, ChDelta = [],
                   ChFinish = Some finishReason\<rparr>],
                 RspResponderKind = []\<rparr>;
               s2 = persistAssistant w (i + 1) convID token (ReqID req) s1
           in leaveStream w (i + 3) (ReqID req) ch s2 (writeJSON 200 (CompletionBody resp))))"

definition blockingChatCompletion ::
  "world \<Rightarrow> HttpRequest \<Rightarrow> Request \<Rightarrow> string \<Rightarrow> string \<Rightarrow> wake list \<Rightarrow> nat \<Rightarrow> service
   \<Rightarrow> (service \<times> reply) run"
where
  "blockingChatCompletion w r req convID token wakes i s =
     (case Subscribe (ReqID req) (ext w i s) of
        None \<Rightarrow> Panic
      | Some (s1, Inl err) \<Rightarrow> Returned (s1, writeServiceError err)
      | Some (s1, Inr ch) \<Rightarrow> blockingLoop w req convID token ch wakes (i + 1) [] s1)"

text \<open>
  The user's turn of a bound conversation is stored before the answer is awaited. The goroutine
  started by \<open>scheduleFallback\<close> acts on its own: it is one of the others in \<open>world\<close>.
\<close>

definition bindConversation ::
  "world \<Rightarrow> nat \<Rightarrow> chatCompletionRequest \<Rightarrow> string \<Rightarrow> string \<Rightarrow> service \<Rightarrow> service"
where
  "bindConversation w i body token requestID s =
     (if crConversationID body \<noteq> [] \<and> crMessages body \<noteq> [] \<and> Role (last (crMessages body)) = ''user''
      then fst (AppendConversationMessage (ids w i 0) (clk w i 0) token (crConversationID body) ''user''
             (Content (last (crMessages body))) [] requestID (ext w i s))
      else s)"

text \<open>The part of \<open>handleChatCompletions\<close> up to \<open>scheduleFallback\<close>.\<close>

definition acceptChat ::
  "world \<Rightarrow> HttpRequest \<Rightarrow> service
   \<Rightarrow> (service \<times> (reply + (chatCompletionRequest \<times> string \<times> Request))) option"
where
  "acceptChat w r s =
     (if Method r \<noteq> ''POST'' then Some (s, Inl methodNotAllowed)
      else case decodeJSON chatFields chatStore (Body r) zeroChat of
        Inl err \<Rightarrow> Some (s, Inl err)
      | Inr body \<Rightarrow>
          (let model = (if crModel body = [] then ''deeperseek-human'' else crModel body);
               token = bearerToken r;
               allowAIAnswers = (case crAllowAIAnswers body of None \<Rightarrow> True | Some b \<Rightarrow> b)
           in case CreateRequest (ids w 0) (clk w 0 0) token model (crMessages body)
                (crMaxTokens body) [allowAIAnswers] (ext w 0 s) of
             None \<Rightarrow> None
           | Some (s1, Inl err) \<Rightarrow> Some (s1, Inl (writeServiceError err))
           | Some (s1, Inr req) \<Rightarrow>
               Some (bindConversation w 1 body token (ReqID req) s1, Inr (body, token, req))))"

definition handleChatCompletions ::
  "world \<Rightarrow> HttpRequest \<Rightarrow> wake list \<Rightarrow> service \<Rightarrow> (service \<times> reply) run"
where
  "handleChatCompletions w r wakes s =
     (case acceptChat w r s of
        None \<Rightarrow> Panic
      | Some (s2, Inl rep) \<Rightarrow> Returned (s2, rep)
      | Some (s2, Inr (body, token, req)) \<Rightarrow>
          if crStream body
          then streamChatCompletion w r req (crConversationID body) token wakes 2 s2
          else blockingChatCompletion w r req (crConversationID body) token wakes 2 s2)"

section \<open>Watching\<close>

fun watchLoop ::
  "world \<Rightarrow> string \<Rightarrow> Request \<Rightarrow> nat \<Rightarrow> wake list \<Rightarrow> nat \<Rightarrow> sse list \<Rightarrow> service \<Rightarrow> (service \<times> reply) run"
where
  "watchLoop w requestID req ch [] i out s = Running"
| "watchLoop w requestID req ch (CtxDone # wakes) i out s =
     leaveStream w i requestID ch s (EventStream out)"
| "watchLoop w requestID req ch (Heartbeat # wakes) i out s =
     watchLoop w requestID req ch wakes i (out @ [Comment '': watching'']) s"
| "watchLoop w requestID req ch (EventReady # wakes) i out s =
     (case recvEvent ch (ext w i s) of
        (s1, Blocked) \<Rightarrow> watchLoop w requestID req ch wakes (i + 1) out s1
      | (s1, Closed) \<Rightarrow> leaveStream w (i + 1) requestID ch s1 (EventStream out)
      | (s1, Got (StreamEventFragment _ t)) \<Rightarrow>
          watchLoop w requestID req ch wakes (i + 1)
            (out @ [Chunk (streamChunk (clk w i 0) req [(''content'', t)] None)]) s1
      | (s1, Got (StreamEventDone _ reason)) \<Rightarrow>
          leaveStream w (i + 1) requestID ch s1
            (EventStream (out @ [Chunk (streamChunk (clk w i 0) req [] (Some reason)), DoneMark])))"

definition handleBoardWatch ::
  "world \<Rightarrow> HttpRequest \<Rightarrow> string \<Rightarrow> wake list \<Rightarrow> service \<Rightarrow> (service \<times> reply) run"
where
  "handleBoardWatch w r requestID wakes s =
     (if Method r \<noteq> ''GET'' then Returned (s, methodNotAllowed)
      else
        let s0 = ext w 0 s;
            unavailable = writeError 404 ''not_found'' (Literal ''not available for spectating'')
        in case RequestSnapshot requestID s0 of
          Inl _ \<Rightarrow> Returned (s0, unavailable)
        | Inr (req, _) \<Rightarrow>
            if \<not> BoardEligible req then Returned (s0, unavailable)
            else if \<not> CanFlush r
            then Returned (s0, writeError 500 ''streaming_unsupported''
                   (Literal ''response writer does not support streaming''))
            else case Subscribe requestID (ext w 1 s0) of
              None \<Rightarrow> Panic
            | Some (s1, Inl err) \<Rightarrow> Returned (s1, writeServiceError err)
            | Some (s1, Inr ch) \<Rightarrow> watchLoop w requestID req ch wakes 2 [] s1)"

definition handleBoardRoutes ::
  "world \<Rightarrow> HttpRequest \<Rightarrow> wake list \<Rightarrow> service \<Rightarrow> (service \<times> reply) run"
where
  "handleBoardRoutes w r wakes s =
     (let rest = TrimPrefix (Path r) ''/api/board/''; (rid, found) = CutSuffix rest ''/watch'' in
      if found \<and> rid \<noteq> [] then handleBoardWatch w r rid wakes s
      else Returned (s, routeNotFound))"

end
