(* ===== verification/AnswerSocket.thy ===== *)
theory AnswerSocket
  imports HttpApi HttpStreams
begin

text \<open>
  The responder's WebSocket (\<open>internal/httpapi/websocket.go\<close>) and the server's routes
  (\<open>Handler\<close> and \<open>withCORS\<close> of \<open>server.go\<close>). The read loop of a socket is a function of the
  messages that arrive until reading fails; \<open>err\<close> is the loop's error variable, which the source
  declares outside the loop. The second goroutine, which forwards assignments, takes what is in
  the channel.
\<close>

section \<open>The read loop\<close>

record wsInbound =
  wsType :: string
  wsClientSeq :: int
  wsText :: string
  wsAcceptAIQuestions :: "bool option"

datatype wsOut =
  WsOK string | WsFragmentAck int string bool | WsBalance Balance | WsPong | WsError error
| WsAssigned AssignedRequest

definition wsOKKind :: "error option \<Rightarrow> string \<Rightarrow> wsOut list" where
  "wsOKKind err kind = (case err of None \<Rightarrow> [WsOK kind] | Some _ \<Rightarrow> [])"

definition errOf :: "error + 'a \<Rightarrow> error option" where
  "errOf x = (case x of Inl e \<Rightarrow> Some e | Inr _ \<Rightarrow> None)"

text \<open>
  One message: the state, the number of service calls made, the error variable and what is
  written, up to the check of \<open>err\<close> at the end of the round.
\<close>

definition wsMessage ::
  "world \<Rightarrow> string \<Rightarrow> string \<Rightarrow> wsInbound \<Rightarrow> nat \<Rightarrow> error option \<Rightarrow> service
   \<Rightarrow> (service \<times> nat \<times> error option \<times> wsOut list) option"
where
  "wsMessage w sessionID token msg i err s =
     (if wsType msg = ''available'' then do {
        let acceptAIQuestions = (case wsAcceptAIQuestions msg of None \<Rightarrow> True | Some b \<Rightarrow> b);
        (s1, x) \<leftarrow> MarkResponderAvailable (clk w i 0) sessionID [acceptAIQuestions] (ext w i s);
        Some (s1, i + 1, errOf x, wsOKKind (errOf x) ''available_ack'')
      }
      else if wsType msg = ''fragment'' then do {
        (s1, x) \<leftarrow> SubmitFragment (ids w i) (clk w i 0) sessionID (wsClientSeq msg) (wsText msg) (ext w i s);
        Some (s1, i + 1, errOf x,
          case x of
            Inl _ \<Rightarrow> []
          | Inr (fragment, duplicate) \<Rightarrow> [WsFragmentAck (wsClientSeq msg) (FrgText fragment) duplicate])
      }
      else if wsType msg = ''finish'' then do {
        (s1, x) \<leftarrow> Finish (ids w i 0) (clk w i 0) sessionID (ext w i s);
        case x of
          Inl e \<Rightarrow> Some (s1, i + 1, Some e, [])
        | Inr _ \<Rightarrow> do {
            (s2, y) \<leftarrow> Me token (ext w (i + 1) s1);
            Some (s2, i + 2, None, WsOK ''finish_ack'' #
              (case y of Inl _ \<Rightarrow> [] | Inr auth \<Rightarrow> [WsBalance (AuthBalance auth)]))
          }
      }
      else if wsType msg = ''skip'' then do {
        (s1, x) \<leftarrow> Skip (clk w i 0) (clk w i 1) sessionID (ext w i s);
        Some (s1, i + 1, errOf x, wsOKKind (errOf x) ''skip_ack'')
      }
      else if wsType msg = ''ping'' then Some (s, i, err, [WsPong])
      else Some (s, i, Some ErrResponderUnavailable, []))"

fun wsLoop ::
  "world \<Rightarrow> string \<Rightarrow> string \<Rightarrow> wsInbound list \<Rightarrow> nat \<Rightarrow> error option \<Rightarrow> service
   \<Rightarrow> (service \<times> nat \<times> wsOut list) option"
where
  "wsLoop w sessionID token [] i err s = Some (s, i, [])"
| "wsLoop w sessionID token (msg # msgs) i err s = do {
     (s1, i1, err1, out) \<leftarrow> wsMessage w sessionID token msg i err s;
     let reported = (case err1 of None \<Rightarrow> [] | Some e \<Rightarrow> [WsError e]);
     (s2, i2, rest) \<leftarrow> wsLoop w sessionID token msgs i1 err1 s1;
     Some (s2, i2, out @ reported @ rest)
   }"

text \<open>
  The whole connection: \<open>upgraded\<close> says whether the protocol switch succeeds, \<open>msgs\<close> are the
  messages read before the connection fails. The reply is \<open>Disconnected\<close> once the socket is up.
\<close>

definition handleAnswerWebSocket ::
  "world \<Rightarrow> bool \<Rightarrow> HttpRequest \<Rightarrow> wsInbound list \<Rightarrow> service \<Rightarrow> (service \<times> reply \<times> wsOut list) option"
where
  "handleAnswerWebSocket w upgraded r msgs s =
     (let token = bearerTokenWS r in
      if token = []
      then Some (s, writeError 401 ''unauthorized'' (Literal ''responder token required''), [])
      else do {
        (s1, x) \<leftarrow> RegisterResponder token (ext w 0 s);
        case x of
          Inl err \<Rightarrow> Some (s1, writeServiceError err, [])
        | Inr (sessionID, assignments) \<Rightarrow>
            if \<not> upgraded then do {
              s2 \<leftarrow> UnregisterResponder (ids w 1 0) (clk w 1 0) sessionID (ext w 1 s1);
              Some (s2, Disconnected, [])
            }
            else do {
              (s2, i, out) \<leftarrow> wsLoop w sessionID token msgs 1 None s1;
              s3 \<leftarrow> UnregisterResponder (ids w i 0) (clk w i 0) sessionID (ext w i s2);
              Some (s3, Disconnected, out)
            }
      })"

text \<open>
  The forwarding goroutine: \<open>n\<close> bounds the values it takes; it stops when the channel is closed
  and drained, or when a write fails (\<open>broken\<close>), with the value already taken.
\<close>

fun forwardAssignments ::
  "nat \<Rightarrow> (nat \<Rightarrow> bool) \<Rightarrow> nat \<Rightarrow> service \<Rightarrow> service \<times> wsOut list"
where
  "forwardAssignments 0 broken ch s = (s, [])"
| "forwardAssignments (Suc n) broken ch s =
     (case heap_get (assignChans s) ch of
        None \<Rightarrow> (s, [])
      | Some c \<Rightarrow>
          (case recv c of
             None \<Rightarrow> (s, [])
           | Some (a, c') \<Rightarrow>
               (let s1 = s\<lparr>assignChans := (assignChans s)[ch := c']\<rparr> in
                if broken n then (s1, [])
                else let (s2, out) = forwardAssignments n broken ch s1 in (s2, WsAssigned a # out))))"

section \<open>Routes\<close>

datatype endpoint =
  EpHealth | EpReady | EpRegister | EpLogin | EpGuest | EpMe | EpLedger | EpBoard | EpBoardItem
| EpConversations | EpConversationItem | EpAnswers | EpChat | EpSocket | EpFrontend | EpNone

definition exactRoutes :: "(string \<times> endpoint) list" where
  "exactRoutes = [(''/api/health'', EpHealth), (''/api/ready'', EpReady), (''/api/register'', EpRegister),
     (''/api/login'', EpLogin), (''/api/guest'', EpGuest), (''/api/me'', EpMe),
     (''/api/points/ledger'', EpLedger), (''/api/board'', EpBoard),
     (''/api/conversations'', EpConversations), (''/v1/chat/completions'', EpChat),
     (''/ws/answer'', EpSocket)]"

definition treeRoutes :: "(string \<times> endpoint) list" where
  "treeRoutes = [(''/api/board/'', EpBoardItem), (''/api/conversations/'', EpConversationItem),
     (''/api/answers/'', EpAnswers)]"

text \<open>
  \<open>http.ServeMux\<close>: the path is cleaned, an exact pattern wins over a tree, a tree over the root,
  and a path that is not clean, or that lacks the final slash of a tree, is redirected. The path of a
  \<open>CONNECT\<close> request is used as it is, and matches nothing without its slash.
\<close>

definition muxClean :: "string \<Rightarrow> string" where
  "muxClean p =
     (let q = (if HasPrefix p ''/'' then p else ''/'' @ p); np = Clean q in
      if p = [] then ''/'' else if HasSuffix q ''/'' \<and> np \<noteq> ''/'' then np @ ''/'' else np)"

definition matchRoute :: "string \<Rightarrow> endpoint" where
  "matchRoute p =
     (case map_of exactRoutes p of
        Some ep \<Rightarrow> ep
      | None \<Rightarrow>
          (case find (\<lambda>(pat, _). HasPrefix p pat) treeRoutes of
             Some (_, ep) \<Rightarrow> ep
           | None \<Rightarrow> if HasPrefix p ''/'' then EpFrontend else EpNone))"

definition route :: "HttpRequest \<Rightarrow> string + endpoint" where
  "route r =
     (let p = (if Method r = ''CONNECT'' then Path r else muxClean (Path r)) in
      if map_of exactRoutes p = None \<and> map_of treeRoutes (p @ ''/'') \<noteq> None then Inl (muxClean (Path r) @ ''/'')
      else if p \<noteq> Path r then Inl p
      else Inr (matchRoute p))"

definition limitedEndpoint :: "endpoint \<Rightarrow> bool" where
  "limitedEndpoint ep \<longleftrightarrow> ep \<in> {EpRegister, EpLogin, EpGuest, EpChat}"

text \<open>What the handlers need from outside: bcrypt, the file system, map orders, the wake-ups.\<close>

record surroundings =
  surGen :: "string \<Rightarrow> string option"
  surCmp :: "string \<Rightarrow> string \<Rightarrow> bool"
  surIsFile :: "string \<Rightarrow> bool"
  surOrd :: "string list"
  surWakes :: "wake list"
  surUpgraded :: bool
  surInbound :: "wsInbound list"
  surNow :: time

definition ofOption :: "(service \<times> reply) option \<Rightarrow> (service \<times> reply) run" where
  "ofOption x = (case x of None \<Rightarrow> Panic | Some v \<Rightarrow> Returned v)"

definition dispatch ::
  "surroundings \<Rightarrow> world \<Rightarrow> Server \<Rightarrow> HttpRequest \<Rightarrow> endpoint \<Rightarrow> service \<Rightarrow> (service \<times> reply) run"
where
  "dispatch e w srv r ep s =
     (case ep of
        EpHealth \<Rightarrow> Returned (s, handleHealth srv r)
      | EpReady \<Rightarrow> Returned (s, handleReady srv 0 r)
      | EpRegister \<Rightarrow> ofOption (handleRegister (surGen e) w r s)
      | EpLogin \<Rightarrow> ofOption (handleLogin (surCmp e) w r s)
      | EpGuest \<Rightarrow> ofOption (handleGuest w r s)
      | EpMe \<Rightarrow> ofOption (handleMe w r s)
      | EpLedger \<Rightarrow> ofOption (handleLedger w r s)
      | EpBoard \<Rightarrow> ofOption (handleBoard (surOrd e) w r s)
      | EpBoardItem \<Rightarrow> handleBoardRoutes w r (surWakes e) s
      | EpConversations \<Rightarrow> ofOption (handleConversations (surOrd e) w r s)
      | EpConversationItem \<Rightarrow> Returned (handleConversationItem w r s)
      | EpAnswers \<Rightarrow> ofOption (handleAnswerRoutes w r s)
      | EpChat \<Rightarrow> handleChatCompletions w r (surWakes e) s
      | EpSocket \<Rightarrow>
          ofOption (map_option (\<lambda>(s', rep, _). (s', rep))
            (handleAnswerWebSocket w (surUpgraded e) r (surInbound e) s))
      | EpFrontend \<Rightarrow> Returned (s, handleFrontend (surIsFile e) srv r)
      | EpNone \<Rightarrow> Returned (s, PlainError 404))"

definition tooManyText :: string where
  "tooManyText = [CHR 0xE8, CHR 0xAF, CHR 0xB7, CHR 0xE6, CHR 0xB1, CHR 0x82, CHR 0xE5, CHR 0xA4, CHR 0xAA,
     CHR 0xE9, CHR 0xA2, CHR 0x91, CHR 0xE7, CHR 0xB9, CHR 0x81, CHR 0xEF, CHR 0xBC, CHR 0x8C,
     CHR 0xE7, CHR 0xA8, CHR 0x8D, CHR 0xE7, CHR 0xAD, CHR 0x89, CHR 0xE4, CHR 0xB8, CHR 0x80,
     CHR 0xE4, CHR 0xB8, CHR 0x8B, CHR 0xE5, CHR 0x86, CHR 0x8D, CHR 0xE8, CHR 0xAF, CHR 0x95,
     CHR 0xE3, CHR 0x80, CHR 0x82]"

definition serveLimited ::
  "surroundings \<Rightarrow> world \<Rightarrow> HttpRequest \<Rightarrow> endpoint \<Rightarrow> Server \<Rightarrow> service
   \<Rightarrow> Server \<times> (service \<times> reply) run"
where
  "serveLimited e w r ep srv s =
     (if limitedEndpoint ep then
        (let ip = clientIP (ForwardedFor r) (RemoteAddr r) (srvTrustedHops srv);
             (limiter, ok) = rateLimited (surNow e) (Method r) ip (srvLimiter srv);
             srv' = srv\<lparr>srvLimiter := limiter\<rparr>
         in if ok then (srv', dispatch e w srv' r ep s)
            else (srv', Returned (s, writeError 429 ''rate_limited'' (Literal tooManyText))))
      else (srv, dispatch e w srv r ep s))"

text \<open>\<open>withCORS\<close> answers every preflight itself; the three headers it sets are constant.\<close>

definition Handler ::
  "surroundings \<Rightarrow> world \<Rightarrow> HttpRequest \<Rightarrow> Server \<Rightarrow> service \<Rightarrow> Server \<times> (service \<times> reply) run"
where
  "Handler e w r srv s =
     (if Method r = ''OPTIONS'' then (srv, Returned (s, NoContent))
      else case route r of
        Inl target \<Rightarrow> (srv, Returned (s, RedirectTo target))
      | Inr ep \<Rightarrow> serveLimited e w r ep srv s)"

definition corsMethods :: "string list" where
  "corsMethods = [''GET'', ''POST'', ''OPTIONS'']"

end
