(* ===== verification/HttpSafety.thy ===== *)
theory HttpSafety
  imports AnswerSocket CoreFrames
begin

text \<open>
  The HTTP layer refines the service: whatever the handlers do, alone or among other clients, is a
  sequence of service steps, and they never panic. The handlers that keep a subscription need the
  others to leave that one channel alone (\<open>spares\<close>).
\<close>

section \<open>Served requests\<close>

definition spares :: "world \<Rightarrow> nat \<Rightarrow> bool" where
  "spares w ch \<longleftrightarrow> (\<forall>i s rid. ch \<in> set (mget0 (subscribers s) rid) \<longrightarrow>
     ch \<in> set (mget0 (subscribers (ext w i s)) rid))"

definition served :: "service \<Rightarrow> (service \<times> reply) run \<Rightarrow> bool" where
  "served s x \<longleftrightarrow> x \<noteq> Panic \<and> (\<forall>s' rep. x = Returned (s', rep) \<longrightarrow> svc_steps s s')"

lemma spares_alone [simp]: "spares (alone f) ch"
  by (simp add: spares_def alone_def)

lemma served_simps [simp]:
  "served s Running" "served s (Returned (s', rep)) \<longleftrightarrow> svc_steps s s'"
  by (simp_all add: served_def)

lemma served_steps: "svc_steps s t \<Longrightarrow> served t x \<Longrightarrow> served s x"
  by (auto simp: served_def intro: rtranclp_trans)

lemma served_respond:
  "res = Some (s1, x) \<Longrightarrow> svc_steps s s1 \<Longrightarrow> served s (ofOption (respond res k))"
  by (simp add: ofOption_def respond_def split: sum.split)

text \<open>A call that returns and is a step, made in the world.\<close>

lemma served_call:
  "rely w \<Longrightarrow> \<exists>t x. c = Some (t, x) \<Longrightarrow> (\<And>t x. c = Some (t, x) \<Longrightarrow> svc_step (ext w i s) t) \<Longrightarrow>
   served s (ofOption (respond c k))"
  using served_respond rely_then_step by blast

lemma conv_steps: "rely w \<Longrightarrow> conv_step (ext w i s) t \<Longrightarrow> svc_steps s t"
  using rely_then_step svc_step.conversation by blast

section \<open>The handlers that answer at once\<close>

lemma served_handleRegister:
  assumes "rely w" and "reachable s" and "fresh_token (ids w 0 3) (ext w 0 s)"
    and "mget (users (ext w 0 s)) (newID ''usr'' (ids w 0 0)) = None"
  shows "served s (ofOption (handleRegister gen w r s))"
proof -
  have "served s (ofOption (respond (Register gen (ids w 0) (clk w 0 0) a n p q (ext w 0 s)) k))"
    for a n p q k
  proof (rule served_call [OF assms(1)])
    show "\<exists>t x. Register gen (ids w 0) (clk w 0 0) a n p q (ext w 0 s) = Some (t, x)"
      using Register_evolve [OF inv_ext [OF assms(1,2)], of "ids w 0" 0] assms(3,4) by blast
  qed (rule svc_step.register [where rnd = "ids w 0", OF assms(3,4)])
  then show ?thesis by (simp add: handleRegister_def ofOption_def split: sum.split)
qed

lemma served_handleLogin:
  assumes "rely w" and "reachable s" and "fresh_token (ids w 0 1) (ext w 0 s)"
  shows "served s (ofOption (handleLogin cmp w r s))"
proof -
  have "served s (ofOption (respond (Login cmp (ids w 0) (clk w 0 0) a p (ext w 0 s)) k))" for a p k
  proof (rule served_call [OF assms(1)])
    show "\<exists>t x. Login cmp (ids w 0) (clk w 0 0) a p (ext w 0 s) = Some (t, x)"
      using Login_evolve [OF inv_ext [OF assms(1,2)], of "ids w 0" 0] assms(3) by blast
  qed (rule svc_step.login [where rnd = "ids w 0", OF assms(3)])
  then show ?thesis by (auto simp: handleLogin_def ofOption_def split: sum.split)
qed

lemma served_handleGuest:
  assumes "rely w" and "reachable s" and "fresh_token (ids w 0 1) (ext w 0 s)"
  shows "served s (ofOption (handleGuest w r s))"
proof -
  have "\<exists>t a. GuestSession (ids w 0) (clk w 0 0) nick (ext w 0 s) = Some (t, a) \<and> svc_steps s t" for nick
    using GuestSession_evolve [OF inv_ext [OF assms(1,2)], of "ids w 0" 0] assms(3)
      rely_then_step [OF assms(1) svc_step.guest [where rnd = "ids w 0", OF assms(3)]] by blast
  from this [of "fst (Decode False [''nickname''] nameStore (Body r) [])"] show ?thesis
    by (auto simp: handleGuest_def ofOption_def split: prod.split)
qed

lemma served_read: "rely w \<Longrightarrow> served s (ofOption (respond (Some (ext w i s, x)) k))"
  using relyD served_respond by blast

lemma served_handleMe:
  assumes "rely w" and "reachable s"
  shows "served s (ofOption (handleMe w r s))"
proof -
  obtain x where "Me (bearerToken r) (ext w 0 s) = Some (ext w 0 s, x)"
    using Me_total [OF inv_ext [OF assms]] by blast
  then show ?thesis using served_read [OF assms(1), of s 0 x]
    by (simp add: handleMe_def ofOption_def)
qed

lemma served_handleLedger: "rely w \<Longrightarrow> served s (ofOption (handleLedger w r s))"
  using served_read [of w s 0]
  by (auto simp: handleLedger_def LedgerForUser_def ofOption_def respond_def split: option.splits)

lemma served_handleAnswerRoutes:
  assumes "rely w" and "reachable s"
  shows "served s (ofOption (handleAnswerRoutes w r s))"
proof -
  have "served s (ofOption (respond (React (ids w 0 0) (clk w 0 0) (clk w 0 1) (bearerToken r) rid x
      (ext w 0 s)) k))" for rid x k
    using served_call [OF assms(1)] React_evolve [OF inv_ext [OF assms]] svc_step.react by metis
  then show ?thesis
    by (auto simp: handleAnswerRoutes_def ofOption_def Let_def split: sum.split)
qed

lemma served_handleBoard: "rely w \<Longrightarrow> served s (ofOption (handleBoard ord w r s))"
  by (auto simp: handleBoard_def ofOption_def Let_def relyD)

lemma served_handleConversations:
  assumes "rely w" and "mget (conversations (ext w 0 s)) (newID ''cnv'' (ids w 0 0)) = None"
  shows "served s (ofOption (handleConversations ord w r s))"
proof -
  have "served s (ofOption (respond (Some (CreateConversation (ids w 0 0) (clk w 0 0) tok title (ext w 0 s))) k))"
    for tok title k
    using served_respond [OF _ conv_steps [OF assms(1) conv_step.create [OF assms(2)]]] prod.collapse
    by metis
  then show ?thesis using served_read [OF assms(1), of s 0]
    by (auto simp: handleConversations_def ofOption_def Let_def split: prod.split)
qed

lemma served_handleConversationItem:
  assumes "rely w"
  shows "svc_steps s (fst (handleConversationItem w r s))"
proof -
  let ?tok = "bearerToken r" and ?cid = "TrimPrefix (Path r) ''/api/conversations/''"
  note conv = conv_steps [OF assms]
  have ren: "svc_steps s (fst (case title of None \<Rightarrow> (s, None)
      | Some t \<Rightarrow> RenameConversation now ?tok ?cid t (ext w 0 s)))" for title now
    using conv [OF conv_step.rename] by (simp split: option.split)
  have arc: "svc_steps t (fst (case archived of None \<Rightarrow> (t, None)
      | Some b \<Rightarrow> SetConversationArchived now ?tok ?cid b (ext w 1 t)))" for t archived now
    using conv [OF conv_step.archive] by (simp split: option.split)
  have del: "svc_steps s (fst (DeleteConversation ?tok ?cid (ext w 0 s)))"
    by (rule conv [OF conv_step.delete])
  have patch: "svc_steps s (fst (case c of (t, Some err) \<Rightarrow> (t, f err)
      | (t, None) \<Rightarrow> (case d t of (u, Some err) \<Rightarrow> (u, f err) | (u, None) \<Rightarrow> (u, g))))"
    if "svc_steps s (fst c)" "\<And>t. svc_steps t (fst (d t))" for c :: "service \<times> error option" and d :: "service \<Rightarrow> service \<times> error option" and f g
    using that rtranclp_trans [of svc_step s "fst c" "fst (d (fst c))"]
    by (auto split: prod.split option.split)
  have body: "svc_steps s (fst (case x of Inl err \<Rightarrow> (s, err) | Inr (title, archived) \<Rightarrow> h title archived))"
    if "\<And>t a. svc_steps s (fst (h t a))" for x :: "reply + patchBody" and h :: "_ \<Rightarrow> _ \<Rightarrow> service \<times> reply"
    using that by (auto split: sum.split)
  have delete: "svc_steps s (fst (case c of (t, Some err) \<Rightarrow> (t, f err) | (t, None) \<Rightarrow> (t, g)))"
    if "svc_steps s (fst c)" for c :: "service \<times> error option" and f and g :: reply
    using that by (auto split: prod.split option.split)
  have get: "svc_steps s (fst (case GetConversation ?tok ?cid (ext w 0 s) of Inl err \<Rightarrow> (ext w 0 s, f err)
      | Inr (conv, msgs) \<Rightarrow> (ext w 0 s, g conv msgs)))" for f and g :: "_ \<Rightarrow> _ \<Rightarrow> reply"
    using relyD [OF assms] by (auto split: sum.split)
  show ?thesis
    unfolding handleConversationItem_def Let_def
    by (simp only: if_distrib [of fst] fst_conv rtranclp.rtrancl_refl get delete [OF del]
        body [OF patch [OF ren arc]] if_True if_cancel split: if_split)
      simp
qed

section \<open>The handlers that wait\<close>

definition subscribed :: "service \<Rightarrow> string \<Rightarrow> nat \<Rightarrow> bool" where
  "subscribed s rid ch \<longleftrightarrow> ch \<in> set (mget0 (subscribers s) rid)"

lemma subscribed_ext: "spares w ch \<Longrightarrow> subscribed s rid ch \<Longrightarrow> subscribed (ext w i s) rid ch"
  by (simp add: spares_def subscribed_def)

lemma subscribed_cong: "subscribers t = subscribers s \<Longrightarrow> subscribed t rid ch = subscribed s rid ch"
  by (simp add: subscribed_def)

lemma recvEvent_steps: "recvEvent ch s = (t, x) \<Longrightarrow> svc_steps s t"
  by (auto simp: recvEvent_def heap_get_def split: option.splits if_splits prod.splits
      intro: r_into_rtranclp svc_step.recv_event)

lemma recvEvent_subscribers: "recvEvent ch s = (t, x) \<Longrightarrow> subscribers t = subscribers s"
  by (auto simp: recvEvent_def split: option.splits)

lemma cancel_subscribers:
  "CancelBeforeFirstFragment now rid s = Some (t, b) \<Longrightarrow> subscribers t = subscribers s"
  by (auto simp: CancelBeforeFirstFragment_def abandonLocked_def abandonState_def Let_def put_req_def
      removeQueuedRequestLocked_def split: option.splits if_splits Option.bind_splits dest!: publish_only)

lemma append_subscribers:
  "subscribers (fst (AppendConversationMessage e now tok cid role c k rid s)) = subscribers s"
  using conv_step_frame [OF conv_step.append [of s e now tok cid role c k rid]] by auto

text \<open>
  What a waiting handler can rely on (\<open>attached\<close>), and what its own calls and the others keep of
  it (\<open>waiting\<close>).
\<close>

definition attached :: "world \<Rightarrow> string \<Rightarrow> nat \<Rightarrow> service \<Rightarrow> bool" where
  "attached w rid ch s \<longleftrightarrow> rely w \<and> spares w ch \<and> reachable s \<and> subscribed s rid ch"

definition waiting :: "string \<Rightarrow> nat \<Rightarrow> service \<Rightarrow> service \<Rightarrow> bool" where
  "waiting rid ch s t \<longleftrightarrow> svc_steps s t \<and> (subscribed s rid ch \<longrightarrow> subscribed t rid ch)"

lemma waiting_refl: "waiting rid ch s s"
  by (simp add: waiting_def)

lemma waiting_trans: "waiting rid ch s t \<Longrightarrow> waiting rid ch t u \<Longrightarrow> waiting rid ch s u"
  by (auto simp: waiting_def intro: rtranclp_trans)

lemma waiting_step: "svc_step s t \<Longrightarrow> subscribers t = subscribers s \<Longrightarrow> waiting rid ch s t"
  by (simp add: waiting_def subscribed_def r_into_rtranclp)

lemma waiting_ext: "rely w \<Longrightarrow> spares w ch \<Longrightarrow> waiting rid ch s (ext w i s)"
  by (simp add: waiting_def relyD subscribed_ext)

lemma waiting_recv: "recvEvent ch s = (t, x) \<Longrightarrow> waiting rid ch' s t"
  by (simp add: waiting_def subscribed_def recvEvent_steps recvEvent_subscribers)

lemma waiting_append: "waiting rid ch s (fst (AppendConversationMessage e now tok cid role c k rid' s))"
  by (rule waiting_step [OF svc_step.conversation [OF conv_step.append] append_subscribers])

lemma waiting_persist:
  assumes "rely w" and "spares w ch"
  shows "waiting rid ch s (persistAssistant w i cid tok rid' s)"
proof -
  note e = waiting_ext [OF assms]
  have "waiting rid ch s (fst (AppendConversationMessage e0 now tok cid role c k rid'
      (ext w (i + 1) (ext w i s))))" for e0 now role c k
    by (rule waiting_trans [OF waiting_trans [OF e e] waiting_append])
  then show ?thesis using e waiting_refl
    by (auto simp: persistAssistant_def Let_def split: sum.split)
qed

lemma attached_waiting: "attached w rid ch s \<Longrightarrow> waiting rid ch s t \<Longrightarrow> attached w rid ch t"
  by (auto simp: attached_def waiting_def intro: reachable_steps)

lemma served_waiting:
  "attached w rid ch s \<Longrightarrow> waiting rid ch s t \<Longrightarrow> (attached w rid ch t \<Longrightarrow> served t x) \<Longrightarrow> served s x"
  using attached_waiting by (auto simp: waiting_def intro: served_steps)

lemma attached_ext: "attached w rid ch s \<Longrightarrow> waiting rid ch s (ext w i s)"
  by (simp add: attached_def waiting_ext)

lemma leaveStream_served:
  assumes "attached w rid ch s" and "waiting rid ch s t"
  shows "served s (leaveStream w i rid ch t rep)"
proof (rule served_waiting [OF assms])
  assume t: "attached w rid ch t"
  then have sub: "ch \<in> set (mget0 (subscribers (ext w i t)) rid)" and inv: "svc_inv (ext w i t)"
    using subscribed_ext [of w ch t rid i] inv_ext by (auto simp: attached_def subscribed_def)
  obtain u where u: "unsubscribe rid ch (ext w i t) = Some u"
    using unsubscribe_evolve [OF inv sub] by blast
  have "rely w" using t by (simp add: attached_def)
  from rely_then_step [OF this svc_step.unsubscribe [OF sub u]] u
  show "served t (leaveStream w i rid ch t rep)" by (simp add: leaveStream_def)
qed

lemma disconnect_served:
  assumes "attached w rid ch s"
  shows "served s (case CancelBeforeFirstFragment now rid' (ext w i s) of None \<Rightarrow> Panic
    | Some (t, _) \<Rightarrow> leaveStream w j rid ch t rep)"
proof -
  obtain t b where t: "CancelBeforeFirstFragment now rid' (ext w i s) = Some (t, b)"
    using Cancel_evolve [OF inv_ext [of w s i]] assms by (meson attached_def)
  have "waiting rid ch s t"
    using waiting_trans [OF attached_ext [OF assms] waiting_step [OF svc_step.cancel [OF t] cancel_subscribers [OF t]]] .
  from leaveStream_served [OF assms this] t show ?thesis by simp
qed

lemma received_waiting:
  "attached w rid ch s \<Longrightarrow> recvEvent ch (ext w i s) = (t, x) \<Longrightarrow> waiting rid ch s t"
  using waiting_trans [OF attached_ext waiting_recv] .

lemma streamLoop_served:
  "attached w (ReqID req) ch s \<Longrightarrow> served s (streamLoop w req cid tok ch wakes i out s)"
proof (induction wakes arbitrary: i out s)
  case (Cons wk wakes)
  show ?case
  proof (cases wk)
    case EventReady
    obtain t x where t: "recvEvent ch (ext w i s) = (t, x)" by (cases "recvEvent ch (ext w i s)")
    note wt = received_waiting [OF Cons.prems t]
    note at = attached_waiting [OF Cons.prems wt]
    note wu = waiting_trans [OF wt attached_ext [OF at]]
    have wp: "waiting (ReqID req) ch s (persistAssistant w k cid tok (ReqID req) (ext w j t))" for k j
      using waiting_trans [OF wu waiting_persist] at by (simp add: attached_def)
    note go = served_waiting [OF Cons.prems _ Cons.IH]
    show ?thesis using EventReady t go [OF wt] go [OF wu] leaveStream_served [OF Cons.prems wt]
        leaveStream_served [OF Cons.prems wp]
      by (simp add: Let_def split: received.split StreamEvent.split)
  qed (use Cons disconnect_served in \<open>simp_all\<close>)
qed simp

lemma blockingLoop_served:
  "attached w (ReqID req) ch s \<Longrightarrow> served s (blockingLoop w req cid tok ch wakes i content s)"
proof (induction wakes arbitrary: i content s)
  case (Cons wk wakes)
  show ?case
  proof (cases wk)
    case EventReady
    obtain t x where t: "recvEvent ch (ext w i s) = (t, x)" by (cases "recvEvent ch (ext w i s)")
    note wt = received_waiting [OF Cons.prems t]
    have wp: "waiting (ReqID req) ch s (persistAssistant w k cid tok (ReqID req) t)" for k
      using waiting_trans [OF wt waiting_persist] Cons.prems by (simp add: attached_def)
    show ?thesis
      using EventReady t served_waiting [OF Cons.prems wt Cons.IH] leaveStream_served [OF Cons.prems wt]
        leaveStream_served [OF Cons.prems wp]
      by (simp add: Let_def split: received.split StreamEvent.split)
  qed (use Cons disconnect_served in \<open>simp_all\<close>)
qed simp

lemma watchLoop_served:
  "attached w rid ch s \<Longrightarrow> served s (watchLoop w rid req ch wakes i out s)"
proof (induction wakes arbitrary: i out s)
  case (Cons wk wakes)
  show ?case
  proof (cases wk)
    case EventReady
    obtain t x where t: "recvEvent ch (ext w i s) = (t, x)" by (cases "recvEvent ch (ext w i s)")
    note wt = received_waiting [OF Cons.prems t]
    show ?thesis
      using EventReady t served_waiting [OF Cons.prems wt Cons.IH] leaveStream_served [OF Cons.prems wt]
      by (simp split: received.split StreamEvent.split)
  qed (use Cons leaveStream_served [OF _ waiting_refl] in \<open>simp_all\<close>)
qed simp

text \<open>A subscription that succeeds is attached, on the next free channel.\<close>

lemma Subscribe_attached:
  assumes "rely w" and "reachable s" and "spares w (length (streamChans (ext w i s)))"
    and g: "\<And>ch t. attached w rid ch t \<Longrightarrow> served t (g ch t)"
  shows "served s (case Subscribe rid (ext w i s) of None \<Rightarrow> Panic
      | Some (t, Inl err) \<Rightarrow> Returned (t, f err) | Some (t, Inr ch) \<Rightarrow> g ch t)"
proof -
  obtain t x where t: "Subscribe rid (ext w i s) = Some (t, x)"
    using Subscribe_evolve [OF inv_ext [OF assms(1,2)]] by blast
  have st: "svc_steps s t" by (rule rely_then_step [OF assms(1) svc_step.subscribe [OF t]])
  have "attached w rid ch t" if "x = Inr ch" for ch
  proof -
    have "ch = length (streamChans (ext w i s))" "subscribed t rid ch"
      using t that by (auto simp: Subscribe_def subscribed_def Let_def
          split: option.splits Option.bind_splits if_splits)
    then show ?thesis using assms st reachable_steps [OF assms(2)] by (simp add: attached_def)
  qed
  then show ?thesis using t st g served_steps [OF st] by (auto split: sum.split)
qed

text \<open>The channel a request will subscribe, if it does.\<close>

definition chatChannel :: "world \<Rightarrow> HttpRequest \<Rightarrow> service \<Rightarrow> nat" where
  "chatChannel w r s =
     (case acceptChat w r s of
        Some (t, _) \<Rightarrow> length (streamChans (ext w 2 t))
      | None \<Rightarrow> 0)"

definition watchChannel :: "world \<Rightarrow> service \<Rightarrow> nat" where
  "watchChannel w s = length (streamChans (ext w 1 (ext w 0 s)))"

lemma bind_steps: "rely w \<Longrightarrow> svc_steps s (bindConversation w i body tok rid s)"
  using conv_steps [OF _ conv_step.append] by (simp add: bindConversation_def)

lemma acceptChat_steps:
  assumes "rely w" and "reachable s" and "fresh_request (ids w 0 0) (ext w 0 s)"
  shows "\<exists>t x. acceptChat w r s = Some (t, x) \<and> svc_steps s t"
proof -
  have "\<exists>t x. CreateRequest (ids w 0) (clk w 0 0) tok model msgs n allow (ext w 0 s) = Some (t, x) \<and>
      svc_steps s t" for tok model msgs n allow
    using CreateRequest_evolve [OF inv_ext [OF assms(1,2)], of "ids w 0" 0] assms(3)
      rely_then_step [OF assms(1) svc_step.create [where rnd = "ids w 0", OF assms(3)]] by blast
  note c = this [of "bearerToken r"]
  show ?thesis
  proof (cases "decodeJSON chatFields chatStore (Body r) zeroChat")
    case (Inr body)
    from c [of "if crModel body = [] then ''deeperseek-human'' else crModel body" "crMessages body"
        "crMaxTokens body" "[case crAllowAIAnswers body of None \<Rightarrow> True | Some b \<Rightarrow> b]"]
    obtain t x where t: "CreateRequest (ids w 0) (clk w 0 0) (bearerToken r)
        (if crModel body = [] then ''deeperseek-human'' else crModel body) (crMessages body)
        (crMaxTokens body) [case crAllowAIAnswers body of None \<Rightarrow> True | Some b \<Rightarrow> b] (ext w 0 s) =
        Some (t, x)" "svc_steps s t" by blast
    show ?thesis using Inr t rtranclp_trans [OF t(2) bind_steps [OF assms(1)]]
      by (cases x) (simp_all add: acceptChat_def Let_def)
  qed (simp add: acceptChat_def)
qed

lemma chat_served:
  assumes "rely w" and "reachable s" and "fresh_request (ids w 0 0) (ext w 0 s)"
    and "spares w (chatChannel w r s)"
  shows "served s (handleChatCompletions w r wakes s)"
proof -
  obtain t x where t: "acceptChat w r s = Some (t, x)" "svc_steps s t"
    using acceptChat_steps [OF assms(1-3)] by blast
  have sp: "spares w (length (streamChans (ext w 2 t)))" using assms(4) t(1) by (simp add: chatChannel_def)
  note sub = Subscribe_attached [OF assms(1) reachable_steps [OF assms(2) t(2)] sp]
  have "served t (streamChatCompletion w r req cid tok wakes 2 t)" for req cid tok
    using sub [OF streamLoop_served] by (simp add: streamChatCompletion_def)
  moreover have "served t (blockingChatCompletion w r req cid tok wakes 2 t)" for req cid tok
    using sub [OF blockingLoop_served] by (simp add: blockingChatCompletion_def)
  ultimately show ?thesis
    using t served_steps [OF t(2)] by (auto simp: handleChatCompletions_def split: sum.split)
qed

lemma watch_served:
  assumes "rely w" and "reachable s" and "spares w (watchChannel w s)"
  shows "served s (handleBoardRoutes w r wakes s)"
proof -
  have e: "svc_steps s (ext w 0 s)" by (rule relyD [OF assms(1)])
  have "served (ext w 0 s) (case Subscribe rid (ext w 1 (ext w 0 s)) of None \<Rightarrow> Panic
      | Some (t, Inl err) \<Rightarrow> Returned (t, f err)
      | Some (t, Inr ch) \<Rightarrow> watchLoop w rid req ch wakes 2 [] t)" for rid f req
    by (rule Subscribe_attached [OF assms(1) reachable_steps [OF assms(2) e]])
      (use assms(3) watchLoop_served in \<open>simp_all add: watchChannel_def\<close>)
  then have "served s (handleBoardWatch w r rid wakes s)" for rid
    using e served_steps [OF e] by (auto simp: handleBoardWatch_def Let_def split: sum.split)
  then show ?thesis by (auto simp: handleBoardRoutes_def Let_def split: prod.split)
qed

section \<open>The socket\<close>

lemma wsMessage_steps:
  assumes "rely w" and "reachable s"
  shows "\<exists>t j e out. wsMessage w sid tok msg i err s = Some (t, j, e, out) \<and> svc_steps s t"
proof -
  note calls = world_calls [OF assms, where i = i]
  have me: "\<exists>x. Me tok (ext w j t) = Some (ext w j t, x) \<and> svc_steps s (ext w j t)" if "svc_steps s t" for t j
    using Me_total inv_ext [OF assms(1) reachable_steps [OF assms(2) that]] relyD [OF assms(1)] that
      rtranclp_trans by metis
  show ?thesis
  proof -
    consider "wsType msg = ''available''" | "wsType msg = ''fragment''" | "wsType msg = ''finish''"
      | "wsType msg = ''skip''"
      | "wsType msg \<notin> {''available'', ''fragment'', ''finish'', ''skip''}" by blast
    then show ?thesis
    proof cases
      case 1
      then show ?thesis using calls(1) [of "clk w i 0" sid "[case wsAcceptAIQuestions msg of None \<Rightarrow> True | Some b \<Rightarrow> b]"]
        by (auto simp: wsMessage_def)
    next
      case 3
      then obtain t x where t: "Finish (ids w i 0) (clk w i 0) sid (ext w i s) = Some (t, x)" "svc_steps s t"
        using calls(3) by blast
      show ?thesis using 3 t me [OF t(2), of "Suc i"] by (cases x) (auto simp: wsMessage_def)
    qed (use calls(2) [of "ids w i" "clk w i 0" sid "wsClientSeq msg" "wsText msg"]
      calls(4) [of "clk w i 0" "clk w i 1" sid] in \<open>auto simp: wsMessage_def\<close>)
  qed
qed

lemma wsLoop_steps:
  assumes "rely w" and "reachable s"
  shows "\<exists>t j out. wsLoop w sid tok msgs i err s = Some (t, j, out) \<and> svc_steps s t"
  using assms(2)
proof (induction msgs arbitrary: i err s)
  case (Cons msg msgs)
  obtain t j e out where t: "wsMessage w sid tok msg i err s = Some (t, j, e, out)" "svc_steps s t"
    using wsMessage_steps [OF assms(1) Cons.prems] by blast
  obtain u k out' where u: "wsLoop w sid tok msgs j e t = Some (u, k, out')" "svc_steps t u"
    using Cons.IH [OF reachable_steps [OF Cons.prems t(2)]] by blast
  show ?case using t u rtranclp_trans [OF t(2) u(2)] by simp
qed simp

lemma socket_steps:
  assumes "rely w" and "reachable s"
  shows "\<exists>t rep out. handleAnswerWebSocket w up r msgs s = Some (t, rep, out) \<and> svc_steps s t"
proof -
  let ?tok = "bearerTokenWS r"
  obtain t x where t: "RegisterResponder ?tok (ext w 0 s) = Some (t, x)" "svc_steps s t"
    using world_calls(8) [OF assms] by blast
  note rt = reachable_steps [OF assms(2) t(2)]
  have un: "\<exists>v. UnregisterResponder e now sid (ext w i u) = Some v \<and> svc_steps s v"
    if su: "svc_steps s u" for e now sid i u
    using world_calls(6) [OF assms(1) reachable_steps [OF assms(2) su]] rtranclp_trans [OF su] by meson
  show ?thesis
  proof (cases x)
    case (Inr p)
    obtain sid ch where p: "p = (sid, ch)" by (cases p)
    obtain u j out where u: "wsLoop w sid ?tok msgs 1 None t = Some (u, j, out)" "svc_steps t u"
      using wsLoop_steps [OF assms(1) rt] by blast
    obtain v where v: "UnregisterResponder (ids w j 0) (clk w j 0) sid (ext w j u) = Some v" "svc_steps s v"
      using un [OF rtranclp_trans [OF t(2) u(2)]] by blast
    obtain v' where v': "UnregisterResponder (ids w 1 0) (clk w 1 0) sid (ext w 1 t) = Some v'" "svc_steps s v'"
      using un [OF t(2)] by blast
    show ?thesis using t(1) Inr p u(1) v v' by (simp add: handleAnswerWebSocket_def Let_def)
  qed (use t in \<open>simp add: handleAnswerWebSocket_def Let_def\<close>)
qed

end
