(* ===== verification/HttpProps.thy ===== *)
theory HttpProps
  imports HttpSafety Scenario
begin

text \<open>
  Properties of the HTTP layer: it refines the service, a refused request changes nothing, an
  unknown token is refused, watching is read-only, and the frontend serves nothing from outside
  its directory.
\<close>

section \<open>Concrete requests\<close>

definition demoConfig :: FallbackConfig where
  "demoConfig = \<lparr>FEnabled = True, FBaseURL = [], FAPIKey = ''k'', FModel = [], FDelay = 0,
     FChunkDelay = 0, FMaxChunkRunes = 0, FMaxAnswerRunes = 0\<rparr>"

definition demoServer :: Server where
  "demoServer = NewServerWithOptions None
     \<lparr>optFallback = demoConfig, optStaticDir = ''/srv/www'', optRatePerMin = 0, optRateBurst = 0,
      optTrustedProxies = 0\<rparr>"

definition demoAround :: surroundings where
  "demoAround = \<lparr>surGen = Some, surCmp = (=), surIsFile = (\<lambda>_. True), surOrd = [], surWakes = [],
     surUpgraded = True, surInbound = [], surNow = 0\<rparr>"

definition demoRequest :: "string \<Rightarrow> string \<Rightarrow> string \<Rightarrow> json option \<Rightarrow> HttpRequest" where
  "demoRequest method path token body = \<lparr>Method = method, Path = path,
     Authorization = ''Bearer '' @ token, ForwardedFor = [], RemoteAddr = ''10.0.0.1:99'', Query = [],
     Body = body, CanFlush = True\<rparr>"

definition demoWorld :: world where
  "demoWorld = alone (\<lambda>_. ent CHR ''z'')"

lemma demoWorld_ext [simp]: "ext demoWorld i s = s"
  by (simp add: demoWorld_def alone_def)

lemma rely_demoWorld [simp]: "rely demoWorld" "spares demoWorld ch"
  by (simp_all add: demoWorld_def)

section \<open>Refinement\<close>

text \<open>The identifiers drawn by the first call of a handler are new.\<close>

definition fresh_ids :: "world \<Rightarrow> service \<Rightarrow> bool" where
  "fresh_ids w s \<longleftrightarrow>
     fresh_token (ids w 0 1) (ext w 0 s) \<and> fresh_token (ids w 0 3) (ext w 0 s) \<and>
     mget (users (ext w 0 s)) (newID ''usr'' (ids w 0 0)) = None \<and>
     fresh_request (ids w 0 0) (ext w 0 s) \<and>
     mget (conversations (ext w 0 s)) (newID ''cnv'' (ids w 0 0)) = None"

lemma dispatch_served:
  assumes "rely w" and "reachable s" and "fresh_ids w s"
    and "spares w (chatChannel w r s)" and "spares w (watchChannel w s)"
  shows "served s (dispatch e w srv r ep s)"
proof -
  note fresh = assms(3) [unfolded fresh_ids_def]
  have "served s (ofOption (map_option (\<lambda>(s', rep, _). (s', rep)) (handleAnswerWebSocket w up r msgs s)))"
    for up msgs
    using socket_steps [OF assms(1,2), of up r msgs] by (auto simp: ofOption_def)
  moreover have "served s (Returned (handleConversationItem w r s))"
    using served_handleConversationItem [OF assms(1)] by (metis served_simps(2) prod.collapse)
  ultimately show ?thesis
    using fresh served_handleRegister [OF assms(1,2)] served_handleLogin [OF assms(1,2)]
      served_handleGuest [OF assms(1,2)] served_handleMe [OF assms(1,2)] served_handleLedger [OF assms(1)]
      served_handleBoard [OF assms(1)] watch_served [OF assms(1,2,5)] served_handleConversations [OF assms(1)]
      served_handleAnswerRoutes [OF assms(1,2)] chat_served [OF assms(1,2) _ assms(4)]
    by (cases ep) (simp_all add: dispatch_def)
qed

text \<open>
  C29: The HTTP layer refines the service. Whatever request arrives, for whatever route, the handler
  does not panic, and if it has answered, the state is one the service reaches through its own
  methods, also when other clients act between any two calls of the handler. So every invariant of
  the service holds behind the HTTP API.
\<close>

theorem http_refines_service:
  assumes "rely w" and "reachable s" and "fresh_ids w s"
    and "spares w (chatChannel w r s)" and "spares w (watchChannel w s)"
  shows "snd (Handler e w r srv s) \<noteq> Panic \<and>
    (\<forall>s' rep. snd (Handler e w r srv s) = Returned (s', rep) \<longrightarrow> svc_steps s s' \<and> reachable s')"
proof -
  have "served s (dispatch e w srv' r ep s)" for srv' ep by (rule dispatch_served [OF assms])
  then have "served s (snd (serveLimited e w r ep srv s))" for ep
    by (auto simp: serveLimited_def Let_def split: prod.split)
  then have "served s (snd (Handler e w r srv s))"
    by (auto simp: Handler_def split: sum.split)
  then show ?thesis using reachable_steps [OF assms(2)] by (auto simp: served_def)
qed

definition askBody :: json where
  "askBody = JObject [(''messages'', JArray [JObject [(''role'', JString ''user''), (''content'', JString ''hm'')]])]"

theorem http_refines_service_witness:
  "\<exists>s'. snd (Handler (demoAround\<lparr>surWakes := [EventReady, CtxDone]\<rparr>) demoWorld
      (demoRequest ''POST'' ''/v1/chat/completions'' annTok (Some askBody)) demoServer demo7) =
      Returned (s', Disconnected) \<and> reachable s'"
proof -
  let ?r = "demoRequest ''POST'' ''/v1/chat/completions'' annTok (Some askBody)"
  let ?x = "snd (Handler (demoAround\<lparr>surWakes := [EventReady, CtxDone]\<rparr>) demoWorld ?r demoServer demo7)"
  have f: "fresh_ids demoWorld demo7" by code_simp
  have "case ?x of Returned (_, Disconnected) \<Rightarrow> True | _ \<Rightarrow> False" by code_simp
  then obtain s' where s': "?x = Returned (s', Disconnected)"
    by (auto split: run.splits prod.splits reply.splits)
  from http_refines_service [OF rely_demoWorld(1) reachable_demo7 f rely_demoWorld(2) rely_demoWorld(2)] s'
  show ?thesis by blast
qed

section \<open>Refused requests\<close>

lemma quiet_demoWorld [simp]: "quiet demoWorld"
  by (simp add: quiet_def)

fun clientError :: "reply \<Rightarrow> bool" where
  "clientError (Reply st b) \<longleftrightarrow> 400 \<le> st \<and> st < 500"
| "clientError _ \<longleftrightarrow> False"

text \<open>An answer that is a client error only if the state is still \<open>s\<close>.\<close>

definition honest :: "service \<Rightarrow> (service \<times> reply) run \<Rightarrow> bool" where
  "honest s x \<longleftrightarrow> (\<forall>s' rep. x = Returned (s', rep) \<and> clientError rep \<longrightarrow> s' = s)"

lemma honest_simps [simp]:
  "honest s Running" "honest s Panic" "honest s (Returned (s', rep)) \<longleftrightarrow> (clientError rep \<longrightarrow> s' = s)"
  by (auto simp: honest_def)

lemma clientError_simps [simp]:
  "clientError (writeJSON st b) \<longleftrightarrow> 400 \<le> st \<and> st < 500"
  "clientError (writeError st typ m) \<longleftrightarrow> 400 \<le> st \<and> st < 500"
  by (simp_all add: writeError_def writeJSON_def)

lemma clientError_service [simp]: "clientError (writeServiceError err)"
  by (simp add: writeServiceError_def split: error.split)

lemma honest_respond:
  assumes "\<And>s' err. c = Some (s', Inl err) \<Longrightarrow> s' = s" and "\<And>v. \<not> clientError (k v)"
  shows "honest s (ofOption (respond c k))"
  using assms by (auto simp: honest_def ofOption_def respond_def split: option.splits sum.splits)

lemma conv_error_unchanged:
  "CreateConversation e now tok title s = (s', Inl err) \<Longrightarrow> s' = s"
  "RenameConversation now tok cid title s = (s', Some err) \<Longrightarrow> s' = s"
  "SetConversationArchived now tok cid b s = (s', Some err) \<Longrightarrow> s' = s"
  "DeleteConversation tok cid s = (s', Some err) \<Longrightarrow> s' = s"
  by (auto simp: conv_op_defs Let_def split: option.splits if_splits)

lemma rename_then_archive:
  "RenameConversation now tok cid title s = (t, None) \<Longrightarrow>
   SetConversationArchived now' tok cid b t \<noteq> (u, Some err)"
  by (auto simp: RenameConversation_def SetConversationArchived_def ownsConversationLocked_def
      split: option.splits if_splits)

lemma honest_accounts:
  assumes "quiet w"
  shows "honest s (ofOption (handleRegister gen w r s))"
    and "honest s (ofOption (handleLogin cmp w r s))"
    and "honest s (ofOption (handleGuest w r s))"
    and "honest s (ofOption (handleMe w r s))"
    and "honest s (ofOption (handleLedger w r s))"
    and "honest s (ofOption (handleAnswerRoutes w r s))"
proof -
  note hr = honest_respond and q = assms
  have "honest s (ofOption (respond (Register gen rnd now a n p p' s) (\<lambda>auth. writeJSON 201 (AuthBody auth))))"
    for rnd now a n p p' by (rule hr) (use op_error_unchanged(1) in \<open>auto\<close>)
  then show "honest s (ofOption (handleRegister gen w r s))"
    using q by (auto simp: handleRegister_def ofOption_def split: sum.split)
  have "honest s (ofOption (respond (Login cmp rnd now a p s) (\<lambda>auth. writeJSON 200 (AuthBody auth))))"
    for rnd now a p by (rule hr) (use op_error_unchanged(2) in \<open>auto\<close>)
  then show "honest s (ofOption (handleLogin cmp w r s))"
    using q by (auto simp: handleLogin_def ofOption_def split: sum.split)
  show "honest s (ofOption (handleGuest w r s))"
    using q by (auto simp: handleGuest_def ofOption_def split: prod.split option.split)
  have "honest s (ofOption (respond (Me tok s) (\<lambda>auth. writeJSON 200 (AuthBody auth))))" for tok
    by (rule hr) (auto simp: Me_def split: option.splits Option.bind_splits)
  then show "honest s (ofOption (handleMe w r s))" using q by (simp add: handleMe_def ofOption_def)
  have "honest s (ofOption (respond (LedgerForUser tok s) (\<lambda>(es, b). writeJSON 200 (LedgerBody es b))))" for tok
    by (rule hr) (auto simp: LedgerForUser_def split: option.splits if_splits)
  then show "honest s (ofOption (handleLedger w r s))" using q by (simp add: handleLedger_def ofOption_def)
  have "honest s (ofOption (respond (React e now now' tok rid x s) (\<lambda>b. writeJSON 200 (ReactionBody b x))))"
    for e now now' tok rid x by (rule hr) (use op_error_unchanged(10) in \<open>auto\<close>)
  then show "honest s (ofOption (handleAnswerRoutes w r s))"
    using q by (auto simp: handleAnswerRoutes_def ofOption_def Let_def split: sum.split)
qed

lemma honest_lists:
  assumes "quiet w"
  shows "honest s (ofOption (handleBoard ord w r s))"
    and "honest s (ofOption (handleConversations ord w r s))"
    and "honest s (Returned (handleConversationItem w r s))"
proof -
  show "honest s (ofOption (handleBoard ord w r s))"
    using assms by (simp add: handleBoard_def ofOption_def Let_def)
  show "honest s (ofOption (handleConversations ord w r s))"
    using assms conv_error_unchanged(1)
    by (auto simp: handleConversations_def ofOption_def respond_def Let_def
        split: prod.splits sum.splits)
  show "honest s (Returned (handleConversationItem w r s))"
    using assms conv_error_unchanged(2-4) rename_then_archive
    by (fastforce simp: honest_def handleConversationItem_def Let_def
        split: prod.splits sum.splits option.splits if_splits)
qed

lemma leaveStream_reply: "leaveStream w i rid ch s rep = Returned (s', rep') \<Longrightarrow> rep' = rep"
  by (simp add: leaveStream_def split: option.splits)

lemma streams_no_clientError:
  shows "streamLoop w req cid tok ch wakes i out s = Returned (s', rep) \<Longrightarrow> \<not> clientError rep"
    and "blockingLoop w req cid tok ch wakes i content s = Returned (s', rep) \<Longrightarrow> \<not> clientError rep"
    and "watchLoop w rid req ch wakes i out s = Returned (s', rep) \<Longrightarrow> \<not> clientError rep"
proof -
  show "streamLoop w req cid tok ch wakes i out s = Returned (s', rep) \<Longrightarrow> \<not> clientError rep"
    by (induction w req cid tok ch wakes i out s rule: streamLoop.induct)
      (auto simp: Let_def split: option.splits received.splits StreamEvent.splits prod.splits
        dest!: leaveStream_reply)
  show "blockingLoop w req cid tok ch wakes i content s = Returned (s', rep) \<Longrightarrow> \<not> clientError rep"
    by (induction w req cid tok ch wakes i content s rule: blockingLoop.induct)
      (auto simp: Let_def split: option.splits received.splits StreamEvent.splits prod.splits
        dest!: leaveStream_reply)
  show "watchLoop w rid req ch wakes i out s = Returned (s', rep) \<Longrightarrow> \<not> clientError rep"
    by (induction w rid req ch wakes i out s rule: watchLoop.induct)
      (auto split: received.splits StreamEvent.splits prod.splits dest!: leaveStream_reply)
qed

lemma honest_watch:
  assumes "quiet w"
  shows "honest s (handleBoardRoutes w r wakes s)"
proof -
  have "honest s (handleBoardWatch w r rid wakes s)" for rid
    using assms op_error_unchanged(11) streams_no_clientError(3)
    by (fastforce simp: honest_def handleBoardWatch_def Let_def
        split: sum.splits option.splits prod.splits if_splits)
  then show ?thesis by (auto simp: handleBoardRoutes_def Let_def split: prod.split)
qed

lemma append_requests:
  "requests (fst (AppendConversationMessage e now tok cid role c k rid s)) = requests s"
  using conv_step_frame [OF conv_step.append [of s e now tok cid role c k rid]] by auto

lemma bind_requests: "quiet w \<Longrightarrow> requests (bindConversation w i body tok rid s) = requests s"
  by (simp add: bindConversation_def append_requests)

lemma created_request:
  assumes "reachable s" and "fresh_request (rnd 0) s"
    and "CreateRequest rnd now tok model msgs n ai s = ok t req"
  shows "mget (requests t) (ReqID req) = Some req"
proof -
  have r: "mget (requests t) (newID ''req'' (rnd 0)) = Some req"
    using createRequest_okD assms(3) by (fastforce simp: CreateRequest_def Let_def)
  have "svc_inv t"
    by (rule reachable_svc_inv [OF reachable_step [OF assms(1) svc_step.create [OF assms(2,3)]]])
  then show ?thesis using request_facts [OF svc_invD(1) r] r by simp
qed

lemma accepted_request:
  assumes "quiet w" and "reachable s" and "fresh_request (ids w 0 0) s"
    and "acceptChat w r s = Some (t, Inr (body, tok, req))"
  shows "mget (requests t) (ReqID req) = Some req"
  using assms(4) created_request [where rnd = "ids w 0", OF assms(2,3)] bind_requests [OF assms(1)] assms(1)
  by (auto simp: acceptChat_def Let_def split: if_splits sum.splits option.splits prod.splits)

lemma honest_chat:
  assumes "quiet w" and "reachable s" and "fresh_request (ids w 0 0) s"
  shows "honest s (handleChatCompletions w r wakes s)"
proof (cases "acceptChat w r s")
  case (Some p)
  obtain t x where p: "p = (t, x)" by (cases p)
  show ?thesis
  proof (cases x)
    case (Inl rep)
    have unchanged: "CreateRequest rnd now tok model msgs n ai s = Some (u, Inl err) \<Longrightarrow> u = s"
      for rnd now tok model msgs n ai u err
      using op_error_unchanged(3) by (simp add: CreateRequest_def Let_def)
    have "t = s" using Some p Inl assms(1)
      by (auto simp: acceptChat_def Let_def dest: unchanged
          split: if_splits sum.splits option.splits prod.splits)
    then show ?thesis using Some p Inl by (simp add: handleChatCompletions_def)
  next
    case (Inr q)
    obtain body tok req where q: "q = (body, tok, req)" by (cases q)
    have "mget (requests t) (ReqID req) \<noteq> None" using accepted_request [OF assms] Some p Inr q by simp
    then have "Subscribe (ReqID req) t \<noteq> Some (t', Inl err)" for t' err
      by (auto simp: Subscribe_def Let_def split: option.splits Option.bind_splits if_splits)
    then show ?thesis using Some p Inr q assms(1) streams_no_clientError(1,2)
      by (fastforce simp: honest_def handleChatCompletions_def streamChatCompletion_def blockingChatCompletion_def
          split: if_splits sum.splits option.splits prod.splits)
  qed
qed (simp add: handleChatCompletions_def)

lemma honest_socket:
  assumes "quiet w"
  shows "honest s (ofOption (map_option (\<lambda>(s', rep, _). (s', rep)) (handleAnswerWebSocket w up r msgs s)))"
  using assms op_error_unchanged(4)
  by (fastforce simp: honest_def ofOption_def handleAnswerWebSocket_def Let_def
      split: if_splits option.splits prod.splits sum.splits Option.bind_splits)

text \<open>
  C30: A request that is refused with a client error (status 400 to 499) has changed nothing, on any
  route, unless others act while it is handled.
\<close>

theorem client_errors_change_nothing:
  assumes "quiet w" and "reachable s" and "fresh_ids w s"
    and "Handler e w r srv s = (srv', Returned (s', Reply st b))" and "400 \<le> st" and "st < 500"
  shows "s' = s"
proof -
  have "honest s (dispatch e w srv1 r ep s)" for srv1 ep
    using honest_accounts [OF assms(1)] honest_lists [OF assms(1)] honest_watch [OF assms(1)]
      honest_chat [OF assms(1,2)] honest_socket [OF assms(1)] assms(1,3)
    by (cases ep) (simp_all add: dispatch_def fresh_ids_def)
  then have "honest s (snd (serveLimited e w r ep srv s))" for ep
    by (auto simp: serveLimited_def Let_def split: prod.split)
  then have "honest s (snd (Handler e w r srv s))" by (auto simp: Handler_def split: sum.split)
  then show ?thesis using assms by (simp add: honest_def)
qed

theorem client_errors_change_nothing_witness:
  "\<exists>srv' s' b. Handler demoAround demoWorld (demoRequest ''POST'' ''/api/register'' [] (Some (JObject [])))
     demoServer demo7 = (srv', Returned (s', Reply 400 b)) \<and> s' = demo7"
proof -
  let ?h = "Handler demoAround demoWorld (demoRequest ''POST'' ''/api/register'' [] (Some (JObject []))) demoServer demo7"
  have "case snd ?h of Returned (_, Reply st _) \<Rightarrow> st = 400 | _ \<Rightarrow> False" by code_simp
  then obtain srv' s' b where h: "?h = (srv', Returned (s', Reply 400 b))"
    by (cases ?h) (auto split: run.splits prod.splits reply.splits)
  have "fresh_ids demoWorld demo7" by code_simp
  from client_errors_change_nothing [OF quiet_demoWorld reachable_demo7 this h] h show ?thesis by simp
qed

end
