(* ===== verification/FrontendProps.thy ===== *)
theory FrontendProps
  imports HttpProps
begin

text \<open>
  The static frontend and the socket: no file outside the static directory is served, watching a
  public question is read-only, a socket releases its responder, and the error variable of the
  socket loop outlives the message it belongs to.
\<close>

section \<open>Static files\<close>

lemma splitSlash_slashed:
  "splitSlash (slashed p) = concat (map (\<lambda>e. splitSlash (slashed e)) (splitSlash p))"
proof (induction p)
  case (Cons c cs)
  obtain q qs where q: "splitSlash cs = q # qs" by (cases "splitSlash cs") auto
  have ih: "splitSlash (slashed cs) = splitSlash (slashed q) @ concat (map (\<lambda>e. splitSlash (slashed e)) qs)"
    using Cons q by simp
  obtain h t where h: "splitSlash (slashed q) = h # t" by (cases "splitSlash (slashed q)") auto
  show ?case
  proof (cases "c = CHR ''/''")
    case True
    then show ?thesis using Cons by (simp add: slashed_def)
  next
    case False
    then show ?thesis using ih h q by (simp add: slashed_def)
  qed
qed (simp add: slashed_def)

lemma no_dotdot_elems: "\<not> containsDotDot p \<Longrightarrow> ''..'' \<notin> set (splitSlash p)"
proof
  assume no: "\<not> containsDotDot p" and el: "''..'' \<in> set (splitSlash p)"
  have "''..'' \<in> set (splitSlash (slashed ''..''))" by (simp add: slashed_def)
  then have "''..'' \<in> set (concat (map (\<lambda>e. splitSlash (slashed e)) (splitSlash p)))" using el by auto
  then show False using no unfolding containsDotDot_def splitSlash_slashed [of p] by contradiction
qed

lemma splitSlash_TrimPrefix: "set (splitSlash (TrimPrefix p ''/'')) \<subseteq> set (splitSlash p)"
  by (cases p) (auto simp: TrimPrefix_def HasPrefix_def split: list.splits)

lemma Clean_no_dotdot:
  assumes "''..'' \<notin> set (splitSlash p)"
  shows "''..'' \<notin> set (splitSlash (Clean p))"
proof -
  have "pathElems p = filter plainElem (splitSlash p)"
    unfolding pathElems_def cleanElems_plain [OF assms] by simp
  then have el: "''..'' \<notin> set (pathElems p)" "\<forall>e \<in> set (pathElems p). CHR ''/'' \<notin> set e"
    using assms splitSlash_no_slash by auto
  then have "''..'' \<notin> set (splitSlash (joinSlash (pathElems p)))"
    by (cases "pathElems p = []") (simp_all add: splitSlash_joinSlash)
  then show ?thesis by (simp add: Clean_def)
qed

lemma pathElems_Join:
  assumes "dir \<noteq> []" and "''..'' \<notin> set (splitSlash p)"
  shows "pathElems (Join dir p) = pathElems dir @ filter plainElem (splitSlash p)"
proof -
  have "HasPrefix (dir @ CHR ''/'' # p) ''/'' = HasPrefix dir ''/''"
    using assms(1) by (cases dir) (simp_all add: HasPrefix_def)
  then show ?thesis
    using assms(1) cleanElems_plain [OF assms(2)]
    by (simp add: Join_def pathElems_Clean) (simp add: pathElems_def splitSlash_append cleanElems_append)
qed

text \<open>
  C32: The frontend serves nothing from outside its directory. Whatever path a request names, with
  dots, doubled or backward slashes, the file that is served lies in the static directory: its path
  is the directory's path followed by elements none of which is \<open>..\<close>.
\<close>

theorem frontend_stays_inside:
  assumes "handleFrontend isFile srv r = FileReply target"
  shows "\<exists>rest. pathElems target = pathElems (srvStaticDir srv) @ rest \<and> ''..'' \<notin> set rest"
proof -
  let ?dir = "srvStaticDir srv" and ?c = "Clean (TrimPrefix (Path r) ''/'')"
  let ?p = "if ?c = ''.'' \<or> ?c = ''/'' then ''index.html'' else ?c"
  have dir: "?dir \<noteq> []" and dots: "\<not> containsDotDot (Path r)"
    and t: "target = Join ?dir ?p \<or> target = Join ?dir ''index.html''"
    using assms by (auto simp: handleFrontend_def ServeFile_def routeNotFound_def writeError_def writeJSON_def Let_def
        split: if_splits)
  have idx: "''..'' \<notin> set (splitSlash ''index.html'')" by simp
  have "''..'' \<notin> set (splitSlash ?c)"
    by (rule Clean_no_dotdot) (use no_dotdot_elems [OF dots] splitSlash_TrimPrefix in blast)
  then have p: "''..'' \<notin> set (splitSlash ?p)" using idx by (simp only: split: if_split) simp
  from t show ?thesis
    using pathElems_Join [OF dir p] pathElems_Join [OF dir idx] p idx by (elim disjE) auto
qed

theorem frontend_stays_inside_witness:
  "\<exists>target rest. handleFrontend (\<lambda>_. True) demoServer (demoRequest ''GET'' ''/a//./b.js'' [] None) = FileReply target \<and>
     pathElems target = [''srv'', ''www''] @ rest \<and> ''..'' \<notin> set rest"
proof -
  let ?x = "handleFrontend (\<lambda>_. True) demoServer (demoRequest ''GET'' ''/a//./b.js'' [] None)"
  have x: "?x = FileReply ''/srv/www/a/b.js''" by code_simp
  have d: "pathElems (srvStaticDir demoServer) = [''srv'', ''www'']" by code_simp
  from frontend_stays_inside [OF x] x d show ?thesis by simp
qed

section \<open>Tokens\<close>

lemma decode_refused:
  "decodeJSON names store body zero = Inl rep \<Longrightarrow> clientError rep"
  by (auto simp: decodeJSON_def split: prod.splits if_splits)

lemma refused_defs: "clientError methodNotAllowed" "clientError routeNotFound"
  by (simp_all add: methodNotAllowed_def routeNotFound_def)

lemma refused_item:
  assumes "quiet w" and "mget (sessionsByTok s) (bearerToken r) = None"
  shows "\<exists>rep. handleConversationItem w r s = (s, rep) \<and>
    (clientError rep \<or> Method r = ''PATCH'' \<and> rep = Reply 200 (StatusBody ''ok'' None))"
proof -
  have ops: "GetConversation (bearerToken r) cid s = Inl ErrUnauthorized"
    "RenameConversation now (bearerToken r) cid t s = (s, Some ErrUnauthorized)"
    "SetConversationArchived now (bearerToken r) cid b s = (s, Some ErrUnauthorized)"
    "DeleteConversation (bearerToken r) cid s = (s, Some ErrUnauthorized)" for now cid t b
    using assms(2) by (simp_all add: GetConversation_def conv_op_defs)
  show ?thesis
  proof (cases "decodeJSON [''title'', ''archived''] patchStore (Body r) (None, None)")
    case (Inl rep)
    then show ?thesis using decode_refused [OF Inl] ops assms(1)
      by (simp add: handleConversationItem_def Let_def refused_defs)
  next
    case (Inr p)
    obtain title archived where "p = (title, archived)" by (cases p)
    then show ?thesis using Inr ops assms(1)
      by (cases title; cases archived) (simp_all add: handleConversationItem_def Let_def writeJSON_def refused_defs)
  qed
qed

lemma refused_reaction:
  assumes "quiet w" and "mget (sessionsByTok s) (bearerToken r) = None"
  shows "\<exists>rep. handleAnswerRoutes w r s = Some (s, rep) \<and> clientError rep"
proof (cases "decodeJSON [''reaction''] reactionStore (Body r) (ReactionOther [])")
  case (Inl rep)
  then show ?thesis using decode_refused [OF Inl] by (simp add: handleAnswerRoutes_def Let_def refused_defs)
next
  case (Inr x)
  have "\<exists>e0. React (ids w 0 0) (clk w 0 0) (clk w 0 1) (bearerToken r) rid x s = Some (s, Inl e0)" for rid
    using assms(2) by (simp add: React_def)
  from this [of "TrimSuffix (TrimPrefix (Path r) ''/api/answers/'') ''/reaction''"]
  show ?thesis using Inr assms(1) by (auto simp: handleAnswerRoutes_def respond_def Let_def refused_defs)
qed

lemma refused_chat:
  assumes "quiet w" and "mget (sessionsByTok s) (bearerToken r) = None"
  shows "\<exists>rep. acceptChat w r s = Some (s, Inl rep) \<and> clientError rep"
proof (cases "decodeJSON chatFields chatStore (Body r) zeroChat")
  case (Inl rep)
  then show ?thesis using decode_refused [OF Inl] by (simp add: acceptChat_def refused_defs)
next
  case (Inr body)
  have "\<exists>e0. CreateRequest (ids w 0) (clk w 0 0) (bearerToken r) model (crMessages body) (crMaxTokens body) ai s =
      Some (s, Inl e0)" for model ai
    using assms(2) by (auto simp: CreateRequest_def createRequest_eq Let_def split: option.split)
  from this [of "if crModel body = [] then ''deeperseek-human'' else crModel body"
      "[case crAllowAIAnswers body of None \<Rightarrow> True | Some b \<Rightarrow> b]"]
  show ?thesis using Inr assms(1) by (auto simp: acceptChat_def Let_def refused_defs)
qed



section \<open>Watching\<close>

definition onlyStreams :: "service \<Rightarrow> service \<Rightarrow> bool" where
  "onlyStreams s t \<longleftrightarrow> t\<lparr>streamChans := [], subscribers := []\<rparr> = s\<lparr>streamChans := [], subscribers := []\<rparr>"

lemma onlyStreams_refl: "onlyStreams s s"
  by (simp add: onlyStreams_def)

lemma onlyStreams_trans: "onlyStreams s t \<Longrightarrow> onlyStreams t u \<Longrightarrow> onlyStreams s u"
  by (simp add: onlyStreams_def)

lemma onlyStreamsI: "onlyStreams s (s\<lparr>streamChans := h\<rparr>)" "onlyStreams s (s\<lparr>subscribers := b, streamChans := h\<rparr>)"
  "onlyStreams s (s\<lparr>streamChans := h, subscribers := b\<rparr>)"
  by (simp_all add: onlyStreams_def)

lemma onlyStreamsD: "onlyStreams s t \<Longrightarrow> \<exists>h b. t = s\<lparr>streamChans := h, subscribers := b\<rparr>"
proof (intro exI)
  assume "onlyStreams s t"
  then show "t = s\<lparr>streamChans := streamChans t, subscribers := subscribers t\<rparr>"
    by (cases s; cases t) (simp add: onlyStreams_def)
qed

lemma recvEvent_onlyStreams: "recvEvent ch s = (t, x) \<Longrightarrow> onlyStreams s t"
  by (auto simp: recvEvent_def onlyStreams_refl onlyStreamsI split: option.splits)

lemma leave_onlyStreams:
  "quiet w \<Longrightarrow> leaveStream w i rid ch s rep = Returned (s', rep') \<Longrightarrow> onlyStreams s s'"
  by (auto simp: leaveStream_def unsubscribe_def Let_def onlyStreamsI split: option.splits Option.bind_splits)

lemma watchLoop_onlyStreams:
  assumes "quiet w"
  shows "watchLoop w rid req ch wakes i out s = Returned (s', rep) \<Longrightarrow> onlyStreams s s'"
proof (induction wakes arbitrary: i out s)
  case (Cons wk wakes)
  obtain t x where t: "recvEvent ch s = (t, x)" by (cases "recvEvent ch s")
  note go = onlyStreams_trans [OF recvEvent_onlyStreams [OF t]]
  show ?case
    using Cons.prems assms t Cons.IH leave_onlyStreams [OF assms] go
    by (cases wk) (auto split: received.splits StreamEvent.splits)
qed simp

text \<open>
  Watching a question is read-only. Whatever a spectator does, connecting, waiting, leaving early
  or staying to the end, only the spectator's own subscription is touched: no request, balance, queue,
  assignment or conversation changes, in particular leaving does not cancel the question. And only a
  question on the public board is streamed.
\<close>

theorem watching_read_only:
  assumes "quiet w" and "handleBoardRoutes w r wakes s = Returned (s', rep)"
  shows "(\<exists>h b. s' = s\<lparr>streamChans := h, subscribers := b\<rparr>) \<and>
    (\<forall>out. rep = EventStream out \<longrightarrow> (\<exists>rid req. mget (requests s) rid = Some req \<and> BoardEligible req))"
proof -
  obtain rid where rid: "handleBoardWatch w r rid wakes s = Returned (s', rep) \<or> s' = s \<and> rep = routeNotFound"
    using assms(2) by (auto simp: handleBoardRoutes_def Let_def split: prod.splits if_splits)
  have sub: "onlyStreams s t" if "Subscribe rid' s = Some (t, x)" for rid' t x
    using that by (auto simp: Subscribe_def Let_def onlyStreams_refl onlyStreamsI
        split: option.splits Option.bind_splits if_splits)
  have "onlyStreams s s' \<and> (\<forall>out. rep = EventStream out \<longrightarrow> (\<exists>req. mget (requests s) rid = Some req \<and> BoardEligible req))"
    using rid assms(1) sub onlyStreams_trans [OF sub watchLoop_onlyStreams [OF assms(1)]] onlyStreams_refl
    by (auto simp: handleBoardWatch_def RequestSnapshot_def cloneRequest_def methodNotAllowed_def writeError_def
        writeJSON_def routeNotFound_def Let_def split: sum.splits option.splits prod.splits if_splits)
  then show ?thesis using onlyStreamsD by blast
qed

definition guestAsk :: service where
  "guestAsk = after (CreateRequest (ent CHR ''g'') 900 (newID ''tok'' (ent CHR ''h'' 1)) ''m'' question 0 []
     (after (GuestSession (ent CHR ''h'') 800 ''Guest'' demo7)))"

theorem watching_read_only_witness:
  "\<exists>s' out. handleBoardRoutes demoWorld
      (demoRequest ''GET'' (''/api/board/'' @ newID ''req'' (ent CHR ''g'' 0) @ ''/watch'') [] None)
      [EventReady, Heartbeat, CtxDone] guestAsk = Returned (s', EventStream out) \<and>
     (\<exists>h b. s' = guestAsk\<lparr>streamChans := h, subscribers := b\<rparr>)"
proof -
  let ?x = "handleBoardRoutes demoWorld
      (demoRequest ''GET'' (''/api/board/'' @ newID ''req'' (ent CHR ''g'' 0) @ ''/watch'') [] None)
      [EventReady, Heartbeat, CtxDone] guestAsk"
  have "case ?x of Returned (_, EventStream out) \<Rightarrow> out = [Comment '': watching''] | _ \<Rightarrow> False" by code_simp
  then obtain s' out where x: "?x = Returned (s', EventStream out)"
    by (auto split: run.splits prod.splits reply.splits)
  from watching_read_only [OF quiet_demoWorld x] x show ?thesis by blast
qed

section \<open>The socket\<close>

text \<open>
  C33: A socket leaves nothing behind. Whatever messages a responder sends, in whatever order, and
  whatever others do meanwhile, once the connection ends (or the protocol switch fails) the handler
  returns and its session is unregistered, not available and holds no request.
\<close>

theorem socket_releases_responder:
  assumes "rely w" and "reachable s" and "bearerTokenWS r \<noteq> []"
    and "mget (sessionsByTok (ext w 0 s)) (bearerTokenWS r) = Some ses"
  shows "\<exists>s' out. handleAnswerWebSocket w up r msgs s = Some (s', Disconnected, out) \<and>
    mget (responders s') (SesID ses) = None \<and> SesID ses \<notin> set (available s') \<and>
    mget (activeByRes s') (SesID ses) = None"
proof -
  let ?tok = "bearerTokenWS r"
  obtain s' rep out where h: "handleAnswerWebSocket w up r msgs s = Some (s', rep, out)"
    using socket_steps [OF assms(1,2)] by blast
  obtain t ch where t: "RegisterResponder ?tok (ext w 0 s) = Some (t, Inr (SesID ses, ch))"
    using assms(4) by (simp add: RegisterResponder_def Let_def)
  have rt: "reachable t"
    using reachable_steps [OF assms(2) rely_then_step [OF assms(1) svc_step.register_responder [OF t]]] .
  obtain u j o1 where u: "wsLoop w (SesID ses) ?tok msgs 1 None t = Some (u, j, o1)" "svc_steps t u"
    using wsLoop_steps [OF assms(1) rt] by blast
  have inv: "svc_inv (ext w 1 t)" "svc_inv (ext w j u)"
    using inv_ext [OF assms(1)] rt reachable_steps [OF rt u(2)] by blast+
  have "rep = Disconnected \<and> (\<exists>e now v. svc_inv v \<and> UnregisterResponder e now (SesID ses) v = Some s')"
    using h t u(1) inv assms(3)
    by (auto simp: handleAnswerWebSocket_def Let_def split: if_splits Option.bind_splits)
  then show ?thesis using h unregister_effect by blast
qed

definition wsMsg :: "string \<Rightarrow> wsInbound" where
  "wsMsg typ = \<lparr>wsType = typ, wsClientSeq = 1, wsText = ''x'', wsAcceptAIQuestions = None\<rparr>"

theorem socket_releases_responder_witness:
  "\<exists>s' out. handleAnswerWebSocket demoWorld True (demoRequest ''GET'' ''/ws/answer'' bobTok None)
      [wsMsg ''available'', wsMsg ''fragment''] demo7 = Some (s', Disconnected, out) \<and>
     mget (responders s') bobSes = None"
proof -
  let ?r = "demoRequest ''GET'' ''/ws/answer'' bobTok None"
  have "case mget (sessionsByTok demo7) (bearerTokenWS ?r) of Some ses \<Rightarrow> SesID ses = bobSes | None \<Rightarrow> False"
    "bearerTokenWS ?r \<noteq> []" by code_simp+
  then obtain ses where ses: "mget (sessionsByTok (ext demoWorld 0 demo7)) (bearerTokenWS ?r) = Some ses"
    "SesID ses = bobSes" "bearerTokenWS ?r \<noteq> []" by (auto split: option.splits)
  from socket_releases_responder [OF rely_demoWorld(1) reachable_demo7 ses(3,1)] ses(2) show ?thesis by metis
qed

text \<open>
  A ping repeats an old error. The socket loop keeps the error of the last message that could
  fail in a variable that a ping does not reset, so after a failed message every ping is answered by
  the pong and by that error again.
\<close>

theorem ping_repeats_error:
  assumes "wsMessage w sid tok msg i err s = Some (t, j, Some e, out)"
    and "\<forall>m \<in> set pings. wsType m = ''ping''"
  shows "wsLoop w sid tok (msg # pings) i err s =
    Some (t, j, out @ WsError e # concat (replicate (length pings) [WsPong, WsError e]))"
proof -
  have "wsLoop w sid tok pings j (Some e) t =
      Some (t, j, concat (replicate (length pings) [WsPong, WsError e]))"
    using assms(2) by (induction pings) (simp_all add: wsMessage_def)
  then show ?thesis using assms(1) by simp
qed

theorem ping_repeats_error_witness:
  "\<exists>t. wsLoop demoWorld bobSes bobTok [wsMsg ''finish'', wsMsg ''ping'', wsMsg ''ping''] 1 None demo7 =
     Some (t, 2, [WsError ErrNoActiveAssignment, WsPong, WsError ErrNoActiveAssignment,
       WsPong, WsError ErrNoActiveAssignment])"
proof -
  have "map_option snd (wsMessage demoWorld bobSes bobTok (wsMsg ''finish'') 1 None demo7) =
      Some (2, Some ErrNoActiveAssignment, [])" by code_simp
  then obtain t where "wsMessage demoWorld bobSes bobTok (wsMsg ''finish'') 1 None demo7 =
      Some (t, 2, Some ErrNoActiveAssignment, [])"
    by (cases "wsMessage demoWorld bobSes bobTok (wsMsg ''finish'') 1 None demo7") auto
  from ping_repeats_error [OF this, of "[wsMsg ''ping'', wsMsg ''ping'']"] show ?thesis
    by (simp add: wsMsg_def numeral_2_eq_2)
qed

end
