(* ===== verification/FallbackProps.thy ===== *)
theory FallbackProps
  imports Fallback Scenario
begin

text \<open>
  Properties of the fallback responder: an attempt always ends and gives its request back or
  finishes it, the goroutine stops once the request is answered or over, and it never stops as long
  as the upstream's first piece is longer than the answer may be.
\<close>

section \<open>One attempt\<close>

text \<open>
  The others leave the fallback's session alone: it may lose its request (to the sweeper or to the
  author who leaves), but nobody else acts under its name.
\<close>

definition yields :: "world \<Rightarrow> string \<Rightarrow> string \<Rightarrow> bool" where
  "yields w sid rid \<longleftrightarrow> (\<forall>i s. mget (activeByRes (ext w i s)) sid = None \<or>
     mget (activeByRes (ext w i s)) sid = mget (activeByRes s) sid \<and>
     mget0 (fragments (ext w i s)) rid = mget0 (fragments s) rid)"

text \<open>The session holds nothing, or its request with output exactly if \<open>b\<close>.\<close>

definition holding :: "service \<Rightarrow> string \<Rightarrow> string \<Rightarrow> bool \<Rightarrow> bool" where
  "holding s sid rid b \<longleftrightarrow> mget (activeByRes s) sid = None \<or>
     mget (activeByRes s) sid = Some rid \<and> (b \<longleftrightarrow> mget0 (fragments s) rid \<noteq> [])"

definition attempt :: "string \<Rightarrow> string \<Rightarrow> service \<Rightarrow> fbRun \<Rightarrow> bool" where
  "attempt sid rid s st \<longleftrightarrow> svc_steps s (svc st) \<and> reachable (svc st) \<and> holding (svc st) sid rid (submitted st)"

lemma holding_ext: "yields w sid rid \<Longrightarrow> holding s sid rid b \<Longrightarrow> holding (ext w i s) sid rid b"
  unfolding yields_def holding_def by metis

lemma holding_submit:
  assumes inv: "svc_inv s" and h: "holding s sid rid b"
    and ok: "SubmitFragment rnd now sid n t s = ok s' x"
  shows "holding s' sid rid True"
proof -
  note wf = svc_invD(1) [OF inv]
  have act: "mget (activeByRes s) sid = Some rid"
    using ok h by (auto simp: SubmitFragment_def holding_def mget0_def split: if_splits)
  then obtain r where r: "mget (requests s) rid = Some r" "ResponderSessionID r = sid"
    using active_iff [OF wf] by blast
  have rid: "ReqID r = rid" "rid \<noteq> []" using request_facts [OF wf r(1)] by auto
  show ?thesis
  proof (cases "mget (mget0 (seqSeen s) rid) (seqKey sid n)")
    case (Some f)
    then have "mget0 (fragments s) rid \<noteq> []" using wf by (auto simp: wf_service_def inv_fragments_def)
    then show ?thesis using Some ok act r rid
      by (auto simp: SubmitFragment_eq Let_def mget0_def [of "activeByRes s"] holding_def split: if_splits)
  next
    case None
    let ?f = "mkFragment (rnd 0) now rid sid n t"
    have "afterCommit (rnd 2) now r ?f (commitState (rnd 1) now r ?f s) = ok s' x"
      using ok act r rid None
      by (auto simp: SubmitFragment_eq Let_def mget0_def [of "activeByRes s"] split: if_splits)
    note ac = afterCommit_fields [OF this]
    have "mget0 (fragments s') rid \<noteq> []"
      unfolding ac(2) using rid by (simp add: commitState_def Let_def mkFragment_def)
    then show ?thesis using ac(4) act r(2) by (auto simp: holding_def)
  qed
qed

lemma attempt_ext:
  assumes "rely w" and "yields w sid rid" and "attempt sid rid s st"
  shows "svc_steps s (ext w i (svc st))" and "reachable (ext w i (svc st))"
    and "holding (ext w i (svc st)) sid rid (submitted st)"
proof -
  have a: "svc_steps s (svc st)" "reachable (svc st)" "holding (svc st) sid rid (submitted st)"
    using assms(3) by (simp_all add: attempt_def)
  show "svc_steps s (ext w i (svc st))" by (rule rtranclp_trans [OF a(1) relyD [OF assms(1)]])
  show "reachable (ext w i (svc st))" by (rule reachable_ext [OF assms(1) a(2)])
  show "holding (ext w i (svc st)) sid rid (submitted st)" by (rule holding_ext [OF assms(2) a(3)])
qed

lemma attempt_submit:
  assumes "rely w" and "yields w sid rid" and "attempt sid rid s st" and "submit w sid t st = (st', err)"
  shows "attempt sid rid s st'"
proof (cases "t = []")
  case False
  let ?i = "calls st" let ?s = "ext w ?i (svc st)"
  have steps: "svc_steps s ?s" and reach: "reachable ?s" and hold: "holding ?s sid rid (submitted st)"
    by (rule attempt_ext [OF assms(1-3)])+
  obtain u x where u: "SubmitFragment (ids w ?i) (clk w ?i 0) sid (seqNo st) t ?s = Some (u, x)"
    using SubmitFragment_evolve [OF reachable_svc_inv [OF reach]] by blast
  note st = svc_step.submit [OF u]
  have go: "svc_steps s u" "reachable u" using steps_then_step [OF steps st] reachable_step [OF reach st] .
  show ?thesis
  proof (cases x)
    case (Inl e)
    then have "u = ?s" using op_error_unchanged(7) u by blast
    then show ?thesis using assms(4) False u Inl go hold by (auto simp: submit_def Let_def attempt_def)
  next
    case (Inr v)
    from holding_submit [OF reachable_svc_inv [OF reach] hold] u Inr have "holding u sid rid True" by blast
    then show ?thesis using assms(4) False u Inr go by (auto simp: submit_def Let_def attempt_def)
  qed
qed (use assms in \<open>simp add: submit_def\<close>)

lemma attempt_Emit:
  assumes "rely w" and "yields w sid rid"
  shows "attempt sid rid s st \<Longrightarrow> Emit w c sid t st = (st', err) \<Longrightarrow> attempt sid rid s st'"
proof -
  have "attempt sid rid s st \<Longrightarrow> emitChunks w d sid cs st = (st', err) \<Longrightarrow> attempt sid rid s st'" for d cs
  proof (induction cs arbitrary: st)
    case (Cons ch cs)
    obtain st1 e1 where st1: "submit w sid ch st = (st1, e1)" by (cases "submit w sid ch st")
    note a1 = attempt_submit [OF assms Cons.prems(1) st1]
    then have "attempt sid rid s (st1\<lparr>emitted := True\<rparr>)" by (simp add: attempt_def)
    then show ?case using Cons.prems Cons.IH a1 st1
      by (auto split: option.splits)
  qed simp
  then show "attempt sid rid s st \<Longrightarrow> Emit w c sid t st = (st', err) \<Longrightarrow> attempt sid rid s st'"
    unfolding Emit_def by blast
qed

text \<open>The two ways out: both leave the session without a request.\<close>

lemma finish_frees:
  assumes inv: "svc_inv s" and h: "holding s sid rid True"
  shows "\<exists>s' x. Finish e now sid s = Some (s', x) \<and> mget (activeByRes s') sid = None"
proof (cases "mget (activeByRes s) sid")
  case (Some rid')
  note wf = svc_invD(1) [OF inv]
  have fr: "rid' = rid" "mget0 (fragments s) rid \<noteq> []" using h Some by (auto simp: holding_def)
  obtain r where r: "mget (requests s) rid = Some r" "live_status (Status r)" "ResponderSessionID r = sid"
    using active_iff [OF wf] Some fr(1) by blast
  note rf = request_facts [OF wf r(1)]
  obtain s' x where f: "Finish e now sid s = Some (s', x)" using Finish_evolve [OF inv] by blast
  then have "completeLocked e r FinishStop now s = Some s'"
    using Some fr r(1) rf(2) by (auto simp: Finish_def mget0_def [of "activeByRes s"] split: Option.bind_splits)
  then have "activeByRes s' = mdel (ResponderSessionID r) (activeByRes s)"
    by (rule complete_fields(4)) (use r(2) fr(2) rf(1) in \<open>auto simp: status_defs\<close>)
  then show ?thesis using f r(3) by simp
qed (simp add: Finish_def mget0_def)

lemma tryAssign_other:
  assumes "wf_service s" and "mget (activeByRes s) sid = None" and "\<not> is_session_id sid"
    and "tryAssignLocked now s = Some s'"
  shows "mget (activeByRes s') sid = None"
proof -
  have "\<exists>s'. tryAssignLocked now s = Some s' \<and> wf_service s' \<and> mget (activeByRes s') sid = None \<and>
      compatiblePairLocked s' = None"
  proof (rule tryAssign_rule [where P = "\<lambda>t. mget (activeByRes t) sid = None", OF assms(1,2)])
    fix t q k req ses g
    assume wf: "wf_service t" and n: "mget (activeByRes t) sid = None" and h: "handover now q k req ses g t"
    have "k < length (available t)" using h by (simp add: handover_def)
    then have "available t ! k \<in> set (available t)" by simp
    then have "is_session_id (available t ! k)" using wf by (fastforce simp: wf_service_def inv_available_def)
    then have "available t ! k \<noteq> sid" using assms(3) by blast
    then show "mget (activeByRes (assignState now q k req ses g t)) sid = None \<and>
        mget (activeByRes (requeueLocked (assigned req (available t ! k) ses now) now
          (assignState now q k req ses g t))) sid = None"
      using n by (simp add: assignState_def requeueLocked_def Let_def put_req_def)
  qed
  then show ?thesis using assms(4) by auto
qed

lemma skip_frees:
  assumes inv: "svc_inv s" and h: "holding s sid rid False" and sid: "\<not> is_session_id sid"
  shows "\<exists>s' x. Skip now now' sid s = Some (s', x) \<and> mget (activeByRes s') sid = None"
proof (cases "mget (activeByRes s) sid")
  case (Some rid')
  note wf = svc_invD(1) [OF inv]
  have fr: "rid' = rid" "mget0 (fragments s) rid = []" using h Some by (auto simp: holding_def)
  obtain r where r: "mget (requests s) rid = Some r" "live_status (Status r)" "ResponderSessionID r = sid"
    using active_iff [OF wf] Some fr(1) by blast
  note rf = request_facts [OF wf r(1)]
  have st: "Status r = StatusAssigned" using req_inv_status(1) [OF rf(3) r(2)] fr(2) by simp
  have sne: "sid \<noteq> []" using live_responder_nonempty [OF rf(4) r(2)] r(3) by simp
  obtain s' x where f: "Skip now now' sid s = Some (s', x)" using Skip_evolve [OF inv] by blast
  have rq: "wf_service (requeueLocked r now s)" "mget (activeByRes (requeueLocked r now s)) sid = None"
    using evolve_requeue [OF inv r(1) st, of now] svc_invD(1) r(3)
    by (auto simp: evolve_def requeueLocked_def Let_def put_req_def)
  have "abandonLocked r now s = Some s' \<or> tryAssignLocked now' (requeueLocked r now s) = Some s'"
    using f Some fr r(1) rf(2)
    by (auto simp: Skip_def mget0_def [of "activeByRes s"] split: Option.bind_splits if_splits)
  then have "mget (activeByRes s') sid = None"
  proof
    assume "abandonLocked r now s = Some s'"
    then show ?thesis using r(3) sne
      by (auto simp: abandonLocked_def abandonState_def Let_def put_req_def removeQueuedRequestLocked_def
          dest!: publish_only)
  qed (rule tryAssign_other [OF rq sid])
  then show ?thesis using f by blast
qed (simp add: Skip_def mget0_def)

lemma attempt_releases:
  assumes "rely w" and "reachable s" and "yields w sid rid" and "\<not> is_session_id sid"
    and "mget (activeByRes s) sid = Some rid" and "mget0 (fragments s) rid = []"
  shows "\<exists>k s' retry. runFallbackResponder parse net w c sid asg i s = Some (k, s', retry) \<and>
    svc_steps s s' \<and> mget (activeByRes s') sid = None"
proof -
  let ?st0 = "\<lparr>svc = s, calls = i, seqNo = 1, submitted = False, emitted = False\<rparr>"
  obtain st err where st: "callFallbackUpstream parse net w c sid asg ?st0 = (st, err)"
    by (cases "callFallbackUpstream parse net w c sid asg ?st0")
  have "attempt sid rid s ?st0" using assms(2,5,6) by (simp add: attempt_def holding_def)
  then have at: "attempt sid rid s st"
    using Stream_inv [of "attempt sid rid s" "Emit w c sid"] attempt_Emit [OF assms(1,3)] st
    unfolding callFallbackUpstream_def by metis
  let ?k = "calls st" let ?u = "ext w ?k (svc st)"
  note ext = attempt_ext [OF assms(1,3) at, of ?k]
  note inv = reachable_svc_inv [OF ext(2)]
  show ?thesis
  proof (cases "submitted st")
    case True
    then have "holding ?u sid rid True" using ext(3) by simp
    then obtain v x where v: "Finish (ids w ?k 0) (clk w ?k 0) sid ?u = Some (v, x)"
      "mget (activeByRes v) sid = None" using finish_frees [OF inv] by blast
    then show ?thesis using True st steps_then_step [OF ext(1) svc_step.finish [OF v(1)]]
      by (auto simp: runFallbackResponder_def Let_def)
  next
    case False
    then have "holding ?u sid rid False" using ext(3) by simp
    then obtain v x where v: "Skip (clk w ?k 0) (clk w ?k 1) sid ?u = Some (v, x)"
      "mget (activeByRes v) sid = None" using skip_frees [OF inv _ assms(4)] by blast
    then show ?thesis using False st steps_then_step [OF ext(1) svc_step.skip [OF v(1)]]
      by (cases x) (auto simp: runFallbackResponder_def Let_def)
  qed
qed

lemma fallback_no_session: "\<not> is_session_id (''fallback_'' @ rid)"
  using session_id_facts(2) by blast


definition fbWorld :: world where
  "fbWorld = alone (\<lambda>_. ent CHR ''y'')"

lemma fbWorld_ext [simp]: "ext fbWorld i s = s"
  by (simp add: fbWorld_def alone_def)

lemma fbWorld_others [simp]: "rely fbWorld" "yields fbWorld sid rid"
  by (simp_all add: rely_def yields_def)

definition demoFallback :: service where
  "demoFallback = fst (AcquireFallbackAssignment 350 reqA demo4)"

lemma reachable_demoFallback: "reachable demoFallback"
  unfolding demoFallback_def
  by (rule reachable_step [OF reachable_demo4 svc_step.acquire_fallback]) (rule prod.collapse [symmetric])

definition shortConfig :: FallbackConfig where
  "shortConfig = withDefaults \<lparr>FEnabled = True, FBaseURL = [], FAPIKey = ''k'', FModel = [], FDelay = 0,
     FChunkDelay = 0, FMaxChunkRunes = 0, FMaxAnswerRunes = 0\<rparr>"


section \<open>The watching goroutine stops\<close>

text \<open>
  C35: The goroutine that watches a request stops. As soon as the request is over, or has output, or
  may not be answered by an AI, the next round of the loop returns, whatever the others do: the
  watched condition cannot come back.
\<close>

theorem fallback_loop_stops:
  assumes "rely w" and "reachable s" and "mget (requests s) rid = Some r"
    and "isTerminal (Status r) \<or> mget0 (fragments s) rid \<noteq> [] \<or> \<not> AllowAIAnswers r"
  shows "\<exists>s' waits'. fallbackLoop parse net w c rid (Suc fuel) delay waits i s = Returned (s', waits') \<and> svc_steps s s'"
proof -
  have over: "\<exists>r'. mget (requests t) rid = Some r' \<and>
      (isTerminal (Status r') \<or> mget0 (fragments t) rid \<noteq> [] \<or> \<not> AllowAIAnswers r')" if "svc_steps s t" for t
  proof -
    have e: "extends s t" by (rule reachable_extends [OF assms(2) that])
    then obtain r' where r': "mget (requests t) rid = Some r'" "req_le r r'"
      using assms(3) unfolding extends_def by blast
    have pre: "prefix (mget0 (fragments s) rid) (mget0 (fragments t) rid)" using e unfolding extends_def by blast
    have "AllowAIAnswers r' = AllowAIAnswers r" using r'(2) by (simp add: req_le_def same_question_def)
    moreover have "isTerminal (Status r')" if "isTerminal (Status r)"
      using can_become_terminal [of "Status r" "Status r'"] r'(2) that by (simp add: req_le_def)
    moreover have "mget0 (fragments t) rid \<noteq> []" if "mget0 (fragments s) rid \<noteq> []" using pre that by auto
    ultimately show ?thesis using r'(1) assms(4) by blast
  qed
  let ?t = "ext w i s" let ?u = "ext w (Suc i) ?t"
  have st: "svc_steps s ?t" by (rule relyD [OF assms(1)])
  have su: "svc_steps s ?u" by (rule rtranclp_trans [OF st relyD [OF assms(1)]])
  have "AcquireFallbackAssignment (clk w i 0) rid ?t = (?t, None)"
    using over [OF st] by (auto simp: AcquireFallbackAssignment_def)
  moreover have "\<not> FallbackStillWanted rid ?u" using over [OF su] by (auto simp: FallbackStillWanted_def)
  ultimately show ?thesis using su by (simp add: Let_def)
qed

theorem fallback_loop_stops_witness:
  "\<exists>s' waits'. fallbackLoop toyParse (\<lambda>_. NoResponse) fbWorld shortConfig reqA 1 0 [] 0 demo7 = Returned (s', waits')"
proof -
  have "case mget (requests demo7) reqA of Some r \<Rightarrow> isTerminal (Status r) | None \<Rightarrow> False" by code_simp
  then obtain r where "mget (requests demo7) reqA = Some r" "isTerminal (Status r)" by (auto split: option.splits)
  from fallback_loop_stops [OF fbWorld_others(1) reachable_demo7 this(1), of toyParse "\<lambda>_. NoResponse" shortConfig 0]
  show ?thesis using \<open>isTerminal (Status r)\<close> by (metis One_nat_def)
qed

section \<open>An answer that may not be long enough\<close>

lemma tryAssign_nobody: "available s = [] \<Longrightarrow> tryAssignLocked now s = Some s"
proof -
  assume a: "available s = []"
  have "scanQueue s q = None" for q
    using a by (induction q) (auto simp: Let_def split: option.split)
  then show ?thesis by (subst tryAssignLocked.simps) (simp add: compatiblePairLocked_def)
qed

text \<open>The state before each round: the request waits, and nobody else could take it.\<close>

definition stuck :: "string \<Rightarrow> int \<Rightarrow> service \<Rightarrow> bool" where
  "stuck rid n s \<longleftrightarrow> reachable s \<and> available s = [] \<and> (\<exists>r. mget (requests s) rid = Some r \<and>
     Status r = StatusQueued \<and> AllowAIAnswers r \<and> PreferredResponderSessionID r = [] \<and>
     RequesterKind r \<noteq> KindAIPersona \<and> OutputLimit r < n)"

definition tooLong :: "(string \<Rightarrow> json option) \<Rightarrow> (upstreamRequest \<Rightarrow> upstream) \<Rightarrow> FallbackConfig \<Rightarrow> int \<Rightarrow> bool" where
  "tooLong parse net c n \<longleftrightarrow> (\<forall>rq. \<exists>lines. net rq = Response 200 lines False \<and>
     (\<forall>p \<in> set (frames lines). unmarshalChunk parse p \<noteq> None) \<and>
     (\<exists>t ts piece pieces. deltas parse (frames lines) = t # ts \<and>
        splitFallbackChunk t (FMaxChunkRunes c) = piece # pieces \<and> n \<le> int (RuneCountInString piece)))"

lemma attempt_refused:
  assumes q: "quiet w" and long: "tooLong parse net c n" and inv: "svc_inv s"
    and act: "mget (activeByRes s) sid = Some rid" and r: "mget (requests s) rid = Some r"
    and st: "Status r = StatusAssigned" and lim: "OutputLimit r < n" and sq: "0 < seqNo st"
    and run: "svc st = s" "\<not> submitted st" "\<not> emitted st"
  shows "\<exists>err. callFallbackUpstream parse net w c sid asg st = (st\<lparr>calls := Suc (calls st)\<rparr>, err)"
proof -
  let ?rq = "streamRequest (fallbackLlmConfig c) (fallbackMessages (AsgMessages asg))"
  obtain lines t ts piece pieces where up: "net ?rq = Response 200 lines False"
    "\<forall>p \<in> set (frames lines). unmarshalChunk parse p \<noteq> None" "deltas parse (frames lines) = t # ts"
    "splitFallbackChunk t (FMaxChunkRunes c) = piece # pieces" "n \<le> int (RuneCountInString piece)"
    using long unfolding tooLong_def by blast
  note rf = request_facts [OF svc_invD(1) [OF inv] r]
  have fr: "mget0 (fragments s) rid = []" using req_inv_held [OF rf(3)] st by (simp add: status_defs)
  have ne: "piece \<noteq> []" using fallback_chunks.split_nonempty up(4) by (metis list.set_intros(1))
  have unseen: "mget (mget0 (seqSeen s) rid) k = None" for k
    using svc_invD(1) [OF inv] fr by (cases "mget (mget0 (seqSeen s) rid) k") (auto simp: wf_service_def inv_fragments_def)
  have "SubmitFragment (ids w (calls st)) (clk w (calls st) 0) sid (seqNo st) piece s = fail s ErrOutputTooLarge"
    using act r rf(2) st sq ne unseen lim up(5) fr
    by (simp add: SubmitFragment_def Let_def mget0_def [of "activeByRes s"] isTerminal_def answerTextLocked_def)
  then have "submit w sid piece st = (st\<lparr>calls := Suc (calls st)\<rparr>, Some (SvcError ErrOutputTooLarge))"
    using q ne run by (simp add: submit_def Let_def)
  then have "Emit w c sid t st = (st\<lparr>calls := Suc (calls st)\<rparr>, Some (SvcError ErrOutputTooLarge))"
    using run up(4) by (simp add: Emit_def)
  then have "feed (Emit w c sid) (deltas parse (frames lines)) st =
      (st\<lparr>calls := Suc (calls st)\<rparr>, Some (SvcError ErrOutputTooLarge))" using up(3) by simp
  from readSSE_fails [OF up(2) this, of False False] show ?thesis
    using up(1) by (simp add: callFallbackUpstream_def Stream_def)
qed

lemma stuck_round:
  assumes q: "quiet w" and long: "tooLong parse net c n" and stuck: "stuck rid n s"
  shows "\<exists>s1 asg k s2. AcquireFallbackAssignment now rid s = (s1, Some (''fallback_'' @ rid, asg)) \<and>
    runFallbackResponder parse net w c (''fallback_'' @ rid) asg i s1 = Some (k, s2, True) \<and> stuck rid n s2"
proof -
  obtain r where s: "reachable s" "available s = []" and r: "mget (requests s) rid = Some r" "Status r = StatusQueued"
    "AllowAIAnswers r" "PreferredResponderSessionID r = []" "RequesterKind r \<noteq> KindAIPersona" "OutputLimit r < n"
    using stuck unfolding stuck_def by blast
  note wf = reachable_wf [OF s(1)]
  note rf = request_facts [OF wf r(1)]
  define sid where "sid = ''fallback_'' @ rid"
  let ?s1 = "fallbackState rid r now s" let ?r1 = "fallbackRequest r now"
  obtain asg where ac: "AcquireFallbackAssignment now rid s = (?s1, Some (sid, asg))"
    using AcquireFallback_eq [OF wf, of now rid] r by (simp add: sid_def)
  have reach1: "reachable ?s1" using reachable_step [OF s(1) svc_step.acquire_fallback [OF ac]] .
  have s1: "mget (activeByRes ?s1) sid = Some rid" "mget (requests ?s1) rid = Some ?r1" "available ?s1 = []"
    using s(2) by (simp_all add: fallbackState_def sid_def)
  have r1: "Status ?r1 = StatusAssigned" "OutputLimit ?r1 < n" "ResponderSessionID ?r1 = sid"
    "PreferredResponderSessionID ?r1 = []" "RequesterKind ?r1 \<noteq> KindAIPersona" "ReqID ?r1 = rid" "AllowAIAnswers ?r1"
    using r rf(1) by (simp_all add: fallbackRequest_def sid_def)
  note inv1 = reachable_svc_inv [OF reach1]
  have fr: "mget0 (fragments ?s1) rid = []"
    using req_inv_held [OF request_facts(3) [OF svc_invD(1) [OF inv1] s1(2)]] r1(1) by (simp add: status_defs)
  let ?st0 = "\<lparr>svc = ?s1, calls = i, seqNo = 1, submitted = False, emitted = False\<rparr>"
  obtain err where call: "callFallbackUpstream parse net w c sid asg ?st0 = (?st0\<lparr>calls := Suc i\<rparr>, err)"
    using attempt_refused [OF q long inv1 s1(1,2) r1(1,2), of ?st0] by auto
  let ?s2 = "requeueLocked ?r1 (clk w (Suc i) 0) ?s1"
  have av2: "available ?s2 = []" using s1(3) by (simp add: requeueLocked_def Let_def put_req_def)
  have skip: "Skip (clk w (Suc i) 0) (clk w (Suc i) 1) sid ?s1 = ok ?s2 ()"
    using s1 r1 fr rf(2) tryAssign_nobody [OF av2]
    by (simp add: Skip_def mget0_def [of "activeByRes ?s1"])
  have "reachable ?s2" using reachable_step [OF reach1 svc_step.skip [OF skip]] .
  moreover have "mget (requests ?s2) rid = Some ((clearResponder ?r1)\<lparr>Status := StatusQueued, UpdatedAt := clk w (Suc i) 0\<rparr>)"
    using r1(6) by (simp add: requeueLocked_def Let_def put_req_def clearResponder_def)
  ultimately have "stuck rid n ?s2" using av2 r1 by (simp add: stuck_def clearResponder_def)
  moreover have "runFallbackResponder parse net w c sid asg i ?s1 = Some (Suc (Suc i), ?s2, True)"
    using call skip q by (simp add: runFallbackResponder_def Let_def)
  ultimately show ?thesis using ac unfolding sid_def by blast
qed

text \<open>
  The fallback can retry for ever. If a question allows fewer characters than the first piece
  of the upstream's answer has (the piece size is five by default, and an author may ask for one
  character), every attempt fails at its first piece, gives the request back and tries again; with no
  responder around, the loop never returns, however long it runs.
\<close>

theorem fallback_retries_forever:
  assumes "quiet w" and "tooLong parse net c n" and "stuck rid n s"
  shows "fallbackLoop parse net w c rid fuel delay waits i s = Running"
  using assms(3)
proof (induction fuel arbitrary: delay waits i s)
  case (Suc fuel)
  obtain s1 asg k s2 where "AcquireFallbackAssignment (clk w i 0) rid s = (s1, Some (''fallback_'' @ rid, asg))"
    "runFallbackResponder parse net w c (''fallback_'' @ rid) asg (Suc i) s1 = Some (k, s2, True)" "stuck rid n s2"
    using stuck_round [OF assms(1,2) Suc.prems] by blast
  then show ?case using Suc.IH assms(1) by (simp add: Let_def)
qed simp

theorem fallback_retries_forever_witness:
  "fallbackLoop toyParse (\<lambda>_. Response 200 longLines False) fbWorld shortConfig reqA 1000 0 [] 0 demoShort = Running"
proof (rule fallback_retries_forever [where n = 5])
  show "quiet fbWorld" by (simp add: fbWorld_def)
  have "frames longLines = [''hello you'']" "unmarshalChunk toyParse ''hello you'' = Some [''hello you'']"
    "splitFallbackChunk ''hello you'' (FMaxChunkRunes shortConfig) = [''hello'', '' you'']"
    "RuneCountInString ''hello'' = 5" by code_simp+
  then show "tooLong toyParse (\<lambda>_. Response 200 longLines False) shortConfig 5"
    by (simp add: tooLong_def deltas_def)
  have "available demoShort = [] \<and> (case mget (requests demoShort) reqA of None \<Rightarrow> False
    | Some r \<Rightarrow> Status r = StatusQueued \<and> AllowAIAnswers r \<and> PreferredResponderSessionID r = [] \<and>
        RequesterKind r \<noteq> KindAIPersona \<and> OutputLimit r < 5)" by code_simp
  then show "stuck reqA 5 demoShort"
    using reachable_demoShort by (auto simp: stuck_def split: option.splits)
qed

end
