(* ===== verification/Persona.thy ===== *)
theory Persona
  imports Chunking Llm World CoreFrames
begin

text \<open>
  The AI personas (\<open>internal/persona/manager.go\<close>): the manager's own state under its mutex, the
  control loop's tick, the responder pool, the driver of one responder with the answer it produces,
  and the goroutine that posts a question and follows it up. Drivers and posters are goroutines:
  each is a function over its own calls in a \<open>world\<close>. The upstream is \<open>net\<close> and \<open>parse\<close>, as in
  \<open>Llm\<close>; a loop that waits has fuel or a list of wake-ups, and \<open>Running\<close> is a loop still waiting.
\<close>

section \<open>Configuration and state\<close>

record personaConfig =
  PEnabled :: bool
  PollInterval :: duration
  LeaseTTL :: duration
  MaxResponders :: int
  TargetQueue :: int
  AnswerRunes :: int
  ChunkRunes :: int
  PChunkDelay :: duration
  SkipBackoff :: duration
  FollowUpQueueTimeout :: duration
  PLLM :: llmConfig

definition DefaultConfig :: personaConfig where
  "DefaultConfig =
     \<lparr>PEnabled = True, PollInterval = 5 * second, LeaseTTL = 15 * second, MaxResponders = 2,
      TargetQueue = 2, AnswerRunes = 600, ChunkRunes = 6, PChunkDelay = 90 * millisecond,
      SkipBackoff = 2 * second, FollowUpQueueTimeout = 30 * second,
      PLLM = \<lparr>BaseURL = [], APIKey = [], LModel = [], MaxTokens = 0\<rparr>\<rparr>"

text \<open>
  \<open>m.responders\<close> maps a session to the cancel function of its driver; the model keeps the keys, and
  in \<open>cancelled\<close> the sessions whose cancel function has been called.
\<close>

record Manager =
  cfg :: personaConfig
  podID :: string
  pool :: "string list"
  cancelled :: "string list"
  posting :: bool
  activeConversations :: int
  nameSeq :: int

definition NewManager :: "personaConfig \<Rightarrow> string \<Rightarrow> Manager" where
  "NewManager c bytes = \<lparr>cfg = c, podID = ''pod_'' @ hexEncode bytes, pool = [], cancelled = [],
     posting = False, activeConversations = 0, nameSeq = 0\<rparr>"

section \<open>Texts\<close>

definition namePrefix :: string where
  "namePrefix = string_of_runes [0x6DF1, 0x601D, 0x4F2A, 0x4EBA, 45]"

definition nextName :: "Manager \<Rightarrow> Manager \<times> string" where
  "nextName m =
     (let n = nameSeq m + 1
      in (m\<lparr>nameSeq := n\<rparr>, namePrefix @ (if 0 \<le> n \<and> n < 10 then ''0'' @ itoa n else itoa n)))"

definition answerMessages :: "Message list \<Rightarrow> Message list" where
  "answerMessages messages = \<lparr>Role = ''system'', Content = string_of_runes [0x4F60, 0x5728, 0x4E00, 0x4E2A, 0x6076, 0x641E, 0x804A, 0x5929, 0x4EA7, 0x54C1, 0x91CC,
     0x626E, 0x6F14, 0x201C, 0x5047, 0x88C5, 0x662F, 32, 65, 73, 32, 0x7684, 0x4EBA, 0x7C7B, 0x201D, 0x3002,
     0x7528, 0x81EA, 0x7136, 0x3001, 0x7B80, 0x6D01, 0x3001, 0x7565, 0x5E26, 0x8C03, 0x4F83, 0x7684, 0x4E2D,
     0x6587, 0x56DE, 0x7B54, 0x7528, 0x6237, 0xFF0C, 0x522B, 0x63D0, 0x5230, 0x8FD9, 0x4E9B, 0x7CFB, 0x7EDF,
     0x8BF4, 0x660E, 0x3002]\<rparr> # messages"

definition questionMessages :: "Message list" where
  "questionMessages = [\<lparr>Role = ''user'', Content = string_of_runes [0x4F60, 0x662F, 0x4E00, 0x4E2A, 0x7231, 0x63D0, 0x95EE, 0x7684, 0x666E, 0x901A, 0x7528,
     0x6237, 0x3002, 0x7528, 0x4E00, 0x53E5, 0x7B80, 0x77ED, 0x3001, 0x6709, 0x70B9, 0x610F, 0x601D, 0x7684,
     0x4E2D, 0x6587, 0xFF0C, 0x5411, 0x201C, 65, 73, 0x201D, 0x63D0, 0x4E00, 0x4E2A, 0x95EE, 0x9898, 0x3002,
     0x53EA, 0x8F93, 0x51FA, 0x95EE, 0x9898, 0x672C, 0x8EAB, 0xFF0C, 0x4E0D, 0x8981, 0x5F15, 0x53F7, 0x6216,
     0x89E3, 0x91CA, 0x3002]\<rparr>]"

definition followUpQuestionMessages :: "Message list \<Rightarrow> Message list" where
  "followUpQuestionMessages history = \<lparr>Role = ''system'', Content = string_of_runes [0x4F60, 0x662F, 0x6B63, 0x5728, 0x548C, 0x4E00, 0x4E2A, 32, 65, 73, 32, 0x8FDE, 0x7EED,
     0x804A, 0x5929, 0x7684, 0x666E, 0x901A, 0x7528, 0x6237, 0x3002, 0x6839, 0x636E, 0x5B8C, 0x6574, 0x5BF9,
     0x8BDD, 0x548C, 0x5BF9, 0x65B9, 0x521A, 0x624D, 0x7684, 0x56DE, 0x7B54, 0xFF0C, 0x81EA, 0x7136, 0x5730,
     0x8FFD, 0x95EE, 0x4E00, 0x4E2A, 0x7B80, 0x77ED, 0x3001, 0x6709, 0x610F, 0x601D, 0x7684, 0x4E2D, 0x6587,
     0x95EE, 0x9898, 0x3002, 0x4E0D, 0x8981, 0x91CD, 0x590D, 0x5DF2, 0x7ECF, 0x95EE, 0x8FC7, 0x7684, 0x95EE,
     0x9898, 0x3002, 0x53EA, 0x8F93, 0x51FA, 0x4E0B, 0x4E00, 0x95EE, 0x672C, 0x8EAB, 0xFF0C, 0x4E0D, 0x8981,
     0x5F15, 0x53F7, 0x3001, 0x524D, 0x7F00, 0x6216, 0x89E3, 0x91CA, 0x3002]\<rparr> # history"

definition questionMark :: string where
  "questionMark = string_of_runes [0xFF1F]"

text \<open>\<open>strings.TrimRight\<close> with the set of the full stops and exclamation marks.\<close>

definition trimStops :: "string \<Rightarrow> string" where
  "trimStops s = concat (rev (dropWhile (\<lambda>x. seg_rune x \<in> {0x3002, 46, 33, 0xFF01}) (rev (segs s))))"

definition trimQuestion :: "string \<Rightarrow> string" where
  "trimQuestion question0 =
     (let q1 = TrimSpace question0;
          q2 = (if q1 \<noteq> [] \<and> \<not> HasSuffix q1 questionMark \<and> \<not> HasSuffix q1 ''?''
                then trimStops q1 @ questionMark else q1)
      in if length (runes q2) > 500 then string_of_runes (take 500 (runes q2)) else q2)"

section \<open>The responder pool\<close>

definition reapAll :: "Manager \<Rightarrow> Manager" where
  "reapAll m = m\<lparr>cancelled := cancelled m @ pool m\<rparr>"

text \<open>\<open>startResponder\<close> makes the calls \<open>i\<close> and \<open>i + 1\<close>; the last component is the driver it starts.\<close>

definition startResponder ::
  "world \<Rightarrow> nat \<Rightarrow> Manager \<Rightarrow> service \<Rightarrow> (Manager \<times> service \<times> (string \<times> nat) list) option"
where
  "startResponder w i m s =
     (let (m1, name) = nextName m in do {
        (s1, auth) \<leftarrow> PersonaSession (ids w i) (clk w i 0) name (ext w i s);
        (s2, x) \<leftarrow> RegisterResponder (AuthToken auth) (ext w (i + 1) s1);
        case x of
          Inl _ \<Rightarrow> Some (m1, s2, [])
        | Inr (sid, assignments) \<Rightarrow>
            Some (m1\<lparr>pool := (if sid \<in> set (pool m1) then pool m1 else pool m1 @ [sid])\<rparr>, s2,
                  [(sid, assignments)])
      })"

fun startResponders ::
  "nat \<Rightarrow> world \<Rightarrow> nat \<Rightarrow> Manager \<Rightarrow> service \<Rightarrow> (Manager \<times> service \<times> (string \<times> nat) list) option"
where
  "startResponders 0 w i m s = Some (m, s, [])"
| "startResponders (Suc n) w i m s = do {
     (m1, s1, started) \<leftarrow> startResponder w i m s;
     (m2, s2, rest) \<leftarrow> startResponders n w (i + 2) m1 s1;
     Some (m2, s2, started @ rest)
   }"

text \<open>
  The surplus is trimmed in the order in which the loop ranges over the map: \<open>ord\<close> lists the pool
  in that order.
\<close>

definition ensureResponders ::
  "string list \<Rightarrow> world \<Rightarrow> nat \<Rightarrow> int \<Rightarrow> Manager \<Rightarrow> service
   \<Rightarrow> (Manager \<times> service \<times> (string \<times> nat) list) option"
where
  "ensureResponders ord w i want m s =
     (let have0 = int (length (pool m));
          trim = take (nat (have0 - want)) ord;
          m1 = m\<lparr>pool := filter (\<lambda>sid. sid \<notin> set trim) (pool m), cancelled := cancelled m @ trim\<rparr>;
          have1 = have0 - int (length trim)
      in startResponders (nat (want - have1)) w i m1 s)"

definition beginPosting :: "Manager \<Rightarrow> Manager \<times> bool" where
  "beginPosting m =
     (if posting m \<or> activeConversations m \<ge> TargetQueue (cfg m) then (m, False)
      else (m\<lparr>posting := True\<rparr>, True))"

text \<open>
  One tick. The result says which drivers and whether a poster were started; the last two reads of
  the service come after the pool has been adjusted.
\<close>

definition tick ::
  "string list \<Rightarrow> world \<Rightarrow> Manager \<Rightarrow> service \<Rightarrow> (Manager \<times> service \<times> (string \<times> nat) list \<times> bool) option"
where
  "tick ord w m s =
     (let s0 = ext w 0 s in
      if \<not> TryPersonaLeader (podID m) (LeaseTTL (cfg m)) s0 then Some (reapAll m, s0, [], False)
      else
        let s1 = ext w 1 s0;
            online = int (OnlineResponderCount s1);
            running = int (length (pool m));
            humans = online - running
        in if humans < 1 then Some (reapAll m, s1, [], False)
           else
             let want = (if humans > MaxResponders (cfg m) then MaxResponders (cfg m) else humans)
             in do {
               (m1, s2, started) \<leftarrow> ensureResponders ord w 2 want m s1;
               let s3 = ext w (2 + 2 * nat want) s2;
               let (m2, post) = (if int (QueuedRequestCount s3) < TargetQueue (cfg m1) then beginPosting m1
                                 else (m1, False));
               Some (m2, s3, started, post)
             })"

text \<open>The control loop over its ticks, until the context is done; \<open>Run\<close> does nothing unless configured.\<close>

fun runTicks :: "(string list \<times> world) list \<Rightarrow> Manager \<Rightarrow> service \<Rightarrow> (Manager \<times> service) option" where
  "runTicks [] m s = Some (reapAll m, s)"
| "runTicks ((ord, w) # ticks) m s = do {
     (m1, s1, _, _) \<leftarrow> tick ord w m s;
     runTicks ticks m1 s1
   }"

definition Run :: "(string list \<times> world) list \<Rightarrow> Manager \<Rightarrow> service \<Rightarrow> (Manager \<times> service) option" where
  "Run ticks m s =
     (if \<not> PEnabled (cfg m) \<or> \<not> Enabled (PLLM (cfg m)) then Some (m, s) else runTicks ticks m s)"

section \<open>A driver\<close>

text \<open>The chunk loop of \<open>answer\<close>, with the two ways it ends in \<open>Finish\<close>.\<close>

definition finishAnswer :: "world \<Rightarrow> nat \<Rightarrow> string \<Rightarrow> service \<Rightarrow> (nat \<times> service) option" where
  "finishAnswer w i sid s =
     (case Finish (ids w i 0) (clk w i 0) sid (ext w i s) of
        None \<Rightarrow> None
      | Some (s1, _) \<Rightarrow> Some (i + 1, s1))"

fun sendChunks :: "world \<Rightarrow> string \<Rightarrow> string list \<Rightarrow> nat \<Rightarrow> int \<Rightarrow> service \<Rightarrow> (nat \<times> service) option" where
  "sendChunks w sid [] i seq s = finishAnswer w i sid s"
| "sendChunks w sid (chunk # chunks) i seq s =
     (if expired w i then Some (i, s)
      else case SubmitFragment (ids w i) (clk w i 0) sid seq chunk (ext w i s) of
        None \<Rightarrow> None
      | Some (s1, Inl _) \<Rightarrow> finishAnswer w (i + 1) sid s1
      | Some (s1, Inr _) \<Rightarrow> sendChunks w sid chunks (i + 1) (seq + 1) s1)"

definition skipAnswer :: "world \<Rightarrow> nat \<Rightarrow> string \<Rightarrow> service \<Rightarrow> (nat \<times> service \<times> bool) option" where
  "skipAnswer w i sid s =
     (case Skip (clk w i 0) (clk w i 1) sid (ext w i s) of
        None \<Rightarrow> None
      | Some (s1, _) \<Rightarrow> Some (i + 1, s1, False))"

definition answer ::
  "(string \<Rightarrow> json option) \<Rightarrow> (upstreamRequest \<Rightarrow> upstream) \<Rightarrow> world \<Rightarrow> personaConfig \<Rightarrow> string
   \<Rightarrow> AssignedRequest \<Rightarrow> nat \<Rightarrow> service \<Rightarrow> (nat \<times> service \<times> bool) option"
where
  "answer parse net w c sid a i s =
     (let s0 = ext w i s in
      case RequestSnapshot (AsgRequestID a) s0 of
        Inl _ \<Rightarrow> skipAnswer w (i + 1) sid s0
      | Inr (snap, _) \<Rightarrow>
          if RequesterKind snap \<noteq> KindHuman then skipAnswer w (i + 1) sid s0
          else
            let (text, err) = Complete parse net (PLLM c) (answerMessages (AsgMessages a)) in
            if err \<noteq> None \<or> TrimSpace text = [] then skipAnswer w (i + 1) sid s0
            else map_option (\<lambda>(k, s'). (k, s', True))
                   (sendChunks w sid (chunkRunes text (ChunkRunes c)) (i + 1) 1 s0))"

definition recvAssignment :: "nat \<Rightarrow> service \<Rightarrow> service \<times> AssignedRequest option \<times> bool" where
  "recvAssignment ch s =
     (case heap_get (assignChans s) ch of
        None \<Rightarrow> (s, None, False)
      | Some c \<Rightarrow>
          (case recv c of
             Some (a, c') \<Rightarrow> (s\<lparr>assignChans := (assignChans s)[ch := c']\<rparr>, Some a, False)
           | None \<Rightarrow> (s, None, cclosed c)))"

text \<open>
  The deferred end of a driver: the responder leaves, then the manager forgets it
  (\<open>forgetResponder\<close>, on the manager's state at that moment).
\<close>

definition endResponder :: "world \<Rightarrow> nat \<Rightarrow> string \<Rightarrow> service \<Rightarrow> service run" where
  "endResponder w i sid s =
     (case UnregisterResponder (ids w i 0) (clk w i 0) sid (ext w i s) of
        None \<Rightarrow> Panic
      | Some s1 \<Rightarrow> Returned s1)"

definition forgetResponder :: "string \<Rightarrow> Manager \<Rightarrow> Manager" where
  "forgetResponder sid m = m\<lparr>pool := filter (\<lambda>x. x \<noteq> sid) (pool m)\<rparr>"

text \<open>The loop of \<open>runResponder\<close>: \<open>n\<close> rounds of its \<open>select\<close>, the context being done as \<open>expired\<close> says.\<close>

fun driverLoop ::
  "(string \<Rightarrow> json option) \<Rightarrow> (upstreamRequest \<Rightarrow> upstream) \<Rightarrow> world \<Rightarrow> personaConfig \<Rightarrow> string \<Rightarrow> nat
   \<Rightarrow> nat \<Rightarrow> nat \<Rightarrow> service \<Rightarrow> service run"
where
  "driverLoop parse net w c sid ch 0 i s = Running"
| "driverLoop parse net w c sid ch (Suc n) i s =
     (if expired w i then endResponder w i sid s
      else case recvAssignment ch (ext w i s) of
        (s1, None, closed) \<Rightarrow>
          if closed then endResponder w (i + 1) sid s1 else driverLoop parse net w c sid ch n (i + 1) s1
      | (s1, Some a, _) \<Rightarrow>
          (case answer parse net w c sid a (i + 1) s1 of
             None \<Rightarrow> Panic
           | Some (k, s2, answered) \<Rightarrow>
               if expired w k then endResponder w k sid s2
               else (case MarkResponderAvailable (clk w k 0) sid [False] (ext w k s2) of
                       None \<Rightarrow> Panic
                     | Some (s3, _) \<Rightarrow> driverLoop parse net w c sid ch n (k + 1) s3)))"

definition runResponder ::
  "(string \<Rightarrow> json option) \<Rightarrow> (upstreamRequest \<Rightarrow> upstream) \<Rightarrow> world \<Rightarrow> personaConfig \<Rightarrow> string \<Rightarrow> nat
   \<Rightarrow> nat \<Rightarrow> service \<Rightarrow> service run"
where
  "runResponder parse net w c sid ch n s =
     (case MarkResponderAvailable (clk w 0 0) sid [False] (ext w 0 s) of
        None \<Rightarrow> Panic
      | Some (s1, _) \<Rightarrow> driverLoop parse net w c sid ch n 1 s1)"

section \<open>A poster\<close>

text \<open>
  \<open>waitForPersonaAnswer\<close>: \<open>n\<close> polls of the request; a targeted request that stays queued past its
  deadline is cancelled. The result is the snapshot with its answer, or \<open>None\<close> for \<open>false\<close>.
\<close>

fun pollAnswer ::
  "world \<Rightarrow> Request \<Rightarrow> time option \<Rightarrow> nat \<Rightarrow> nat \<Rightarrow> service \<Rightarrow> (nat \<times> service \<times> (Request \<times> string) option) run"
where
  "pollAnswer w req deadline 0 i s = Running"
| "pollAnswer w req deadline (Suc n) i s =
     (let s0 = ext w i s in
      case RequestSnapshot (ReqID req) s0 of
        Inl _ \<Rightarrow> Returned (i + 1, s0, None)
      | Inr (snap, text0) \<Rightarrow>
          if Status snap = StatusCompleted then
            (let text = TrimSpace text0 in
             if text = [] \<or> ResponderKind snap \<noteq> KindHuman \<or> ResponderSessionID snap = []
             then Returned (i + 1, s0, None) else Returned (i + 1, s0, Some (snap, text)))
          else if Status snap = StatusAbandoned \<or> Status snap = StatusTimeoutCompleted
          then Returned (i + 1, s0, None)
          else if Status snap = StatusQueued \<and> (case deadline of None \<Rightarrow> False | Some d \<Rightarrow> clk w i 0 > d)
          then (case CancelBeforeFirstFragment (clk w (i + 1) 0) (ReqID req) (ext w (i + 1) s0) of
                  None \<Rightarrow> Panic
                | Some (s1, _) \<Rightarrow> Returned (i + 2, s1, None))
          else if expired w i then Returned (i + 1, s0, None)
          else pollAnswer w req deadline n (i + 1) s0)"

definition waitForPersonaAnswer ::
  "world \<Rightarrow> personaConfig \<Rightarrow> Request \<Rightarrow> nat \<Rightarrow> nat \<Rightarrow> service \<Rightarrow> (nat \<times> service \<times> (Request \<times> string) option) run"
where
  "waitForPersonaAnswer w c req n i s =
     pollAnswer w req
       (if PreferredResponderSessionID req \<noteq> [] \<and> FollowUpQueueTimeout c > 0
        then Some (clk w i 0 + FollowUpQueueTimeout c) else None) n i s"

text \<open>
  \<open>continueQuestionConversation\<close>; \<open>n\<close> bounds the turns and the polls of each turn. Every way out
  but the ones without an answer lets the human responder go on.
\<close>

definition resume :: "world \<Rightarrow> nat \<Rightarrow> string \<Rightarrow> service \<Rightarrow> (service \<times> error option) option" where
  "resume w i sid s =
     map_option (\<lambda>(s1, x). (s1, case x of Inl e \<Rightarrow> Some e | Inr _ \<Rightarrow> None))
       (ResumeResponder (clk w i 0) sid (ext w i s))"

fun continueConversation ::
  "(string \<Rightarrow> json option) \<Rightarrow> (upstreamRequest \<Rightarrow> upstream) \<Rightarrow> world \<Rightarrow> personaConfig \<Rightarrow> string \<Rightarrow> nat
   \<Rightarrow> Request \<Rightarrow> Message list \<Rightarrow> nat \<Rightarrow> service \<Rightarrow> service run"
where
  "continueConversation parse net w c token 0 current history i s = Running"
| "continueConversation parse net w c token (Suc n) current history i s =
     (case waitForPersonaAnswer w c current (Suc n) i s of
        Running \<Rightarrow> Running
      | Panic \<Rightarrow> Panic
      | Returned (k, s1, None) \<Rightarrow> Returned s1
      | Returned (k, s1, Some (snap, text)) \<Rightarrow>
          (let responderID = ResponderSessionID snap;
               history1 = history @ [\<lparr>Role = ''assistant'', Content = text\<rparr>];
               (raw, err) = Complete parse net (PLLM c) (followUpQuestionMessages history1);
               question = trimQuestion raw
           in if err \<noteq> None \<or> question = []
              then (case resume w k responderID s1 of None \<Rightarrow> Panic | Some (s2, _) \<Rightarrow> Returned s2)
              else
                let history2 = history1 @ [\<lparr>Role = ''user'', Content = question\<rparr>] in
                case CreateTargetedRequest (ids w k) (clk w k 0) token ''deeperseek-human'' history2
                    (AnswerRunes c) responderID (ext w k s1) of
                  None \<Rightarrow> Panic
                | Some (s2, Inl _) \<Rightarrow>
                    (case resume w (k + 1) responderID s2 of None \<Rightarrow> Panic | Some (s3, _) \<Rightarrow> Returned s3)
                | Some (s2, Inr nxt) \<Rightarrow>
                    (case resume w (k + 1) responderID s2 of
                       None \<Rightarrow> Panic
                     | Some (s3, Some _) \<Rightarrow>
                         (case CancelBeforeFirstFragment (clk w (k + 2) 0) (ReqID nxt) (ext w (k + 2) s3) of
                            None \<Rightarrow> Panic
                          | Some (s4, _) \<Rightarrow> Returned s4)
                     | Some (s3, None) \<Rightarrow>
                         continueConversation parse net w c token n nxt history2 (k + 2) s3)))"

definition continueQuestionConversation ::
  "(string \<Rightarrow> json option) \<Rightarrow> (upstreamRequest \<Rightarrow> upstream) \<Rightarrow> world \<Rightarrow> personaConfig \<Rightarrow> AuthResult \<Rightarrow> nat
   \<Rightarrow> Request \<Rightarrow> nat \<Rightarrow> service \<Rightarrow> service run"
where
  "continueQuestionConversation parse net w c auth n current i s =
     continueConversation parse net w c (AuthToken auth) n current (Messages current) i s"

text \<open>
  \<open>postQuestion\<close> up to the created request: its result is the request to follow up, or \<open>None\<close> when
  the poster gives up. What it does to the manager is \<open>posted\<close>, and its deferred end is \<open>posterEnds\<close>.
\<close>

definition askQuestion ::
  "(string \<Rightarrow> json option) \<Rightarrow> (upstreamRequest \<Rightarrow> upstream) \<Rightarrow> world \<Rightarrow> personaConfig \<Rightarrow> string \<Rightarrow> service
   \<Rightarrow> (service \<times> (AuthResult \<times> Request) option) option"
where
  "askQuestion parse net w c name s = do {
     (s1, auth) \<leftarrow> PersonaSession (ids w 0) (clk w 0 0) name (ext w 0 s);
     let (raw, err) = Complete parse net (PLLM c) questionMessages;
     let q = trimQuestion raw;
     if err \<noteq> None \<or> q = [] then Some (s1, None)
     else do {
       (s2, x) \<leftarrow> CreateRequest (ids w 1) (clk w 1 0) (AuthToken auth) ''deeperseek-human''
         [\<lparr>Role = ''user'', Content = q\<rparr>] (AnswerRunes c) [] (ext w 1 s1);
       Some (s2, case x of Inl _ \<Rightarrow> None | Inr req \<Rightarrow> Some (auth, req))
     }
   }"

definition posted :: "Manager \<Rightarrow> Manager" where
  "posted m = m\<lparr>posting := False, activeConversations := activeConversations m + 1\<rparr>"

definition posterEnds :: "bool \<Rightarrow> Manager \<Rightarrow> Manager" where
  "posterEnds active m =
     m\<lparr>posting := False, activeConversations := activeConversations m - (if active then 1 else 0)\<rparr>"

definition postQuestion ::
  "(string \<Rightarrow> json option) \<Rightarrow> (upstreamRequest \<Rightarrow> upstream) \<Rightarrow> world \<Rightarrow> personaConfig \<Rightarrow> string \<Rightarrow> nat \<Rightarrow> service
   \<Rightarrow> service run"
where
  "postQuestion parse net w c name n s =
     (case askQuestion parse net w c name s of
        None \<Rightarrow> Panic
      | Some (s1, None) \<Rightarrow> Returned s1
      | Some (s1, Some (auth, req)) \<Rightarrow> continueQuestionConversation parse net w c auth n req 2 s1)"

end
