(* ===== verification/PersonaProps.thy ===== *)
theory PersonaProps
  imports Persona Scenario
begin

text \<open>
  Properties of the personas: a driver ends when it is told to and leaves nothing behind, the pool
  follows the number of humans, and what the count of conversations says of the goroutines.
\<close>

section \<open>A driver\<close>

lemma recvAssignment_steps: "recvAssignment ch s = (t, x) \<Longrightarrow> svc_steps s t"
  by (auto simp: recvAssignment_def heap_get_def split: option.splits if_splits prod.splits
      intro: r_into_rtranclp svc_step.recv_assignment)

lemma finishAnswer_steps:
  "rely w \<Longrightarrow> reachable s \<Longrightarrow> \<exists>t. finishAnswer w i sid s = Some (i + 1, t) \<and> svc_steps s t"
  using world_calls(3) [of w s "ids w i 0" "clk w i 0" sid i] by (auto simp: finishAnswer_def)

lemma sendChunks_steps:
  assumes "rely w"
  shows "reachable s \<Longrightarrow> \<exists>k t. sendChunks w sid chunks i seq s = Some (k, t) \<and> i \<le> k \<and> svc_steps s t"
proof (induction chunks arbitrary: i seq s)
  case Nil
  show ?case using finishAnswer_steps [OF assms Nil] by fastforce
next
  case (Cons chunk chunks)
  obtain t x where t: "SubmitFragment (ids w i) (clk w i 0) sid seq chunk (ext w i s) = Some (t, x)" "svc_steps s t"
    using world_calls(2) [OF assms Cons.prems] by blast
  note r = reachable_steps [OF Cons.prems t(2)]
  obtain u where u: "finishAnswer w (i + 1) sid t = Some (i + 2, u)" "svc_steps t u"
    using finishAnswer_steps [OF assms r] by fastforce
  obtain k v where v: "sendChunks w sid chunks (i + 1) (seq + 1) t = Some (k, v)" "i + 1 \<le> k" "svc_steps t v"
    using Cons.IH [OF r] by blast
  show ?case using t(1) u v rtranclp_trans [OF t(2) u(2)] rtranclp_trans [OF t(2) v(3)]
    by (cases x) auto
qed

lemma skipAnswer_steps:
  "rely w \<Longrightarrow> reachable s \<Longrightarrow> \<exists>t. skipAnswer w i sid s = Some (i + 1, t, False) \<and> svc_steps s t"
  using world_calls(4) [of w s "clk w i 0" "clk w i 1" sid i] by (auto simp: skipAnswer_def)

lemma answer_steps:
  assumes "rely w" and "reachable s"
  shows "\<exists>k t b. answer parse net w c sid a i s = Some (k, t, b) \<and> i < k \<and> svc_steps s t"
proof -
  let ?s = "ext w i s"
  have e: "svc_steps s ?s" by (rule relyD [OF assms(1)])
  note r = reachable_steps [OF assms(2) e]
  obtain t where t: "skipAnswer w (i + 1) sid ?s = Some (i + 2, t, False)" "svc_steps s t"
    using skipAnswer_steps [OF assms(1) r, of "i + 1" sid] rtranclp_trans [OF e] by fastforce
  have "\<exists>k u. sendChunks w sid cs (i + 1) 1 ?s = Some (k, u) \<and> i + 1 \<le> k \<and> svc_steps s u" for cs
    using sendChunks_steps [OF assms(1) r] rtranclp_trans [OF e] by blast
  from this [of "chunkRunes (fst (Complete parse net (PLLM c) (answerMessages (AsgMessages a)))) (ChunkRunes c)"]
  show ?thesis using t
    by (auto simp: answer_def Let_def split: sum.splits prod.splits)
qed

text \<open>Nothing is left of a responder: not registered, not waiting, no request.\<close>

definition released :: "service \<Rightarrow> string \<Rightarrow> bool" where
  "released s sid \<longleftrightarrow> mget (responders s) sid = None \<and> sid \<notin> set (available s) \<and> mget (activeByRes s) sid = None"

lemma endResponder_releases:
  assumes "rely w" and "reachable s"
  shows "\<exists>t. endResponder w i sid s = Returned t \<and> svc_steps s t \<and> released t sid"
proof -
  obtain t where t: "UnregisterResponder (ids w i 0) (clk w i 0) sid (ext w i s) = Some t" "svc_steps s t"
    using world_calls(6) [OF assms] by blast
  from unregister_effect [OF inv_ext [OF assms] t(1)] t show ?thesis
    by (simp add: endResponder_def released_def)
qed

definition leaves :: "service \<Rightarrow> string \<Rightarrow> service run \<Rightarrow> bool" where
  "leaves s sid x \<longleftrightarrow> (\<exists>t. x = Returned t \<and> svc_steps s t \<and> released t sid)"

lemma leaves_steps: "svc_steps s t \<Longrightarrow> leaves t sid x \<Longrightarrow> leaves s sid x"
  by (auto simp: leaves_def intro: rtranclp_trans)

lemma driverLoop_leaves:
  assumes "rely w" and "\<forall>j \<ge> k. expired w j"
  shows "reachable s \<Longrightarrow> k - i < n \<Longrightarrow> leaves s sid (driverLoop parse net w c sid ch n i s)"
proof (induction n arbitrary: i s)
  case (Suc n)
  note fin = endResponder_releases [OF assms(1), folded leaves_def]
  show ?case
  proof (cases "expired w i")
    case True
    then show ?thesis using fin [OF Suc.prems(1)] by simp
  next
    case False
    then have ik: "i < k" using assms(2) by (meson not_less)
    have e: "svc_steps s (ext w i s)" by (rule relyD [OF assms(1)])
    obtain t a b where t: "recvAssignment ch (ext w i s) = (t, a, b)" by (cases "recvAssignment ch (ext w i s)")
    have st: "svc_steps s t" by (rule rtranclp_trans [OF e recvAssignment_steps [OF t]])
    note rt = reachable_steps [OF Suc.prems(1) st]
    have "leaves t sid (driverLoop parse net w c sid ch n (i + 1) t)"
      by (rule Suc.IH [OF rt]) (use Suc.prems(2) ik in linarith)
    moreover note fin [OF rt]
    moreover have "leaves t sid (case answer parse net w c sid x (i + 1) t of None \<Rightarrow> Panic
      | Some (k', u, _) \<Rightarrow> if expired w k' then endResponder w k' sid u
          else (case MarkResponderAvailable (clk w k' 0) sid [False] (ext w k' u) of None \<Rightarrow> Panic
            | Some (v, _) \<Rightarrow> driverLoop parse net w c sid ch n (k' + 1) v))" for x
    proof -
      obtain k' u d where u: "answer parse net w c sid x (i + 1) t = Some (k', u, d)" "i + 1 < k'" "svc_steps t u"
        using answer_steps [OF assms(1) rt] by blast
      note ru = reachable_steps [OF rt u(3)]
      obtain v y where v: "MarkResponderAvailable (clk w k' 0) sid [False] (ext w k' u) = Some (v, y)" "svc_steps u v"
        using world_calls(1) [OF assms(1) ru] by blast
      have "leaves v sid (driverLoop parse net w c sid ch n (k' + 1) v)"
        by (rule Suc.IH [OF reachable_steps [OF ru v(2)]]) (use Suc.prems(2) ik u(2) in linarith)
      from leaves_steps [OF rtranclp_trans [OF u(3) v(2)] this] leaves_steps [OF u(3) fin [OF ru]]
      show ?thesis using u(1) v(1) by simp
    qed
    ultimately show ?thesis using False t leaves_steps [OF st] by (auto split: option.splits)
  qed
qed simp

text \<open>
  C36: A persona that is told to stop does, and leaves nothing behind. Whatever it was doing, waiting,
  answering in the middle of its chunks, or failing upstream, and whatever the others do meanwhile,
  once its context is done its driver returns after finitely many rounds, never having panicked, and
  its session is unregistered, not available and holds no request.
\<close>

theorem persona_driver_stops:
  assumes "rely w" and "reachable s" and "\<forall>j \<ge> k. expired w j" and "k < n"
  shows "\<exists>s'. runResponder parse net w c sid ch n s = Returned s' \<and> svc_steps s s' \<and>
    mget (responders s') sid = None \<and> sid \<notin> set (available s') \<and> mget (activeByRes s') sid = None"
proof -
  obtain t x where t: "MarkResponderAvailable (clk w 0 0) sid [False] (ext w 0 s) = Some (t, x)" "svc_steps s t"
    using world_calls(1) [OF assms(1,2)] by blast
  have "leaves t sid (driverLoop parse net w c sid ch n 1 t)"
    by (rule driverLoop_leaves [OF assms(1,3) reachable_steps [OF assms(2) t(2)]]) (use assms(4) in simp)
  from leaves_steps [OF t(2) this] t(1) show ?thesis
    by (simp add: runResponder_def leaves_def released_def)
qed

definition stopWorld :: world where
  "stopWorld = (alone (\<lambda>_. ent CHR ''y''))\<lparr>expired := (\<lambda>i. 3 \<le> i)\<rparr>"

lemma rely_stopWorld: "rely stopWorld"
  by (simp add: rely_def stopWorld_def alone_def)

theorem persona_driver_stops_witness:
  "\<exists>s'. runResponder toyParse (\<lambda>_. Response 200 demoLines False) stopWorld DefaultConfig bobSes 0 10 demo4 = Returned s' \<and>
     mget (responders s') bobSes = None"
proof -
  have "\<forall>j \<ge> 3. expired stopWorld j" by (simp add: stopWorld_def)
  from persona_driver_stops [OF rely_stopWorld reachable_demo4 this, of 10] show ?thesis by fastforce
qed

section \<open>An answer that may not be long enough\<close>

text \<open>
  A persona whose first chunk is refused keeps its request. The author may allow fewer characters
  than a chunk has; then the first \<open>SubmitFragment\<close> fails, and the \<open>Finish\<close> that is meant to release
  the persona fails too, as nothing has been committed. The service is unchanged, the persona holds
  the request, and \<open>answer\<close> reports success.
\<close>

theorem persona_keeps_refused_request:
  assumes "quiet w" and "\<forall>j. \<not> expired w j" and "reachable s"
    and "mget (activeByRes s) sid = Some rid" and "mget (requests s) rid = Some r"
    and "Status r = StatusAssigned" and "RequesterKind r = KindHuman" and "AsgRequestID a = rid"
    and "Complete parse net (PLLM c) (answerMessages (AsgMessages a)) = (full, None)" and "TrimSpace full \<noteq> []"
    and "chunkRunes full (ChunkRunes c) = piece # pieces" and "OutputLimit r < int (RuneCountInString piece)"
  shows "answer parse net w c sid a i s = Some (i + 3, s, True)"
proof -
  note inv = reachable_svc_inv [OF assms(3)]
  note rf = request_facts [OF svc_invD(1) [OF inv] assms(5)]
  have fr: "mget0 (fragments s) rid = []" using req_inv_held [OF rf(3)] assms(6) by (simp add: status_defs)
  have lim: "0 < OutputLimit r" using rf(3) by (simp add: req_inv_def)
  have ne: "piece \<noteq> []" using assms(12) lim by (auto simp: RuneCountInString_def)
  have unseen: "mget (mget0 (seqSeen s) rid) k = None" for k
    using svc_invD(1) [OF inv] fr by (cases "mget (mget0 (seqSeen s) rid) k") (auto simp: wf_service_def inv_fragments_def)
  have "SubmitFragment (ids w (Suc i)) (clk w (Suc i) 0) sid 1 piece s = fail s ErrOutputTooLarge"
    using assms(4-6,12) rf(2) ne unseen fr
    by (simp add: SubmitFragment_def Let_def mget0_def [of "activeByRes s"] isTerminal_def answerTextLocked_def)
  moreover have "\<exists>err. Finish e now sid s = fail s err" for e now
    using assms(4,5) rf(2) fr by (simp add: Finish_def mget0_def [of "activeByRes s"])
  ultimately have "sendChunks w sid (piece # pieces) (Suc i) 1 s = Some (Suc (Suc (Suc i)), s)"
    using assms(1,2) by (auto simp: finishAnswer_def split: option.splits) (metis option.inject prod.inject option.distinct(1))+
  then show ?thesis
    using assms(1,5,7-11) by (simp add: answer_def RequestSnapshot_def cloneRequest_def)
qed

theorem persona_keeps_refused_request_witness:
  "mget (activeByRes demoHeld) bobSes = Some reqA \<and>
   answer toyParse (\<lambda>_. Response 200 longLines False) (alone (\<lambda>_. ent CHR ''y'')) DefaultConfig bobSes
     \<lparr>AsgRequestID = reqA, AsgRequesterKind = KindHuman, AsgMessages = question, AsgCreatedAt = 300\<rparr> 1 demoHeld =
   Some (4, demoHeld, True)"
proof -
  let ?a = "\<lparr>AsgRequestID = reqA, AsgRequesterKind = KindHuman, AsgMessages = question, AsgCreatedAt = 300\<rparr>"
  have "case mget (requests demoHeld) reqA of None \<Rightarrow> False
    | Some r \<Rightarrow> Status r = StatusAssigned \<and> RequesterKind r = KindHuman \<and> OutputLimit r = 3" by code_simp
  then obtain r where r: "mget (requests demoHeld) reqA = Some r" "Status r = StatusAssigned"
    "RequesterKind r = KindHuman" "OutputLimit r = 3" by (auto split: option.splits)
  have act: "mget (activeByRes demoHeld) bobSes = Some reqA" by code_simp
  have c: "Complete toyParse (\<lambda>_. Response 200 longLines False) (PLLM DefaultConfig) (answerMessages (AsgMessages ?a)) =
      (''hello you'', None)" "TrimSpace ''hello you'' \<noteq> []"
    "chunkRunes ''hello you'' (ChunkRunes DefaultConfig) = [''hello '', ''you'']" "RuneCountInString ''hello '' = 6"
    by code_simp+
  have "answer toyParse (\<lambda>_. Response 200 longLines False) (alone (\<lambda>_. ent CHR ''y'')) DefaultConfig bobSes ?a 1 demoHeld =
      Some (1 + 3, demoHeld, True)"
    by (rule persona_keeps_refused_request [OF quiet_alone _ reachable_demoHeld act r(1-3) _ c(1-3)])
      (use r(4) c(4) in \<open>simp_all add: alone_def\<close>)
  then show ?thesis using act by simp
qed

section \<open>The pool\<close>

lemma startResponder_pool:
  "startResponder w i m s = Some (m', s', st) \<Longrightarrow> length (pool m') \<le> Suc (length (pool m))"
  by (auto simp: startResponder_def nextName_def Let_def split: Option.bind_splits sum.splits prod.splits if_splits)

lemma startResponders_pool:
  "startResponders n w i m s = Some (m', s', st) \<Longrightarrow> length (pool m') \<le> length (pool m) + n"
proof (induction n arbitrary: i m s st)
  case (Suc n)
  obtain m1 s1 st1 st2 where st: "startResponder w i m s = Some (m1, s1, st1)"
    "startResponders n w (i + 2) m1 s1 = Some (m', s', st2)"
    using Suc.prems by (auto split: Option.bind_splits)
  show ?case using startResponder_pool [OF st(1)] Suc.IH [OF st(2)] by linarith
qed simp

lemma length_filter_trim:
  assumes "distinct xs" and "distinct ord" and "set ord = set xs"
  shows "length (filter (\<lambda>x. x \<notin> set (take k ord)) xs) = length xs - k"
proof -
  let ?t = "set (take k ord)"
  have sub: "?t \<subseteq> set xs" using set_take_subset assms(3) by fastforce
  have "length (filter (\<lambda>x. x \<notin> ?t) xs) = card (set xs - ?t)"
    using assms(1) by (simp add: distinct_card [symmetric] set_diff_eq)
  also have "\<dots> = length xs - card ?t"
    using sub assms(1) by (simp add: card_Diff_subset distinct_card)
  also have "card ?t = min (length xs) k"
    using assms distinct_card by (metis distinct_take length_take)
  finally show ?thesis by simp
qed

lemma ensureResponders_pool:
  assumes "distinct (pool m)" and "distinct ord" and "set ord = set (pool m)"
    and "ensureResponders ord w i want m s = Some (m', s', st)"
  shows "int (length (pool m')) \<le> max 0 want"
proof -
  have len: "length ord = length (pool m)" using assms(1-3) by (metis distinct_card)
  let ?k = "nat (int (length (pool m)) - want)"
  have "length (pool m') \<le> length (filter (\<lambda>sid. sid \<notin> set (take ?k ord)) (pool m)) +
      nat (want - (int (length (pool m)) - int (length (take ?k ord))))"
    using startResponders_pool assms(4) by (fastforce simp: ensureResponders_def Let_def)
  then show ?thesis unfolding length_filter_trim [OF assms(1-3)] using len by (simp add: min_def split: if_splits)
qed

text \<open>
  C37: The pool never outnumbers the humans. After a tick either every driver has been told to stop
  (this instance does not lead, or nobody else is online), or there are at most as many personas as
  other responders were online at the tick, and at most the configured number.
\<close>

theorem persona_pool_bounded:
  assumes "distinct (pool m)" and "distinct ord" and "set ord = set (pool m)"
    and "tick ord w m s = Some (m', s', started, post)"
  shows "set (pool m') \<subseteq> set (cancelled m') \<and> started = [] \<and> \<not> post \<or>
    1 \<le> int (OnlineResponderCount (ext w 1 (ext w 0 s))) - int (length (pool m)) \<and>
    int (length (pool m')) \<le> max 0 (min (MaxResponders (cfg m))
      (int (OnlineResponderCount (ext w 1 (ext w 0 s))) - int (length (pool m))))"
proof -
  define humans where "humans = int (OnlineResponderCount (ext w 1 (ext w 0 s))) - int (length (pool m))"
  let ?want = "if humans > MaxResponders (cfg m) then MaxResponders (cfg m) else humans"
  consider "m' = reapAll m \<and> started = [] \<and> \<not> post"
    | m1 s2 where "1 \<le> humans" "ensureResponders ord w 2 ?want m (ext w 1 (ext w 0 s)) = Some (m1, s2, started)"
        "pool m' = pool m1"
    using assms(4)
    by (auto simp: tick_def Let_def humans_def [symmetric] beginPosting_def simp del: One_nat_def
        split: if_splits Option.bind_splits prod.splits)
  then show ?thesis
  proof cases
    case 2
    from ensureResponders_pool [OF assms(1-3) 2(2)] have "int (length (pool m')) \<le> max 0 (min (MaxResponders (cfg m)) humans)"
      using 2(3) by (simp add: min_def max_def split: if_splits)
    then show ?thesis using 2(1) unfolding humans_def by blast
  qed (simp add: reapAll_def)
qed

definition demoManager :: Manager where
  "demoManager = NewManager DefaultConfig []"

theorem persona_pool_bounded_witness:
  "\<exists>m' s' started post. tick [] stopWorld demoManager demo5 = Some (m', s', started, post) \<and>
     length (pool m') = 1 \<and> int (length (pool m')) \<le> max 0 (min 2 1)"
proof -
  let ?x = "tick [] stopWorld demoManager demo5"
  have "case ?x of Some (m', _, started, _) \<Rightarrow> length (pool m') = 1 \<and> started \<noteq> [] | None \<Rightarrow> False"
    "OnlineResponderCount demo5 = 1" "MaxResponders (cfg demoManager) = 2"
    "distinct (pool demoManager)" "pool demoManager = []"
    by code_simp+
  moreover from this obtain m' s' started post where x: "?x = Some (m', s', started, post)" "length (pool m') = 1" "started \<noteq> []"
    by (auto split: option.splits)
  moreover have "ext stopWorld i u = u" for i u by (simp add: stopWorld_def alone_def)
  ultimately show ?thesis
    using persona_pool_bounded [of demoManager "[]" stopWorld demo5 m' s' started post] by auto
qed

section \<open>The number of conversations\<close>

text \<open>
  The posting goroutines on one manager: \<open>manages c m a k\<close> says that \<open>m\<close> can be its state while \<open>a\<close>
  posters are still asking and \<open>k\<close> follow up a conversation. A poster begins when a tick's
  \<open>beginPosting\<close> lets it, then posts or gives up, and a conversation ends at any time.
\<close>

inductive manages :: "personaConfig \<Rightarrow> Manager \<Rightarrow> nat \<Rightarrow> nat \<Rightarrow> bool" for c where
  start: "manages c (NewManager c bytes) 0 0"
| begins: "manages c m a k \<Longrightarrow> beginPosting m = (m', True) \<Longrightarrow> manages c m' (Suc a) k"
| posts: "manages c m (Suc a) k \<Longrightarrow> manages c (posted m) a (Suc k)"
| gives_up: "manages c m (Suc a) k \<Longrightarrow> manages c (posterEnds False m) a k"
| is_over: "manages c m a (Suc k) \<Longrightarrow> manages c (posterEnds True m) a k"

lemma manages_counts: "manages c m a k \<Longrightarrow> cfg m = c \<and> activeConversations m = int k"
  by (induction rule: manages.induct)
    (auto simp: NewManager_def beginPosting_def posted_def posterEnds_def split: if_splits)

lemma manages_begins:
  assumes "manages c m a k" and "\<not> posting m" and "int k < TargetQueue c"
  shows "manages c (m\<lparr>posting := True\<rparr>) (Suc a) k"
  by (rule manages.begins [OF assms(1)]) (use assms manages_counts [OF assms(1)] in \<open>simp add: beginPosting_def\<close>)

lemma manages_posts: "manages c m a k \<Longrightarrow> \<exists>m'. manages c m' 0 (a + k)"
  by (induction a arbitrary: m k) (use manages.posts in fastforce)+

lemma manages_piles_up:
  assumes "2 \<le> TargetQueue c"
  shows "\<exists>m. manages c m a 1 \<and> \<not> posting m"
proof (induction a)
  case 0
  have "manages c ((NewManager c [])\<lparr>posting := True\<rparr>) 1 0"
    using manages_begins [OF manages.start] assms by (simp add: NewManager_def)
  then show ?case using manages.posts by (fastforce simp: posted_def)
next
  case (Suc a)
  then obtain m where m: "manages c m a 1" "\<not> posting m" by blast
  have "manages c (m\<lparr>posting := True\<rparr>) (Suc a) 1" using manages_begins [OF m] assms by simp
  then have over: "manages c (posterEnds True (m\<lparr>posting := True\<rparr>)) (Suc a) 0" by (simp add: manages.is_over)
  let ?m = "posterEnds True (m\<lparr>posting := True\<rparr>)"
  have "manages c (?m\<lparr>posting := True\<rparr>) (Suc (Suc a)) 0"
    by (rule manages_begins [OF over]) (use assms in \<open>simp_all add: posterEnds_def\<close>)
  from manages.posts [OF this] show ?case by (auto simp: posted_def)
qed

text \<open>
  The cap on conversations does not hold. A conversation that ends clears the flag of whoever is
  posting at that moment, so the next tick starts a second poster beside it; repeated, any number of
  posters pile up, each of which then opens a conversation. As soon as more than one conversation is
  allowed at all, every number of them can be reached.
\<close>

theorem persona_cap_exceeded:
  assumes "2 \<le> TargetQueue c"
  shows "\<exists>m. manages c m 0 n \<and> activeConversations m = int n"
proof (cases n)
  case 0
  then show ?thesis using manages.start manages_counts by blast
next
  case (Suc k)
  obtain m where "manages c m k 1" using manages_piles_up [OF assms] by blast
  then show ?thesis using manages_posts manages_counts Suc by (metis Suc_eq_plus1)
qed

theorem persona_cap_exceeded_witness:
  "\<exists>m. manages DefaultConfig m 0 50 \<and> activeConversations m = 50"
  using persona_cap_exceeded [of DefaultConfig 50] by (simp add: DefaultConfig_def)

end
