(* ===== verification/Redis.thy ===== *)
theory Redis
  imports GoStrings
begin

text \<open>
  The Redis server as the Postgres/Redis backend uses it. Redis is not part of the program, so its
  commands are a parameter: a record of functions on a store of any type. What the program relies
  on is the locale \<open>redis_server\<close>: the effect of every command on what can be read back, as the
  command reference documents it. The keys of this backend never hold two types, so the error for
  a command on a key of the wrong type does not occur; the expiry of a key with a time to live is
  something that happens between two commands.
\<close>

record 'r redis =
  LRANGE :: "string \<Rightarrow> 'r \<Rightarrow> string list"
  LPOP :: "string \<Rightarrow> 'r \<Rightarrow> 'r \<times> string option"
  LPUSH :: "string \<Rightarrow> string \<Rightarrow> 'r \<Rightarrow> 'r"
  RPUSH :: "string \<Rightarrow> string \<Rightarrow> 'r \<Rightarrow> 'r"
  LREM :: "string \<Rightarrow> nat \<Rightarrow> string \<Rightarrow> 'r \<Rightarrow> 'r"
  ZSCORE :: "string \<Rightarrow> string \<Rightarrow> 'r \<Rightarrow> int option"
  ZADD :: "string \<Rightarrow> int \<Rightarrow> string \<Rightarrow> 'r \<Rightarrow> 'r"
  ZREM :: "string \<Rightarrow> string \<Rightarrow> 'r \<Rightarrow> 'r"
  ZRANGEBYSCORE :: "string \<Rightarrow> int \<Rightarrow> 'r \<Rightarrow> string list"
  HGET :: "string \<Rightarrow> string \<Rightarrow> 'r \<Rightarrow> string option"
  HSET :: "string \<Rightarrow> string \<Rightarrow> string \<Rightarrow> 'r \<Rightarrow> 'r"
  HDEL :: "string \<Rightarrow> string \<Rightarrow> 'r \<Rightarrow> 'r"
  GET :: "string \<Rightarrow> 'r \<Rightarrow> string option"
  SET :: "string \<Rightarrow> string \<Rightarrow> int \<Rightarrow> 'r \<Rightarrow> 'r"
  DEL :: "string list \<Rightarrow> 'r \<Rightarrow> 'r"

text \<open>
  A command changes one of the four kinds of values and leaves the other three alone: \<open>same_lists\<close>
  and its companions say which. \<open>LREM\<close> with count 0 removes every occurrence, with count 1 the first
  (the only counts the program uses); \<open>SET\<close> with time to live 0 is the command without \<open>EX\<close>.
\<close>

definition same_lists :: "'r redis \<Rightarrow> 'r \<Rightarrow> 'r \<Rightarrow> bool" where
  "same_lists R r r' \<longleftrightarrow> (\<forall>k. LRANGE R k r' = LRANGE R k r)"

definition same_scores :: "'r redis \<Rightarrow> 'r \<Rightarrow> 'r \<Rightarrow> bool" where
  "same_scores R r r' \<longleftrightarrow> (\<forall>k x. ZSCORE R k x r' = ZSCORE R k x r)"

definition same_hashes :: "'r redis \<Rightarrow> 'r \<Rightarrow> 'r \<Rightarrow> bool" where
  "same_hashes R r r' \<longleftrightarrow> (\<forall>k x. HGET R k x r' = HGET R k x r)"

definition same_strings :: "'r redis \<Rightarrow> 'r \<Rightarrow> 'r \<Rightarrow> bool" where
  "same_strings R r r' \<longleftrightarrow> (\<forall>k. GET R k r' = GET R k r)"

definition only_lists :: "'r redis \<Rightarrow> 'r \<Rightarrow> 'r \<Rightarrow> bool" where
  "only_lists R r r' \<longleftrightarrow> same_scores R r r' \<and> same_hashes R r r' \<and> same_strings R r r'"

definition only_scores :: "'r redis \<Rightarrow> 'r \<Rightarrow> 'r \<Rightarrow> bool" where
  "only_scores R r r' \<longleftrightarrow> same_lists R r r' \<and> same_hashes R r r' \<and> same_strings R r r'"

definition only_hashes :: "'r redis \<Rightarrow> 'r \<Rightarrow> 'r \<Rightarrow> bool" where
  "only_hashes R r r' \<longleftrightarrow> same_lists R r r' \<and> same_scores R r r' \<and> same_strings R r r'"

definition only_strings :: "'r redis \<Rightarrow> 'r \<Rightarrow> 'r \<Rightarrow> bool" where
  "only_strings R r r' \<longleftrightarrow> same_lists R r r' \<and> same_scores R r r' \<and> same_hashes R r r'"

lemmas only_defs = only_lists_def only_scores_def only_hashes_def only_strings_def
  same_lists_def same_scores_def same_hashes_def same_strings_def

locale redis_server =
  fixes R :: "'r redis"
  assumes LPOP_value: "snd (LPOP R k r) = (case LRANGE R k r of [] \<Rightarrow> None | x # _ \<Rightarrow> Some x)"
    and LPOP_list: "LRANGE R k' (fst (LPOP R k r)) = (if k' = k then tl (LRANGE R k r) else LRANGE R k' r)"
    and LPOP_only: "only_lists R r (fst (LPOP R k r))"
    and LPUSH_list: "LRANGE R k' (LPUSH R k x r) = (if k' = k then x # LRANGE R k r else LRANGE R k' r)"
    and LPUSH_only: "only_lists R r (LPUSH R k x r)"
    and RPUSH_list: "LRANGE R k' (RPUSH R k x r) = (if k' = k then LRANGE R k r @ [x] else LRANGE R k' r)"
    and RPUSH_only: "only_lists R r (RPUSH R k x r)"
    and LREM_all: "LRANGE R k' (LREM R k 0 x r) =
      (if k' = k then filter (\<lambda>y. y \<noteq> x) (LRANGE R k r) else LRANGE R k' r)"
    and LREM_first: "LRANGE R k' (LREM R k 1 x r) =
      (if k' = k then remove1 x (LRANGE R k r) else LRANGE R k' r)"
    and LREM_only: "only_lists R r (LREM R k n x r)"
    and ZADD_score: "ZSCORE R k' x' (ZADD R k z x r) = (if k' = k \<and> x' = x then Some z else ZSCORE R k' x' r)"
    and ZADD_only: "only_scores R r (ZADD R k z x r)"
    and ZREM_score: "ZSCORE R k' x' (ZREM R k x r) = (if k' = k \<and> x' = x then None else ZSCORE R k' x' r)"
    and ZREM_only: "only_scores R r (ZREM R k x r)"
    and ZRANGE_members: "set (ZRANGEBYSCORE R k m r) = {x. \<exists>z. ZSCORE R k x r = Some z \<and> m \<le> z}"
    and ZRANGE_distinct: "distinct (ZRANGEBYSCORE R k m r)"
    and HSET_field: "HGET R k' x' (HSET R k x v r) = (if k' = k \<and> x' = x then Some v else HGET R k' x' r)"
    and HSET_only: "only_hashes R r (HSET R k x v r)"
    and HDEL_field: "HGET R k' x' (HDEL R k x r) = (if k' = k \<and> x' = x then None else HGET R k' x' r)"
    and HDEL_only: "only_hashes R r (HDEL R k x r)"
    and SET_value: "GET R k' (SET R k v ttl r) = (if k' = k then Some v else GET R k' r)"
    and SET_only: "only_strings R r (SET R k v ttl r)"
    and DEL_value: "GET R k' (DEL R ks r) = (if k' \<in> set ks then None else GET R k' r)"
    and DEL_only: "only_strings R r (DEL R ks r)"
begin

lemmas list_reads [simp] = LPOP_value LPOP_list LPUSH_list RPUSH_list LREM_all LREM_first LREM_first [unfolded One_nat_def]
lemmas value_reads [simp] = ZADD_score ZREM_score HSET_field HDEL_field SET_value DEL_value

lemma list_commands_keep [simp]:
  "ZSCORE R k x (fst (LPOP R k' r)) = ZSCORE R k x r" "HGET R k x (fst (LPOP R k' r)) = HGET R k x r"
  "GET R k (fst (LPOP R k' r)) = GET R k r"
  "ZSCORE R k x (LPUSH R k' v r) = ZSCORE R k x r" "HGET R k x (LPUSH R k' v r) = HGET R k x r"
  "GET R k (LPUSH R k' v r) = GET R k r"
  "ZSCORE R k x (RPUSH R k' v r) = ZSCORE R k x r" "HGET R k x (RPUSH R k' v r) = HGET R k x r"
  "GET R k (RPUSH R k' v r) = GET R k r"
  "ZSCORE R k x (LREM R k' n v r) = ZSCORE R k x r" "HGET R k x (LREM R k' n v r) = HGET R k x r"
  "GET R k (LREM R k' n v r) = GET R k r"
  using LPOP_only LPUSH_only RPUSH_only LREM_only by (simp_all add: only_defs)

lemma score_commands_keep [simp]:
  "LRANGE R k (ZADD R k' z v r) = LRANGE R k r" "HGET R k x (ZADD R k' z v r) = HGET R k x r"
  "GET R k (ZADD R k' z v r) = GET R k r"
  "LRANGE R k (ZREM R k' v r) = LRANGE R k r" "HGET R k x (ZREM R k' v r) = HGET R k x r"
  "GET R k (ZREM R k' v r) = GET R k r"
  using ZADD_only ZREM_only by (simp_all add: only_defs)

lemma hash_commands_keep [simp]:
  "LRANGE R k (HSET R k' f v r) = LRANGE R k r" "ZSCORE R k x (HSET R k' f v r) = ZSCORE R k x r"
  "GET R k (HSET R k' f v r) = GET R k r"
  "LRANGE R k (HDEL R k' f r) = LRANGE R k r" "ZSCORE R k x (HDEL R k' f r) = ZSCORE R k x r"
  "GET R k (HDEL R k' f r) = GET R k r"
  using HSET_only HDEL_only by (simp_all add: only_defs)

lemma string_commands_keep [simp]:
  "LRANGE R k (SET R k' v ttl r) = LRANGE R k r" "ZSCORE R k x (SET R k' v ttl r) = ZSCORE R k x r"
  "HGET R k x (SET R k' v ttl r) = HGET R k x r"
  "LRANGE R k (DEL R ks r) = LRANGE R k r" "ZSCORE R k x (DEL R ks r) = ZSCORE R k x r"
  "HGET R k x (DEL R ks r) = HGET R k x r"
  using SET_only DEL_only by (simp_all add: only_defs)

end

section \<open>A server in memory\<close>

text \<open>The documented behaviour can be had: a store of four maps, for concrete runs.\<close>

record memStore =
  mLists :: "(string, string list) gomap"
  mScores :: "(string \<times> string, int) gomap"
  mHashes :: "(string \<times> string, string) gomap"
  mStrings :: "(string, string) gomap"

definition emptyStore :: memStore where
  "emptyStore = \<lparr>mLists = [], mScores = [], mHashes = [], mStrings = []\<rparr>"

definition setList :: "string \<Rightarrow> string list \<Rightarrow> memStore \<Rightarrow> memStore" where
  "setList k xs r = r\<lparr>mLists := mput k xs (mLists r)\<rparr>"

definition memRedis :: "memStore redis" where
  "memRedis = \<lparr>
     LRANGE = \<lambda>k r. mget0 (mLists r) k,
     LPOP = \<lambda>k r. (case mget0 (mLists r) k of [] \<Rightarrow> (r, None) | x # xs \<Rightarrow> (setList k xs r, Some x)),
     LPUSH = \<lambda>k x r. setList k (x # mget0 (mLists r) k) r,
     RPUSH = \<lambda>k x r. setList k (mget0 (mLists r) k @ [x]) r,
     LREM = \<lambda>k n x r. setList k ((if n = 0 then filter (\<lambda>y. y \<noteq> x) else remove1 x) (mget0 (mLists r) k)) r,
     ZSCORE = \<lambda>k x r. mget (mScores r) (k, x),
     ZADD = \<lambda>k z x r. r\<lparr>mScores := mput (k, x) z (mScores r)\<rparr>,
     ZREM = \<lambda>k x r. r\<lparr>mScores := mdel (k, x) (mScores r)\<rparr>,
     ZRANGEBYSCORE = \<lambda>k m r. filter (\<lambda>x. case mget (mScores r) (k, x) of None \<Rightarrow> False | Some z \<Rightarrow> m \<le> z)
       (remdups (map snd (filter (\<lambda>p. fst p = k) (mkeys (mScores r))))),
     HGET = \<lambda>k x r. mget (mHashes r) (k, x),
     HSET = \<lambda>k x v r. r\<lparr>mHashes := mput (k, x) v (mHashes r)\<rparr>,
     HDEL = \<lambda>k x r. r\<lparr>mHashes := mdel (k, x) (mHashes r)\<rparr>,
     GET = \<lambda>k r. mget (mStrings r) k,
     SET = \<lambda>k v ttl r. r\<lparr>mStrings := mput k v (mStrings r)\<rparr>,
     DEL = \<lambda>ks r. r\<lparr>mStrings := fold mdel ks (mStrings r)\<rparr>\<rparr>"

lemma mget_fold_mdel: "mget (fold mdel ks m) k = (if k \<in> set ks then None else mget m k)"
  by (induction ks arbitrary: m) auto

interpretation mem: redis_server memRedis
  by unfold_locales
    (auto simp: memRedis_def only_defs setList_def mget_fold_mdel mget0_def [symmetric] filter_id_conv
      split: list.split option.splits, auto simp: mget_None_iff image_iff dest: mget_in_keys split: option.splits)

end
