(* ===== verification/Coordinator.thy ===== *)
theory Coordinator
  imports Redis CoreOps
begin

text \<open>
  The coordination of the Postgres/Redis backend (\<open>internal/pgredis/coordinator.go\<close>, the key function
  of \<open>pgredis.go\<close> and the lease script of \<open>persona.go\<close>): queue, presence, availability, routing keys
  and locks as Redis commands, and the two Lua scripts. A function here is what a command does when
  it reaches the server; whether it does is decided where it is called.
\<close>

section \<open>Keys\<close>

definition keyPrefix :: string where "keyPrefix = ''ds:''"

fun joinColon :: "string list \<Rightarrow> string" where
  "joinColon [] = []"
| "joinColon [p] = p"
| "joinColon (p # ps) = p @ '':'' @ joinColon ps"

definition key :: "string list \<Rightarrow> string" where
  "key parts = keyPrefix @ joinColon parts"

definition presenceTTL :: duration where "presenceTTL = 15 * second"
definition assignLockTTL :: duration where "assignLockTTL = 35 * second"
definition heartbeatInterval :: duration where "heartbeatInterval = 5 * second"

definition queueKey :: string where "queueKey = key [''queue'']"
definition availKey :: string where "availKey = key [''avail'']"
definition presenceKey :: string where "presenceKey = key [''presence'']"
definition lockKey :: "string \<Rightarrow> string" where "lockKey reqID = key [''lock'', reqID]"
definition responderAIKey :: string where "responderAIKey = key [''responder'', ''accept-ai'']"
definition responderKindKey :: string where "responderKindKey = key [''responder'', ''kind'']"
definition requestKindKey :: "string \<Rightarrow> string" where
  "requestKindKey reqID = key [''request'', reqID, ''kind'']"
definition requestAIAnswerKey :: "string \<Rightarrow> string" where
  "requestAIAnswerKey reqID = key [''request'', reqID, ''allow-ai-answer'']"
definition requestPreferredResponderKey :: "string \<Rightarrow> string" where
  "requestPreferredResponderKey reqID = key [''request'', reqID, ''preferred-responder'']"

definition UnixMilli :: "time \<Rightarrow> int" where
  "UnixMilli t = t div millisecond - 62135596800000"

definition minFresh :: "time \<Rightarrow> int" where
  "minFresh now = UnixMilli (now - presenceTTL)"

section \<open>Commands\<close>

definition setRequestRouting :: "'r redis \<Rightarrow> string \<Rightarrow> string \<Rightarrow> bool \<Rightarrow> string \<Rightarrow> 'r \<Rightarrow> 'r" where
  "setRequestRouting R reqID requesterKind allowAIAnswers preferred r =
     SET R (requestPreferredResponderKey reqID) preferred 0
       (SET R (requestAIAnswerKey reqID) (if allowAIAnswers then ''1'' else ''0'') 0
         (SET R (requestKindKey reqID) requesterKind 0 r))"

definition clearRequestRouting :: "'r redis \<Rightarrow> string \<Rightarrow> 'r \<Rightarrow> 'r" where
  "clearRequestRouting R reqID r =
     DEL R [requestKindKey reqID, requestAIAnswerKey reqID, requestPreferredResponderKey reqID] r"

definition enqueueRequest :: "'r redis \<Rightarrow> string \<Rightarrow> 'r \<Rightarrow> 'r" where
  "enqueueRequest R reqID r = RPUSH R queueKey reqID r"

definition removeQueued :: "'r redis \<Rightarrow> string \<Rightarrow> 'r \<Rightarrow> 'r" where
  "removeQueued R reqID r = LREM R queueKey 0 reqID r"

definition heartbeat :: "'r redis \<Rightarrow> time \<Rightarrow> string \<Rightarrow> 'r \<Rightarrow> 'r" where
  "heartbeat R now sid r = ZADD R presenceKey (UnixMilli now) sid r"

definition dropPresence :: "'r redis \<Rightarrow> string \<Rightarrow> 'r \<Rightarrow> 'r" where
  "dropPresence R sid r = ZREM R presenceKey sid r"

text \<open>\<open>ZCount\<close> counts what \<open>ZRangeByScore\<close> lists.\<close>

definition onlineResponders :: "'r redis \<Rightarrow> time \<Rightarrow> 'r \<Rightarrow> nat" where
  "onlineResponders R now r = length (ZRANGEBYSCORE R presenceKey (minFresh now) r)"

definition addAvailable :: "'r redis \<Rightarrow> string \<Rightarrow> 'r \<Rightarrow> 'r" where
  "addAvailable R sid r = RPUSH R availKey sid (LREM R availKey 0 sid r)"

definition removeAvailable :: "'r redis \<Rightarrow> string \<Rightarrow> 'r \<Rightarrow> 'r" where
  "removeAvailable R sid r = LREM R availKey 0 sid r"

definition releaseLock :: "'r redis \<Rightarrow> string \<Rightarrow> 'r \<Rightarrow> 'r" where
  "releaseLock R reqID r = DEL R [lockKey reqID] r"

section \<open>The assignment script\<close>

record scriptArgs =
  kAvail :: string
  kQueue :: string
  kPresence :: string
  kAccept :: string
  kKind :: string
  aMinFresh :: int
  aLockTTL :: int
  aLockPrefix :: string
  aReqPrefix :: string
  aKindSuffix :: string
  aAllowSuffix :: string
  aPrefSuffix :: string

definition orElse :: "string option \<Rightarrow> string \<Rightarrow> string" where
  "orElse v dflt = (case v of None \<Rightarrow> dflt | Some x \<Rightarrow> x)"

fun restoreSkipped :: "'r redis \<Rightarrow> string \<Rightarrow> string list \<Rightarrow> 'r \<Rightarrow> 'r" where
  "restoreSkipped R k [] r = r"
| "restoreSkipped R k (sid # skipped) r = LPUSH R k sid (restoreSkipped R k skipped r)"

text \<open>The body of the script's inner loop.\<close>

definition scriptCompatible :: "'r redis \<Rightarrow> scriptArgs \<Rightarrow> 'r \<Rightarrow> string \<Rightarrow> string \<Rightarrow> bool" where
  "scriptCompatible R a r sid reqid =
     (let acceptai = orElse (HGET R (kAccept a) sid r) ''1'';
          responderkind = orElse (HGET R (kKind a) sid r) ''human'';
          requestkind = orElse (GET R (aReqPrefix a @ reqid @ aKindSuffix a) r) ''human'';
          allowaianswer = orElse (GET R (aReqPrefix a @ reqid @ aAllowSuffix a) r) ''1'';
          preferred = orElse (GET R (aReqPrefix a @ reqid @ aPrefSuffix a) r) []
      in if preferred \<noteq> [] \<and> preferred \<noteq> sid then False
         else if responderkind = ''ai_persona'' \<and> allowaianswer \<noteq> ''1'' then False
         else if requestkind = ''ai_persona'' \<and> (acceptai \<noteq> ''1'' \<or> responderkind = ''ai_persona'') then False
         else True)"

partial_function (option) assignLoop ::
  "'r redis \<Rightarrow> scriptArgs \<Rightarrow> string list \<Rightarrow> 'r \<Rightarrow> ('r \<times> (string \<times> string) option) option"
where
  "assignLoop R a skipped r =
     (case LPOP R (kAvail a) r of
        (r1, None) \<Rightarrow> Some (restoreSkipped R (kAvail a) skipped r1, None)
      | (r1, Some sid) \<Rightarrow>
          if (case ZSCORE R (kPresence a) sid r1 of None \<Rightarrow> False | Some score \<Rightarrow> score \<ge> aMinFresh a)
          then (case find (scriptCompatible R a r1 sid) (LRANGE R (kQueue a) r1) of
                  Some reqid \<Rightarrow>
                    Some (SET R (aLockPrefix a @ reqid) sid (aLockTTL a)
                           (restoreSkipped R (kAvail a) skipped (LREM R (kQueue a) 1 reqid r1)),
                          Some (reqid, sid))
                | None \<Rightarrow> assignLoop R a (skipped @ [sid]) r1)
          else assignLoop R a skipped (HDEL R (kKind a) sid (HDEL R (kAccept a) sid r1)))"

declare assignLoop.simps [code]

definition assignArgs :: "time \<Rightarrow> scriptArgs" where
  "assignArgs now =
     \<lparr>kAvail = availKey, kQueue = queueKey, kPresence = presenceKey, kAccept = responderAIKey,
      kKind = responderKindKey, aMinFresh = minFresh now, aLockTTL = assignLockTTL div second,
      aLockPrefix = key [''lock''] @ '':'', aReqPrefix = key [''request''] @ '':'', aKindSuffix = '':kind'',
      aAllowSuffix = '':allow-ai-answer'', aPrefSuffix = '':preferred-responder''\<rparr>"

definition assignNext :: "'r redis \<Rightarrow> time \<Rightarrow> 'r \<Rightarrow> ('r \<times> (string \<times> string) option) option" where
  "assignNext R now r = assignLoop R (assignArgs now) [] r"

section \<open>The lease script\<close>

definition leaderKey :: string where "leaderKey = key [''persona'', ''leader'']"

definition personaLease :: "'r redis \<Rightarrow> string \<Rightarrow> int \<Rightarrow> 'r \<Rightarrow> 'r \<times> bool" where
  "personaLease R podID ttl r =
     (case GET R leaderKey r of
        None \<Rightarrow> (SET R leaderKey podID ttl r, True)
      | Some cur \<Rightarrow> if cur = podID then (SET R leaderKey podID ttl r, True) else (r, False))"

end
