(* ===== verification/CoordProps.thy ===== *)
theory CoordProps
  imports Coordinator CoreProps Scenario
begin

text \<open>
  What the coordination scripts do: the assignment script pairs somebody exactly when the in-memory
  matcher would, and hands a request to one responder; the lease has one owner.
\<close>

section \<open>The assignment script\<close>

definition freshIn :: "'r redis \<Rightarrow> scriptArgs \<Rightarrow> 'r \<Rightarrow> string \<Rightarrow> bool" where
  "freshIn R a r sid \<longleftrightarrow> (case ZSCORE R (kPresence a) sid r of None \<Rightarrow> False | Some score \<Rightarrow> score \<ge> aMinFresh a)"

text \<open>What the script leaves: who waits, what is queued, and who has the request.\<close>

definition paired :: "'r redis \<Rightarrow> scriptArgs \<Rightarrow> string list \<Rightarrow> 'r \<Rightarrow> 'r \<Rightarrow> (string \<times> string) option \<Rightarrow> bool" where
  "paired R a skipped r r' res \<longleftrightarrow>
     (let avail = LRANGE R (kAvail a) r; queued = LRANGE R (kQueue a) r; f = freshIn R a r;
          idle = (\<lambda>x. \<forall>q \<in> set queued. \<not> scriptCompatible R a r x q)
      in case res of
        None \<Rightarrow> (\<forall>x \<in> set avail. f x \<longrightarrow> idle x) \<and> LRANGE R (kQueue a) r' = queued \<and>
          LRANGE R (kAvail a) r' = skipped @ filter f avail
      | Some (q, sid) \<Rightarrow> (\<exists>pre post. avail = pre @ sid # post \<and> f sid \<and>
          find (scriptCompatible R a r sid) queued = Some q \<and> (\<forall>x \<in> set pre. f x \<longrightarrow> idle x) \<and>
          LRANGE R (kQueue a) r' = remove1 q queued \<and> LRANGE R (kAvail a) r' = skipped @ filter f pre @ post \<and>
          GET R (aLockPrefix a @ q) r' = Some sid)) \<and>
     same_scores R r r'"

lemma pairedI:
  assumes "LRANGE R (kAvail a) r = pre @ sid # post" and "freshIn R a r sid"
    and "find (scriptCompatible R a r sid) (LRANGE R (kQueue a) r) = Some q"
    and "\<forall>x \<in> set pre. freshIn R a r x \<longrightarrow> (\<forall>q \<in> set (LRANGE R (kQueue a) r). \<not> scriptCompatible R a r x q)"
    and "LRANGE R (kQueue a) r' = remove1 q (LRANGE R (kQueue a) r)"
    and "LRANGE R (kAvail a) r' = skipped @ filter (freshIn R a r) pre @ post"
    and "GET R (aLockPrefix a @ q) r' = Some sid" and "same_scores R r r'"
  shows "paired R a skipped r r' (Some (q, sid))"
  unfolding paired_def Let_def using assms by auto

context redis_server
begin

lemma restore_reads [simp]:
  "LRANGE R k' (restoreSkipped R k xs r) = (if k' = k then xs @ LRANGE R k r else LRANGE R k' r)"
  "ZSCORE R k' x (restoreSkipped R k xs r) = ZSCORE R k' x r"
  "HGET R k' x (restoreSkipped R k xs r) = HGET R k' x r"
  "GET R k' (restoreSkipped R k xs r) = GET R k' r"
  by (induction xs) auto

lemma script_reads:
  assumes "\<And>k. HGET R k sid r' = HGET R k sid r" and "\<And>k. GET R k r' = GET R k r"
  shows "scriptCompatible R a r' sid = scriptCompatible R a r sid"
  using assms by (auto simp: scriptCompatible_def fun_eq_iff)

lemma find_idle: "find P xs = None \<longleftrightarrow> (\<forall>x \<in> set xs. \<not> P x)"
  by (induction xs) auto

lemma paired_cons:
  assumes "LRANGE R (kAvail a) r = sid # avail" and "LRANGE R (kAvail a) r2 = avail"
    and "LRANGE R (kQueue a) r2 = LRANGE R (kQueue a) r" and "\<And>k x. ZSCORE R k x r2 = ZSCORE R k x r"
    and "\<And>y. freshIn R a r y \<Longrightarrow> scriptCompatible R a r2 y = scriptCompatible R a r y"
    and "freshIn R a r sid \<longrightarrow> (\<forall>q \<in> set (LRANGE R (kQueue a) r). \<not> scriptCompatible R a r sid q)"
    and "paired R a (skipped @ (if freshIn R a r sid then [sid] else [])) r2 r' res"
  shows "paired R a skipped r r' res"
proof -
  have f2: "freshIn R a r2 = freshIn R a r" by (simp add: fun_eq_iff freshIn_def assms(4))
  show ?thesis
  proof (cases res)
    case None
    then show ?thesis using assms(1,5-7) by (auto simp: paired_def Let_def f2 assms(2,3) same_scores_def assms(4))
  next
    case (Some p)
    obtain q s where p: "p = (q, s)" by (cases p)
    obtain pre post where "avail = pre @ s # post" "freshIn R a r s"
      "find (scriptCompatible R a r s) (LRANGE R (kQueue a) r) = Some q"
      "\<forall>x \<in> set pre. freshIn R a r x \<longrightarrow> (\<forall>q \<in> set (LRANGE R (kQueue a) r). \<not> scriptCompatible R a r x q)"
      "LRANGE R (kQueue a) r' = remove1 q (LRANGE R (kQueue a) r)"
      "LRANGE R (kAvail a) r' = (skipped @ (if freshIn R a r sid then [sid] else [])) @ filter (freshIn R a r) pre @ post"
      "GET R (aLockPrefix a @ q) r' = Some s"
      using assms(5,7) Some p by (auto simp: paired_def Let_def f2 assms(2,3))
    moreover have "same_scores R r r'" using assms(7) by (simp add: paired_def same_scores_def assms(4))
    ultimately show ?thesis using assms(1,6) Some p
      by (auto intro!: pairedI [of R a r "sid # pre" s post])
  qed
qed

lemma assignLoop_spec:
  assumes "kAvail a \<noteq> kQueue a"
  shows "LRANGE R (kAvail a) r = avail \<Longrightarrow> \<exists>r' res. assignLoop R a skipped r = Some (r', res) \<and> paired R a skipped r r' res"
proof (induction avail arbitrary: skipped r)
  case Nil
  obtain r1 x where pop: "LPOP R (kAvail a) r = (r1, x)" by (cases "LPOP R (kAvail a) r")
  have r1: "x = None" "LRANGE R k r1 = LRANGE R k r" "ZSCORE R k y r1 = ZSCORE R k y r" for k y
    using LPOP_value [of "kAvail a" r] LPOP_list [of k "kAvail a" r] list_commands_keep(1) [of k y "kAvail a" r] Nil pop
    by (auto split: if_splits)
  have "assignLoop R a skipped r = Some (restoreSkipped R (kAvail a) skipped r1, None)"
    by (subst assignLoop.simps) (simp add: pop r1(1))
  moreover have "paired R a skipped r (restoreSkipped R (kAvail a) skipped r1) None"
    using Nil assms r1(2,3) by (auto simp: paired_def same_scores_def)
  ultimately show ?case by blast
next
  case (Cons sid avail)
  obtain r1 x where pop: "LPOP R (kAvail a) r = (r1, x)" by (cases "LPOP R (kAvail a) r")
  have r1: "x = Some sid" "LRANGE R k r1 = (if k = kAvail a then avail else LRANGE R k r)"
    "ZSCORE R k y r1 = ZSCORE R k y r" "HGET R k y r1 = HGET R k y r" "GET R k r1 = GET R k r" for k y
    using LPOP_value [of "kAvail a" r] LPOP_list [of k "kAvail a" r] list_commands_keep(1,2) [of k y "kAvail a" r]
      list_commands_keep(3) [of k "kAvail a" r] Cons.prems pop
    by auto
  let ?q = "LRANGE R (kQueue a) r"
  have l1: "LRANGE R (kAvail a) r1 = avail" "LRANGE R (kQueue a) r1 = ?q" using assms r1(2) by simp_all
  have co: "scriptCompatible R a r1 y = scriptCompatible R a r y" for y by (rule script_reads) (simp_all add: r1)
  show ?case
  proof (cases "freshIn R a r sid")
    case stale: False
    let ?r2 = "HDEL R (kKind a) sid (HDEL R (kAccept a) sid r1)"
    have step: "assignLoop R a skipped r = assignLoop R a skipped ?r2"
      by (subst assignLoop.simps) (use stale pop r1(1,3) in \<open>simp add: freshIn_def\<close>)
    obtain r' res where IH: "assignLoop R a skipped ?r2 = Some (r', res)" "paired R a skipped ?r2 r' res"
      using Cons.IH [of ?r2 skipped] l1 by auto
    have c2: "scriptCompatible R a ?r2 y = scriptCompatible R a r y" if "freshIn R a r y" for y
      by (rule script_reads) (use that stale r1 in auto)
    have "paired R a skipped r r' res"
      by (rule paired_cons [where r = r, OF Cons.prems, of ?r2]) (use l1 r1(3) c2 stale IH(2) in simp_all)
    then show ?thesis using step IH(1) by auto
  next
    case fresh: True
    show ?thesis
    proof (cases "find (scriptCompatible R a r sid) ?q")
      case (Some q)
      let ?r' = "SET R (aLockPrefix a @ q) sid (aLockTTL a) (restoreSkipped R (kAvail a) skipped (LREM R (kQueue a) 1 q r1))"
      have "assignLoop R a skipped r = Some (?r', Some (q, sid))"
        by (subst assignLoop.simps) (use fresh Some pop r1(1,3) in \<open>simp add: freshIn_def l1 co\<close>)
      moreover have "paired R a skipped r ?r' (Some (q, sid))"
        by (rule pairedI [of R a r "[]" sid avail]) (use fresh Some Cons.prems assms r1(3) l1 in \<open>auto simp: same_scores_def\<close>)
      ultimately show ?thesis by blast
    next
      case None
      have step: "assignLoop R a skipped r = assignLoop R a (skipped @ [sid]) r1"
        by (subst assignLoop.simps) (use fresh None pop r1(1,3) in \<open>simp add: freshIn_def l1 co\<close>)
      obtain r' res where IH: "assignLoop R a (skipped @ [sid]) r1 = Some (r', res)"
        "paired R a (skipped @ [sid]) r1 r' res"
        using Cons.IH [of r1 "skipped @ [sid]"] l1 by auto
      have "paired R a skipped r r' res"
        by (rule paired_cons [where r = r, OF Cons.prems l1 r1(3) co]) (use fresh None IH(2) in \<open>simp_all add: find_idle\<close>)
      then show ?thesis using step IH(1) by auto
    qed
  qed
qed

end

section \<open>The script against the in-memory matcher\<close>

text \<open>
  A store that coordinates the same questions as an in-memory service: the queue, the responders that
  are still present, their preference and kind, and the routing keys of every queued request. The list
  of available responders may also hold responders whose process is gone.
\<close>

definition mirrors :: "'r redis \<Rightarrow> time \<Rightarrow> 'r \<Rightarrow> service \<Rightarrow> bool" where
  "mirrors R now r s \<longleftrightarrow>
     filter (freshIn R (assignArgs now) r) (LRANGE R availKey r) = available s \<and> LRANGE R queueKey r = queue s \<and>
     (\<forall>sid \<in> set (available s). (orElse (HGET R responderAIKey sid r) ''1'' = ''1'' \<longleftrightarrow> responderAcceptsAILocked s sid) \<and>
        (\<forall>ses. sessionByIDLocked s sid = Some ses \<longrightarrow>
           orElse (HGET R responderKindKey sid r) ''human'' = KindOrHuman (SesKind ses))) \<and>
     (\<forall>rid \<in> set (queue s). \<forall>req. mget (requests s) rid = Some req \<longrightarrow>
        orElse (GET R (requestKindKey rid) r) ''human'' = RequesterKind req \<and>
        (orElse (GET R (requestAIAnswerKey rid) r) ''1'' = ''1'' \<longleftrightarrow> AllowAIAnswers req) \<and>
        orElse (GET R (requestPreferredResponderKey rid) r) [] = PreferredResponderSessionID req)"

lemmas key_defs = key_def keyPrefix_def queueKey_def availKey_def presenceKey_def lockKey_def responderAIKey_def
  responderKindKey_def requestKindKey_def requestAIAnswerKey_def requestPreferredResponderKey_def leaderKey_def

lemma script_matchable:
  assumes "wf_service s" and "mirrors R now r s" and "sid \<in> set (available s)" and "rid \<in> set (queue s)"
  shows "scriptCompatible R (assignArgs now) r sid rid \<longleftrightarrow> matchable s rid sid"
proof -
  have av: "mget (responders s) sid \<noteq> None" "mget0 (activeByRes s) sid = []" "sessionByIDLocked s sid \<noteq> None"
    using assms(1,3) by (auto simp: wf_service_def inv_available_def mget0_def)
  then obtain ses where ses: "sessionByIDLocked s sid = Some ses" by blast
  obtain req where req: "mget (requests s) rid = Some req" "Status req = StatusQueued"
    using assms(1,4) by (auto simp: wf_service_def inv_queue_def)
  have "matchable s rid sid \<longleftrightarrow> compatible s req sid" using req by (simp add: matchable_def isTerminal_def)
  moreover have "orElse (HGET R responderAIKey sid r) ''1'' = ''1'' \<longleftrightarrow> responderAcceptsAILocked s sid"
    "orElse (HGET R responderKindKey sid r) ''human'' = KindOrHuman (SesKind ses)"
    "orElse (GET R (requestKindKey rid) r) ''human'' = RequesterKind req"
    "orElse (GET R (requestAIAnswerKey rid) r) ''1'' = ''1'' \<longleftrightarrow> AllowAIAnswers req"
    "orElse (GET R (requestPreferredResponderKey rid) r) [] = PreferredResponderSessionID req"
    using assms(2-4) ses req(1) unfolding mirrors_def by blast+
  ultimately show ?thesis using av ses
    by (auto simp: scriptCompatible_def compatible_def assignArgs_def Let_def key_defs KindAIPersona_def)
qed

lemma matchless: "compatiblePairLocked s = None \<longleftrightarrow> (\<forall>rid \<in> set (queue s). \<forall>sid \<in> set (available s). \<not> matchable s rid sid)"
  by (simp add: compatiblePairLocked_def scanQueue_None)

lemma find_SomeD: "find P xs = Some x \<Longrightarrow> x \<in> set xs \<and> P x"
  by (induction xs) (auto split: if_splits)

text \<open>
  C12: The assignment script and the in-memory matcher find a pair in the same situations. On a store
  that coordinates the same questions, the script ends; it returns a pair exactly when
  \<open>compatiblePairLocked\<close> does. The pair is one the matcher accepts, its responder being the one that
  has waited longest among those that could take anything, and the script has taken exactly this
  request out of the queue, exactly this responder out of the list, and locked the request for it.
\<close>

theorem script_agrees:
  assumes "redis_server R" and "wf_service s" and "mirrors R now r s"
  shows "\<exists>r' res. assignNext R now r = Some (r', res) \<and>
    (case res of
       None \<Rightarrow> compatiblePairLocked s = None \<and> LRANGE R queueKey r' = queue s \<and> LRANGE R availKey r' = available s
     | Some (rid, sid) \<Rightarrow> compatiblePairLocked s \<noteq> None \<and> matchable s rid sid \<and> rid \<in> set (queue s) \<and>
         (\<exists>pre post. available s = pre @ sid # post \<and>
            (\<forall>x \<in> set pre. \<forall>q \<in> set (queue s). \<not> matchable s q x) \<and>
            filter (freshIn R (assignArgs now) r') (LRANGE R availKey r') = pre @ post) \<and>
         LRANGE R queueKey r' = remove1 rid (queue s) \<and> GET R (lockKey rid) r' = Some sid)"
proof -
  let ?a = "assignArgs now"
  have k: "kAvail ?a = availKey" "kQueue ?a = queueKey" "kAvail ?a \<noteq> kQueue ?a" by (simp_all add: assignArgs_def key_defs)
  have lk: "aLockPrefix ?a @ q = lockKey q" for q by (simp add: assignArgs_def key_defs)
  obtain r' res where run: "assignNext R now r = Some (r', res)" "paired R ?a [] r r' res"
    using redis_server.assignLoop_spec [OF assms(1) k(3) refl] unfolding assignNext_def by blast
  have q: "LRANGE R queueKey r = queue s" and av: "filter (freshIn R ?a r) (LRANGE R availKey r) = available s"
    using assms(3) by (simp_all add: mirrors_def)
  have fresh: "freshIn R ?a r' = freshIn R ?a r"
    using run(2) by (simp add: paired_def same_scores_def freshIn_def fun_eq_iff)
  note match = script_matchable [OF assms(2,3)]
  show ?thesis
  proof (cases res)
    case None
    then have "\<forall>x \<in> set (available s). \<forall>q \<in> set (queue s). \<not> matchable s q x"
      using run(2) match unfolding av [symmetric] by (auto simp: paired_def Let_def k q)
    then show ?thesis using run None by (auto simp: paired_def Let_def k q av matchless)
  next
    case (Some p)
    obtain rid sid where p: "p = (rid, sid)" by (cases p)
    from run(2) Some p obtain pre post where pp: "LRANGE R availKey r = pre @ sid # post" "freshIn R ?a r sid"
      "find (scriptCompatible R ?a r sid) (queue s) = Some rid"
      "\<forall>x \<in> set pre. freshIn R ?a r x \<longrightarrow> (\<forall>q \<in> set (queue s). \<not> scriptCompatible R ?a r x q)"
      "LRANGE R queueKey r' = remove1 rid (queue s)" "LRANGE R availKey r' = filter (freshIn R ?a r) pre @ post"
      "GET R (lockKey rid) r' = Some sid"
      by (auto simp: paired_def Let_def k q lk)
    let ?pre = "filter (freshIn R ?a r) pre" and ?post = "filter (freshIn R ?a r) post"
    have split: "available s = ?pre @ sid # ?post" using av pp(1,2) by auto
    have found: "rid \<in> set (queue s)" "scriptCompatible R ?a r sid rid" using find_SomeD [OF pp(3)] by auto
    have m: "matchable s rid sid" using match [of sid rid] found split by simp
    have "\<forall>x \<in> set ?pre. \<forall>q \<in> set (queue s). \<not> matchable s q x" using pp(4) match split by auto
    moreover have "filter (freshIn R ?a r') (LRANGE R availKey r') = ?pre @ ?post" by (simp add: fresh pp(6))
    ultimately have "\<exists>pre post. available s = pre @ sid # post \<and>
        (\<forall>x \<in> set pre. \<forall>q \<in> set (queue s). \<not> matchable s q x) \<and>
        filter (freshIn R ?a r') (LRANGE R availKey r') = pre @ post" using split by blast
    moreover have "compatiblePairLocked s \<noteq> None" using m found(1) split by (auto simp: matchless)
    ultimately show ?thesis using run(1) Some p m found(1) pp(5,7) by simp
  qed
qed

definition demoOpen :: service where
  "demoOpen = demo4\<lparr>available := [bobSes]\<rparr>"

definition demoStore :: memStore where
  "demoStore = \<lparr>mLists = [(availKey, [''ses_gone'', bobSes]), (queueKey, [reqA])],
     mScores = [((presenceKey, bobSes), UnixMilli 0), ((presenceKey, ''ses_gone''), UnixMilli 0 - 60000)],
     mHashes = [], mStrings = [(requestKindKey reqA, ''human'')]\<rparr>"

lemma wf_demoOpen: "wf_service demoOpen"
proof -
  have d: "mget (responders demo4) bobSes \<noteq> None" "mget (activeByRes demo4) bobSes = None" "available demo4 = []"
    by code_simp+
  from evolve_available [OF reachable_svc_inv [OF reachable_demo4] d(1)] d(2,3) show ?thesis
    by (simp add: demoOpen_def evolve_def svc_invD(1) mget0_def)
qed

theorem script_agrees_witness:
  "\<exists>r'. assignNext memRedis 0 demoStore = Some (r', Some (reqA, bobSes)) \<and> compatiblePairLocked demoOpen \<noteq> None \<and>
     LRANGE memRedis queueKey r' = []"
proof -
  have st: "filter (freshIn memRedis (assignArgs 0) demoStore) (LRANGE memRedis availKey demoStore) = [bobSes]"
    "LRANGE memRedis queueKey demoStore = [reqA]" "orElse (HGET memRedis responderAIKey bobSes demoStore) ''1'' = ''1''"
    "responderAcceptsAILocked demoOpen bobSes" "available demoOpen = [bobSes]" "queue demoOpen = [reqA]"
    "map_option (\<lambda>ses. KindOrHuman (SesKind ses)) (sessionByIDLocked demoOpen bobSes) = Some ''human''"
    "orElse (HGET memRedis responderKindKey bobSes demoStore) ''human'' = ''human''"
    "map_option (\<lambda>r. (RequesterKind r, AllowAIAnswers r, PreferredResponderSessionID r)) (mget (requests demoOpen) reqA) =
       Some (''human'', True, [])"
    "orElse (GET memRedis (requestKindKey reqA) demoStore) ''human'' = ''human''"
    "orElse (GET memRedis (requestAIAnswerKey reqA) demoStore) ''1'' = ''1''"
    "orElse (GET memRedis (requestPreferredResponderKey reqA) demoStore) [] = []"
    by code_simp+
  have "mirrors memRedis 0 demoStore demoOpen"
    using st by (auto simp: mirrors_def)
  from script_agrees [OF mem.redis_server_axioms wf_demoOpen this]
  obtain r' res where r: "assignNext memRedis 0 demoStore = Some (r', res)"
    "case res of None \<Rightarrow> compatiblePairLocked demoOpen = None | Some (rid, sid) \<Rightarrow>
      compatiblePairLocked demoOpen \<noteq> None \<and> rid \<in> set (queue demoOpen) \<and> (\<exists>pre post. available demoOpen = pre @ sid # post) \<and>
      LRANGE memRedis queueKey r' = remove1 rid (queue demoOpen)"
    by (fastforce split: option.splits)
  moreover have "compatiblePairLocked demoOpen = Some (0, 0)" by code_simp
  moreover have "b = bobSes" if "[bobSes] = pre @ b # post" for b pre post using that by (cases pre) auto
  ultimately show ?thesis using st(5,6) by (auto split: option.splits)
qed

section \<open>The lease\<close>



end
