(* ===== verification/PgStore.thy ===== *)
theory PgStore
  imports Coordinator
begin

text \<open>
  The state of the Postgres/Redis backend (\<open>internal/pgredis\<close>): the tables of
  \<open>migrations/*.sql\<close> with the constraints they declare, the Redis store, the connections of this
  process, and what has been published. SQL is part of the source; a statement is a function on the
  tables. Every transaction that changes a request first locks its row and reads and writes nothing
  else but that request, its fragments and the ledger, so it runs as one step; between any two
  transactions or commands others act (\<open>pext\<close>). A transaction or command may fail (\<open>pfail\<close>, with the
  error that is then reported); a failed transaction is rolled back unless only the reply to its
  commit was lost (\<open>papplied\<close>).
\<close>

section \<open>Tables\<close>

datatype pgError = Svc error | DbFailure

record pgdb =
  tUsers :: "User list"
  tSessions :: "Session list"
  tRequests :: "(string, Request \<times> string) gomap"
  tFragments :: "(Fragment \<times> nat) list"
  tLedger :: "PointEntry list"
  tConversations :: "(string, Conversation) gomap"
  tMessages :: "(string \<times> ConversationMessage) list"

definition emptyDB :: pgdb where
  "emptyDB = \<lparr>tUsers = [], tSessions = [], tRequests = [], tFragments = [], tLedger = [],
     tConversations = [], tMessages = []\<rparr>"

text \<open>A row of \<open>requests\<close> has one column more than \<open>Request\<close>, the category; \<open>scanRequest\<close> drops it.\<close>

definition scanRequest :: "Request \<times> string \<Rightarrow> Request" where
  "scanRequest row = fst row"

definition isTerminalStatus :: "RequestStatus \<Rightarrow> bool" where
  "isTerminalStatus status \<longleftrightarrow>
     status = StatusCompleted \<or> status = StatusTimeoutCompleted \<or> status = StatusAbandoned"

definition notTerminalSQL :: "Request \<Rightarrow> bool" where
  "notTerminalSQL r \<longleftrightarrow> Status r \<notin> {StatusCompleted, StatusTimeoutCompleted, StatusAbandoned}"

definition requestRow :: "pgdb \<Rightarrow> string \<Rightarrow> Request option" where
  "requestRow d requestID = map_option scanRequest (mget (tRequests d) requestID)"

text \<open>\<open>UPDATE requests SET ... WHERE id = $1 AND ...\<close>, with the number of rows it affects.\<close>

definition updateRequest :: "string \<Rightarrow> (Request \<Rightarrow> bool) \<Rightarrow> (Request \<Rightarrow> Request) \<Rightarrow> pgdb \<Rightarrow> pgdb \<times> nat" where
  "updateRequest requestID cond f d =
     (case mget (tRequests d) requestID of
        None \<Rightarrow> (d, 0)
      | Some (r, category) \<Rightarrow>
          if cond r then (d\<lparr>tRequests := mput requestID (f r, category) (tRequests d)\<rparr>, 1) else (d, 0))"

definition fragmentRows :: "pgdb \<Rightarrow> string \<Rightarrow> (Fragment \<times> nat) list" where
  "fragmentRows d requestID = filter (\<lambda>(f, _). FrgRequestID f = requestID) (tFragments d)"

definition fragmentCount :: "pgdb \<Rightarrow> string \<Rightarrow> nat" where
  "fragmentCount d requestID = length (fragmentRows d requestID)"

definition maxOrdinal :: "pgdb \<Rightarrow> string \<Rightarrow> nat" where
  "maxOrdinal d requestID = fold max (map snd (fragmentRows d requestID)) 0"

definition answerText :: "pgdb \<Rightarrow> string \<Rightarrow> string" where
  "answerText d requestID = concat (map (FrgText \<circ> fst) (sort_key snd (fragmentRows d requestID)))"

definition answerRunes :: "pgdb \<Rightarrow> string \<Rightarrow> nat" where
  "answerRunes d requestID = sum_list (map (\<lambda>(f, _). RuneCountInString (FrgText f)) (fragmentRows d requestID))"

text \<open>
  The live request of a responder, the most recently updated if there are several; among rows with
  equal times the order of the table decides, which nothing in the program fixes.
\<close>

definition activeRow :: "pgdb \<Rightarrow> string \<Rightarrow> Request option" where
  "activeRow d sid =
     (case sort_key (\<lambda>r. - UpdatedAt r)
        (filter (\<lambda>r. ResponderSessionID r = sid \<and> notTerminalSQL r) (map (scanRequest \<circ> snd) (tRequests d))) of
        [] \<Rightarrow> None
      | r # _ \<Rightarrow> Some r)"

text \<open>Identifiers: twelve random bytes, or zeros when the system has none.\<close>

definition pgNewID :: "string \<Rightarrow> string \<Rightarrow> string" where
  "pgNewID pre bytes = pre @ ''_'' @ hexEncode bytes"

section \<open>Insertions and their constraints\<close>

definition uniqueFragment :: "pgdb \<Rightarrow> Fragment \<Rightarrow> nat \<Rightarrow> bool" where
  "uniqueFragment d f n \<longleftrightarrow> (\<forall>(g, k) \<in> set (tFragments d). FrgID g \<noteq> FrgID f \<and>
     \<not> (FrgRequestID g = FrgRequestID f \<and> FrgSessionID g = FrgSessionID f \<and> ClientSeq g = ClientSeq f) \<and>
     \<not> (FrgRequestID g = FrgRequestID f \<and> k = n))"

definition insertFragment :: "Fragment \<Rightarrow> nat \<Rightarrow> pgdb \<Rightarrow> pgdb option" where
  "insertFragment f n d =
     (if uniqueFragment d f n \<and> mget (tRequests d) (FrgRequestID f) \<noteq> None
      then Some (d\<lparr>tFragments := tFragments d @ [(f, n)]\<rparr>) else None)"

text \<open>The primary key and the three partial unique indexes of \<open>point_ledger\<close>.\<close>

definition ledgerConflict :: "PointEntry \<Rightarrow> PointEntry \<Rightarrow> bool" where
  "ledgerConflict e e' \<longleftrightarrow> PtsID e = PtsID e' \<or>
     PtsKind e = PtsKind e' \<and>
       (PtsKind e = ''signup_grant'' \<and> PtsUserID e = PtsUserID e' \<or>
        PtsKind e \<in> {''question_charge'', ''answer_reward''} \<and> PtsRequestID e = PtsRequestID e')"

definition insertLedger :: "PointEntry \<Rightarrow> pgdb \<Rightarrow> pgdb option" where
  "insertLedger e d =
     (if list_ex (ledgerConflict e) (tLedger d) then None else Some (d\<lparr>tLedger := tLedger d @ [e]\<rparr>))"

definition addLedgerTx :: "string \<Rightarrow> string \<Rightarrow> string \<Rightarrow> string \<Rightarrow> int \<Rightarrow> time \<Rightarrow> pgdb \<Rightarrow> pgdb" where
  "addLedgerTx bytes userID requestID kind delta now d =
     (case insertLedger \<lparr>PtsID = pgNewID ''pts'' bytes, PtsUserID = userID, PtsRequestID = requestID,
             PtsKind = kind, Delta = delta, PtsCreatedAt = now\<rparr> d of
        None \<Rightarrow> d
      | Some d' \<Rightarrow> d')"

definition insertUser :: "User \<Rightarrow> pgdb \<Rightarrow> pgdb option" where
  "insertUser u d =
     (if list_ex (\<lambda>v. UsrID v = UsrID u \<or> AccountName v = AccountName u) (tUsers d) then None
      else Some (d\<lparr>tUsers := tUsers d @ [u]\<rparr>))"

definition insertSession :: "Session \<Rightarrow> pgdb \<Rightarrow> pgdb option" where
  "insertSession x d =
     (if list_ex (\<lambda>y. SesID y = SesID x \<or> Token y = Token x) (tSessions d) then None
      else Some (d\<lparr>tSessions := tSessions d @ [x]\<rparr>))"

definition insertRequest :: "Request \<Rightarrow> string \<Rightarrow> pgdb \<Rightarrow> pgdb option" where
  "insertRequest r category d =
     (if mget (tRequests d) (ReqID r) \<noteq> None then None
      else Some (d\<lparr>tRequests := mput (ReqID r) (r, category) (tRequests d)\<rparr>))"

section \<open>Points\<close>

definition sqlTotal :: "string \<Rightarrow> pgdb \<Rightarrow> int" where
  "sqlTotal userID d = sum_list (map Delta (filter (\<lambda>e. PtsUserID e = userID) (tLedger d)))"

definition sqlHeld :: "string \<Rightarrow> pgdb \<Rightarrow> int" where
  "sqlHeld userID d =
     sum_list (map FrozenPoints (filter (\<lambda>r. RequesterID r = userID \<and> FrozenPoints r > 0 \<and> notTerminalSQL r)
       (map (scanRequest \<circ> snd) (tRequests d))))"

section \<open>The cluster\<close>

text \<open>A \<open>streamMessage\<close> is of kind fragment, with text and ordinal, or done, with the finish reason.\<close>

datatype pubsub = StreamFragment string nat | StreamDone FinishReason | AssignmentMessage AssignedRequest

record 'r cluster =
  pg :: pgdb
  kv :: 'r
  conns :: "string list"
  wire :: "(string \<times> pubsub) list"

record 'r pgworld =
  pext :: "nat \<Rightarrow> 'r cluster \<Rightarrow> 'r cluster"
  pfail :: "nat \<Rightarrow> pgError option"
  papplied :: "nat \<Rightarrow> bool"
  pids :: "nat \<Rightarrow> nat \<Rightarrow> string"
  pclk :: "nat \<Rightarrow> time"

text \<open>A transaction; its body returns the tables as they are before the commit.\<close>

definition txn ::
  "'r pgworld \<Rightarrow> nat \<Rightarrow> (pgdb \<Rightarrow> pgdb \<times> (pgError + 'a)) \<Rightarrow> 'r cluster \<Rightarrow> 'r cluster \<times> (pgError + 'a)"
where
  "txn w i body c =
     (let c0 = pext w i c; (d, x) = body (pg c0) in
      case x of
        Inl e \<Rightarrow> (c0, Inl (case pfail w i of None \<Rightarrow> e | Some e' \<Rightarrow> e'))
      | Inr v \<Rightarrow>
          (case pfail w i of
             None \<Rightarrow> (c0\<lparr>pg := d\<rparr>, Inr v)
           | Some e \<Rightarrow> (if papplied w i then c0\<lparr>pg := d\<rparr> else c0, Inl e)))"

definition query :: "'r pgworld \<Rightarrow> nat \<Rightarrow> (pgdb \<Rightarrow> 'a) \<Rightarrow> 'r cluster \<Rightarrow> 'r cluster \<times> (pgError + 'a)" where
  "query w i f c =
     (let c0 = pext w i c in (c0, case pfail w i of None \<Rightarrow> Inr (f (pg c0)) | Some e \<Rightarrow> Inl e))"

text \<open>A Redis command, and a publication; the second component says whether an error came back.\<close>

definition command :: "'r pgworld \<Rightarrow> nat \<Rightarrow> ('r \<Rightarrow> 'r) \<Rightarrow> 'r cluster \<Rightarrow> 'r cluster \<times> bool" where
  "command w i f c =
     (let c0 = pext w i c; c1 = c0\<lparr>kv := f (kv c0)\<rparr> in
      case pfail w i of None \<Rightarrow> (c1, False) | Some _ \<Rightarrow> (if papplied w i then c1 else c0, True))"

definition publish :: "'r pgworld \<Rightarrow> nat \<Rightarrow> string \<Rightarrow> pubsub \<Rightarrow> 'r cluster \<Rightarrow> 'r cluster" where
  "publish w i channel m c =
     (let c0 = pext w i c; c1 = c0\<lparr>wire := wire c0 @ [(channel, m)]\<rparr> in
      if pfail w i = None \<or> papplied w i then c1 else c0)"

definition publishStream :: "'r pgworld \<Rightarrow> nat \<Rightarrow> string \<Rightarrow> pubsub \<Rightarrow> 'r cluster \<Rightarrow> 'r cluster" where
  "publishStream w i reqID msg c = publish w i (key [''stream'', reqID]) msg c"

definition publishAssignment :: "'r pgworld \<Rightarrow> nat \<Rightarrow> string \<Rightarrow> AssignedRequest \<Rightarrow> 'r cluster \<Rightarrow> 'r cluster" where
  "publishAssignment w i sid a c = publish w i (key [''assign'', sid]) (AssignmentMessage a) c"

text \<open>A command whose error is ignored.\<close>

definition tell :: "'r pgworld \<Rightarrow> nat \<Rightarrow> ('r \<Rightarrow> 'r) \<Rightarrow> 'r cluster \<Rightarrow> 'r cluster" where
  "tell w i f c = fst (command w i f c)"

end
