(* ===== verification/PgLifecycle.thy ===== *)
theory PgLifecycle
  imports PgStore World
begin

text \<open>
  The request life cycle of the Postgres/Redis backend (\<open>internal/pgredis/lifecycle.go\<close>). The body of
  each transaction is a function on the tables; the operation around it runs the transaction and then
  the Redis commands and publications that follow the commit, whose errors the program ignores.
  The argument \<open>i\<close> numbers the calls of an operation. Operations that drain the assignment queue
  bound the number of pairs by \<open>n\<close>; \<open>Running\<close> is a drain that is not over by then.
\<close>

section \<open>Transactions on one request\<close>

definition abandonRequestTx :: "string \<Rightarrow> time \<Rightarrow> pgdb \<Rightarrow> pgdb" where
  "abandonRequestTx reqID now d =
     fst (updateRequest reqID notTerminalSQL (\<lambda>r. (clearResponder r)\<lparr>Status := StatusAbandoned, FrozenPoints := 0,
       UpdatedAt := now\<rparr>) d)"

definition requeueRequestTx :: "string \<Rightarrow> time \<Rightarrow> pgdb \<Rightarrow> pgdb" where
  "requeueRequestTx reqID now d =
     fst (updateRequest reqID notTerminalSQL (\<lambda>r. (clearResponder r)\<lparr>Status := StatusQueued, UpdatedAt := now\<rparr>) d)"

definition completeRequestTx :: "string \<Rightarrow> Request \<Rightarrow> FinishReason \<Rightarrow> time \<Rightarrow> pgdb \<Rightarrow> pgdb" where
  "completeRequestTx bytes req reason now d =
     (let status = (if reason = FinishPartial then StatusTimeoutCompleted else StatusCompleted);
          (d1, affected) = updateRequest (ReqID req) notTerminalSQL
            (\<lambda>r. r\<lparr>Status := status, ReqFinish := reason, UpdatedAt := now, CompletedAt := now\<rparr>) d
      in if affected = 0 then d1
         else if fragmentCount d1 (ReqID req) > 0 \<and> \<not> ResponderGuest req \<and> ResponderUserID req \<noteq> []
         then addLedgerTx bytes (ResponderUserID req) (ReqID req) ''answer_reward'' BaseAnswerReward now d1
         else d1)"

definition activeRequestTx :: "pgdb \<Rightarrow> string \<Rightarrow> pgError + Request" where
  "activeRequestTx d sessionID =
     (case activeRow d sessionID of None \<Rightarrow> Inl (Svc ErrNoActiveAssignment) | Some req \<Rightarrow> Inr req)"

text \<open>
  \<open>SubmitFragment\<close>: the result carries, besides the fragment and the duplicate flag, the request, the
  ordinal and whether the limit was reached, which decide what is published.
\<close>

definition submitTx ::
  "(nat \<Rightarrow> string) \<Rightarrow> time \<Rightarrow> string \<Rightarrow> int \<Rightarrow> string \<Rightarrow> pgdb
   \<Rightarrow> pgdb \<times> (pgError + (Fragment \<times> bool \<times> string \<times> nat \<times> bool))"
where
  "submitTx bytes now sessionID clientSeq t d =
     (case activeRequestTx d sessionID of
        Inl e \<Rightarrow> (d, Inl e)
      | Inr req \<Rightarrow>
          (case find (\<lambda>(f, _). FrgSessionID f = sessionID \<and> ClientSeq f = clientSeq) (fragmentRows d (ReqID req)) of
             Some (existing, _) \<Rightarrow> (d, Inr (existing, True, ReqID req, 0, False))
           | None \<Rightarrow>
               let written = answerRunes d (ReqID req) in
               if int (written + RuneCountInString t) > OutputLimit req then (d, Inl (Svc ErrOutputTooLarge))
               else
                 let ordinal = maxOrdinal d (ReqID req) + 1;
                     frag = \<lparr>FrgID = pgNewID ''frg'' (bytes 0), FrgRequestID = ReqID req,
                       FrgSessionID = sessionID, ClientSeq = clientSeq, FrgText = t, FrgCreatedAt = now\<rparr>
                 in (case insertFragment frag ordinal d of
                       None \<Rightarrow> (d, Inl DbFailure)
                     | Some d1 \<Rightarrow>
                         let d2 = (if QuestionCharged req then d1
                                   else fst (updateRequest (ReqID req) (\<lambda>_. True)
                                          (\<lambda>r. r\<lparr>QuestionCharged := True, FrozenPoints := 0\<rparr>) d1));
                             d3 = (if \<not> QuestionCharged req \<and> \<not> RequesterGuest req
                                   then addLedgerTx (bytes 1) (RequesterID req) (ReqID req) ''question_charge''
                                          (- QuestionCost) now d2
                                   else d2);
                             d4 = fst (updateRequest (ReqID req) (\<lambda>_. True)
                                    (\<lambda>r. r\<lparr>Status := StatusStreaming, UpdatedAt := now\<rparr>) d3);
                             reachedLimit = (int (written + RuneCountInString t) \<ge> OutputLimit req);
                             d5 = (if reachedLimit then completeRequestTx (bytes 2) req FinishLength now d4 else d4)
                         in (d5, Inr (frag, False, ReqID req, ordinal, reachedLimit)))))"

definition finishTx :: "string \<Rightarrow> time \<Rightarrow> string \<Rightarrow> pgdb \<Rightarrow> pgdb \<times> (pgError + string)" where
  "finishTx bytes now sessionID d =
     (case activeRequestTx d sessionID of
        Inl e \<Rightarrow> (d, Inl e)
      | Inr req \<Rightarrow>
          if fragmentCount d (ReqID req) = 0 then (d, Inl (Svc ErrFinishBeforeFragment))
          else (completeRequestTx bytes req FinishStop now d, Inr (ReqID req)))"

text \<open>The result says whether the conversation of a persona was abandoned.\<close>

definition skipTx :: "time \<Rightarrow> string \<Rightarrow> pgdb \<Rightarrow> pgdb \<times> (pgError + (string \<times> bool))" where
  "skipTx now sessionID d =
     (case activeRequestTx d sessionID of
        Inl e \<Rightarrow> (d, Inl e)
      | Inr req \<Rightarrow>
          if fragmentCount d (ReqID req) > 0 then (d, Inl (Svc ErrCannotSkipCommitted))
          else if RequesterKind req = KindAIPersona
          then (abandonRequestTx (ReqID req) now d, Inr (ReqID req, True))
          else (requeueRequestTx (ReqID req) now d, Inr (ReqID req, False)))"

text \<open>\<open>AcquireFallbackAssignment\<close> and \<open>CancelBeforeFirstFragment\<close>: any error makes them return false.\<close>

definition acquireTx :: "time \<Rightarrow> string \<Rightarrow> pgdb \<Rightarrow> pgdb \<times> (pgError + AssignedRequest)" where
  "acquireTx now requestID d =
     (case requestRow d requestID of
        None \<Rightarrow> (d, Inl DbFailure)
      | Some req \<Rightarrow>
          if PreferredResponderSessionID req \<noteq> [] \<or> \<not> AllowAIAnswers req \<or> Status req \<noteq> StatusQueued
             \<or> fragmentCount d (ReqID req) > 0
          then (d, Inl DbFailure)
          else (fst (updateRequest (ReqID req) (\<lambda>_. True) (\<lambda>r. r\<lparr>Status := StatusAssigned,
                  ResponderSessionID := ''fallback_'' @ requestID, ResponderUserID := [], ResponderGuest := True,
                  ResponderKind := KindFallback, ResponderDisplay := fallbackDisplay, UpdatedAt := now\<rparr>) d),
                Inr \<lparr>AsgRequestID = ReqID req, AsgRequesterKind = RequesterKind req, AsgMessages = Messages req,
                  AsgCreatedAt = CreatedAt req\<rparr>))"

definition cancelTx :: "time \<Rightarrow> string \<Rightarrow> pgdb \<Rightarrow> pgdb \<times> (pgError + string)" where
  "cancelTx now requestID d =
     (case requestRow d requestID of
        None \<Rightarrow> (d, Inl DbFailure)
      | Some req \<Rightarrow>
          if isTerminalStatus (Status req) \<or> fragmentCount d (ReqID req) > 0 then (d, Inl DbFailure)
          else (fst (updateRequest (ReqID req) (\<lambda>_. True) (\<lambda>r. (clearResponder r)\<lparr>Status := StatusAbandoned,
                  FrozenPoints := 0, UpdatedAt := now\<rparr>) d), Inr (ReqID req)))"

definition pgRewardFor :: "Reaction \<Rightarrow> int" where
  "pgRewardFor reaction =
     (case reaction of ReactionLike \<Rightarrow> BaseAnswerReward * 2 | ReactionDislike \<Rightarrow> 8 | _ \<Rightarrow> BaseAnswerReward)"

text \<open>\<open>React\<close>: the user whose balance is reported, if any.\<close>

definition reactTx ::
  "string \<Rightarrow> time \<Rightarrow> Session \<Rightarrow> string \<Rightarrow> Reaction \<Rightarrow> pgdb \<Rightarrow> pgdb \<times> (pgError + string option)"
where
  "reactTx bytes now sess requestID reaction d =
     (case requestRow d requestID of
        None \<Rightarrow> (d, Inl (Svc ErrRequestNotFound))
      | Some req \<Rightarrow>
          if \<not> isRequester sess req \<or> \<not> isTerminalStatus (Status req) then (d, Inl (Svc ErrReactionNotAllowed))
          else if is_zero_time (CompletedAt req) \<or> time_sub now (CompletedAt req) > 24 * 3600 * second
          then (d, Inl (Svc ErrReactionNotAllowed))
          else
            let d1 = fst (updateRequest (ReqID req) (\<lambda>_. True) (\<lambda>r. r\<lparr>ReqReaction := reaction\<rparr>) d) in
            if ResponderGuest req \<or> ResponderUserID req = []
            then (d1, Inr (if Guest sess then None else Some (SesUserID sess)))
            else
              let delta = pgRewardFor reaction - pgRewardFor (ReqReaction req);
                  d2 = (if delta \<noteq> 0
                        then addLedgerTx bytes (ResponderUserID req) (ReqID req) ''reaction_adjustment'' delta now d1
                        else d1)
              in (d2, Inr (if Guest sess then None else Some (ResponderUserID req))))"

section \<open>Reading\<close>

definition sessionByToken :: "'r pgworld \<Rightarrow> nat \<Rightarrow> string \<Rightarrow> 'r cluster \<Rightarrow> 'r cluster \<times> (pgError + Session)" where
  "sessionByToken w i token c =
     (case query w i (\<lambda>d. find (\<lambda>x. Token x = token) (tSessions d)) c of
        (c1, Inl e) \<Rightarrow> (c1, Inl e)
      | (c1, Inr None) \<Rightarrow> (c1, Inl (Svc ErrUnauthorized))
      | (c1, Inr (Some x)) \<Rightarrow> (c1, Inr x))"

text \<open>\<open>balance\<close> ignores the errors of its two queries; it makes the calls \<open>i\<close> and \<open>i + 1\<close>.\<close>

definition pgBalance :: "'r pgworld \<Rightarrow> nat \<Rightarrow> string \<Rightarrow> 'r cluster \<Rightarrow> 'r cluster \<times> Balance" where
  "pgBalance w i userID c =
     (let (c1, x) = query w i (sqlTotal userID) c;
          (c2, y) = query w (i + 1) (sqlHeld userID) c1;
          total = (case x of Inl _ \<Rightarrow> 0 | Inr v \<Rightarrow> v);
          held = (case y of Inl _ \<Rightarrow> 0 | Inr v \<Rightarrow> v)
      in (c2, \<lparr>Total = total, Held = held, Available = total - held\<rparr>))"

definition pgRequestSnapshot ::
  "'r pgworld \<Rightarrow> nat \<Rightarrow> string \<Rightarrow> 'r cluster \<Rightarrow> 'r cluster \<times> (pgError + (Request \<times> string))"
where
  "pgRequestSnapshot w i requestID c =
     (case query w i (\<lambda>d. requestRow d requestID) c of
        (c1, Inl e) \<Rightarrow> (c1, Inl e)
      | (c1, Inr None) \<Rightarrow> (c1, Inl (Svc ErrRequestNotFound))
      | (c1, Inr (Some req)) \<Rightarrow>
          (case query w (i + 1) (\<lambda>d. answerText d requestID) c1 of
             (c2, Inl e) \<Rightarrow> (c2, Inl e)
           | (c2, Inr t) \<Rightarrow> (c2, Inr (req, t))))"

definition activeRequestForResponder ::
  "'r pgworld \<Rightarrow> nat \<Rightarrow> string \<Rightarrow> 'r cluster \<Rightarrow> 'r cluster \<times> (pgError + string)"
where
  "activeRequestForResponder w i sid c =
     (case query w i (\<lambda>d. activeRow d sid) c of
        (c1, Inl e) \<Rightarrow> (c1, Inl e)
      | (c1, Inr x) \<Rightarrow> (c1, Inr (case x of None \<Rightarrow> [] | Some req \<Rightarrow> ReqID req)))"

definition pgFallbackStillWanted :: "'r pgworld \<Rightarrow> nat \<Rightarrow> string \<Rightarrow> 'r cluster \<Rightarrow> 'r cluster \<times> bool" where
  "pgFallbackStillWanted w i requestID c =
     (case query w i (\<lambda>d. map_option (\<lambda>r. AllowAIAnswers r \<and> \<not> isTerminalStatus (Status r)
         \<and> fragmentCount d requestID = 0) (requestRow d requestID)) c of
        (c1, Inr (Some b)) \<Rightarrow> (c1, b)
      | (c1, _) \<Rightarrow> (c1, False))"

end
