(* ===== verification/PgOps.thy ===== *)
theory PgOps
  imports PgLifecycle
begin

text \<open>
  The operations of \<open>lifecycle.go\<close> and the counters of \<open>persona.go\<close>: each transaction with what follows
  its commit, the pairing of requests and responders, and the responders' connections.
\<close>

section \<open>Pairing\<close>

text \<open>\<open>addAvailable\<close> is two commands, the second only if the first succeeds; calls \<open>i\<close> and \<open>i + 1\<close>.\<close>

definition putAvailable :: "'r redis \<Rightarrow> 'r pgworld \<Rightarrow> nat \<Rightarrow> string \<Rightarrow> 'r cluster \<Rightarrow> 'r cluster \<times> bool" where
  "putAvailable R w i sid c =
     (case command w i (LREM R availKey 0 sid) c of
        (c1, True) \<Rightarrow> (c1, True)
      | (c1, False) \<Rightarrow> command w (i + 1) (RPUSH R availKey sid) c1)"

text \<open>A request goes back to the queue, and the responder to the pool.\<close>

definition giveBack :: "'r redis \<Rightarrow> 'r pgworld \<Rightarrow> nat \<Rightarrow> string \<Rightarrow> 'r cluster \<Rightarrow> 'r cluster" where
  "giveBack R w i reqID c = tell w (i + 1) (enqueueRequest R reqID) (tell w i (releaseLock R reqID) c)"

definition assignTx :: "time \<Rightarrow> string \<Rightarrow> string \<Rightarrow> Session \<Rightarrow> pgdb \<Rightarrow> pgdb \<times> (pgError + nat)" where
  "assignTx now reqID sid ses d =
     (let (d1, affected) = updateRequest reqID
            (\<lambda>r. Status r = StatusQueued \<and>
                 (PreferredResponderSessionID r = [] \<or> PreferredResponderSessionID r = sid))
            (\<lambda>r. r\<lparr>Status := StatusAssigned, ResponderSessionID := sid, ResponderUserID := SesUserID ses,
               ResponderGuest := Guest ses, ResponderKind := KindOrHuman (SesKind ses),
               ResponderDisplay := SesNickname ses, UpdatedAt := now\<rparr>) d
      in (d1, Inr affected))"

definition handlePair :: "'r redis \<Rightarrow> 'r pgworld \<Rightarrow> nat \<Rightarrow> string \<Rightarrow> string \<Rightarrow> 'r cluster \<Rightarrow> nat \<times> 'r cluster" where
  "handlePair R w i reqID sid c =
     (case query w i (\<lambda>d. find (\<lambda>x. SesID x = sid) (tSessions d)) c of
        (c1, Inr None) \<Rightarrow> (i + 3, giveBack R w (i + 1) reqID c1)
      | (c1, Inl _) \<Rightarrow> (i + 5, fst (putAvailable R w (i + 3) sid (giveBack R w (i + 1) reqID c1)))
      | (c1, Inr (Some ses)) \<Rightarrow>
          (case txn w (i + 1) (assignTx (pclk w i) reqID sid ses) c1 of
             (c2, Inl _) \<Rightarrow> (i + 6, fst (putAvailable R w (i + 4) sid (giveBack R w (i + 2) reqID c2)))
           | (c2, Inr affected) \<Rightarrow>
               if affected = 0
               then (i + 5, fst (putAvailable R w (i + 3) sid (tell w (i + 2) (releaseLock R reqID) c2)))
               else (case query w (i + 2) (\<lambda>d. requestRow d reqID) c2 of
                       (c3, Inr (Some r)) \<Rightarrow>
                         (i + 4, publishAssignment w (i + 3) sid \<lparr>AsgRequestID = reqID,
                            AsgRequesterKind = RequesterKind r, AsgMessages = Messages r, AsgCreatedAt = CreatedAt r\<rparr> c3)
                     | (c3, _) \<Rightarrow> (i + 3, c3))))"

text \<open>The script as a command: the pair it returns is lost when its reply is.\<close>

definition runAssign ::
  "'r redis \<Rightarrow> 'r pgworld \<Rightarrow> nat \<Rightarrow> 'r cluster \<Rightarrow> ('r cluster \<times> (string \<times> string) option) option"
where
  "runAssign R w i c =
     (let c0 = pext w i c in
      case assignNext R (pclk w i) (kv c0) of
        None \<Rightarrow> None
      | Some (r, res) \<Rightarrow>
          (case pfail w i of
             None \<Rightarrow> Some (c0\<lparr>kv := r\<rparr>, res)
           | Some _ \<Rightarrow> Some (if papplied w i then c0\<lparr>kv := r\<rparr> else c0, None)))"

fun drainAssignments :: "'r redis \<Rightarrow> 'r pgworld \<Rightarrow> nat \<Rightarrow> nat \<Rightarrow> 'r cluster \<Rightarrow> (nat \<times> 'r cluster) run" where
  "drainAssignments R w 0 i c = Running"
| "drainAssignments R w (Suc n) i c =
     (case runAssign R w i c of
        None \<Rightarrow> Running
      | Some (c1, None) \<Rightarrow> Returned (i + 1, c1)
      | Some (c1, Some (reqID, sid)) \<Rightarrow>
          (case handlePair R w (i + 1) reqID sid c1 of (k, c2) \<Rightarrow> drainAssignments R w n k c2))"

definition thenDrain ::
  "'r redis \<Rightarrow> 'r pgworld \<Rightarrow> nat \<Rightarrow> nat \<Rightarrow> 'r cluster \<Rightarrow> 'a \<Rightarrow> (nat \<times> 'r cluster \<times> 'a) run"
where
  "thenDrain R w n i c x =
     (case drainAssignments R w n i c of
        Running \<Rightarrow> Running
      | Panic \<Rightarrow> Panic
      | Returned (k, c') \<Rightarrow> Returned (k, c', x))"

section \<open>Creating requests\<close>

text \<open>
  The points to freeze: the lock, then the two sums as two statements of the transaction, each of which
  sees what has been committed when it runs; the advisory lock keeps out other creations of the same
  user only. The errors of the sums are ignored, and a sum that could not be read is 0.
\<close>

definition freezePoints :: "'r pgworld \<Rightarrow> nat \<Rightarrow> Session \<Rightarrow> 'r cluster \<Rightarrow> 'r cluster \<times> (pgError + int)" where
  "freezePoints w i sess c =
     (if Guest sess then (c, Inr 0)
      else case query w i (\<lambda>_. ()) c of
        (c1, Inl e) \<Rightarrow> (c1, Inl e)
      | (c1, Inr _) \<Rightarrow>
          (let (c2, x) = query w (i + 1) (sqlTotal (SesUserID sess)) c1;
               (c3, y) = query w (i + 2) (sqlHeld (SesUserID sess)) c2;
               tot = (case x of Inl _ \<Rightarrow> 0 | Inr v \<Rightarrow> v);
               held = (case y of Inl _ \<Rightarrow> 0 | Inr v \<Rightarrow> v)
           in (c3, if tot - held < QuestionCost then Inl (Svc ErrInsufficientPoints) else Inr QuestionCost)))"

definition pgNewRequest ::
  "string \<Rightarrow> Session \<Rightarrow> string \<Rightarrow> Message list \<Rightarrow> int \<Rightarrow> bool \<Rightarrow> string \<Rightarrow> int \<Rightarrow> time \<Rightarrow> Request"
where
  "pgNewRequest bytes sess model messages maxOutputChars allowAI preferred frozen now =
     \<lparr>ReqID = pgNewID ''req'' bytes, RequesterID = SesUserID sess,
      RequesterSessionID = SesID sess, RequesterGuest = Guest sess,
      RequesterKind = KindOrHuman (SesKind sess), AllowAIAnswers = allowAI,
      Messages = messages, Model = model, Status = StatusQueued,
      ResponderSessionID = [], ResponderUserID = [], ResponderGuest = False,
      ResponderKind = [], ResponderDisplay = [], PreferredResponderSessionID = preferred,
      BoardEligible = Guest sess \<and> SesKind sess \<noteq> KindAIPersona,
      FrozenPoints = frozen, QuestionCharged = False, OutputLimit = maxOutputChars,
      ReqFinish = FinishUnset, ReqReaction = ReactionNone, CreatedAt = now,
      UpdatedAt = now, CompletedAt = 0\<rparr>"

definition createTx :: "Request \<Rightarrow> pgdb \<Rightarrow> pgdb \<times> (pgError + unit)" where
  "createTx req d =
     (case insertRequest req (QuestionCategory (Messages req)) d of
        None \<Rightarrow> (d, Inl DbFailure)
      | Some d' \<Rightarrow> (d', Inr ()))"

definition pgCreateRequest ::
  "'r redis \<Rightarrow> 'r pgworld \<Rightarrow> nat \<Rightarrow> nat \<Rightarrow> string \<Rightarrow> string \<Rightarrow> Message list \<Rightarrow> int \<Rightarrow> bool \<Rightarrow> string \<Rightarrow> 'r cluster
   \<Rightarrow> (nat \<times> 'r cluster \<times> (pgError + Request)) run"
where
  "pgCreateRequest R w n i token model messages maxOutputChars0 allowAI preferred c =
     (if sum_list (map (\<lambda>m. RuneCountInString (Content m)) messages) > InputLimitChars
      then Returned (i, c, Inl (Svc ErrInputTooLarge))
      else
        let maxOutputChars = (if maxOutputChars0 \<le> 0 \<or> maxOutputChars0 > OutputLimitChars
              then OutputLimitChars else maxOutputChars0)
        in case sessionByToken w i token c of
          (c1, Inl e) \<Rightarrow> Returned (i + 1, c1, Inl e)
        | (c1, Inr sess) \<Rightarrow>
            if preferred \<noteq> [] \<and> KindOrHuman (SesKind sess) \<noteq> KindAIPersona
            then Returned (i + 1, c1, Inl (Svc ErrUnauthorized))
            else
              let now = pclk w i;
                  (c2, points) = freezePoints w (i + 1) sess c1
              in case points of
                Inl e \<Rightarrow> Returned (i + 4, c2, Inl e)
              | Inr frozen \<Rightarrow>
                  let req = pgNewRequest (pids w i 0) sess model messages maxOutputChars allowAI preferred frozen now
                  in case txn w (i + 4) (createTx req) c2 of
                    (c3, Inl e) \<Rightarrow> Returned (i + 5, c3, Inl e)
                  | (c3, Inr _) \<Rightarrow>
                      (case command w (i + 5) (setRequestRouting R (ReqID req) (RequesterKind req) allowAI preferred) c3 of
                         (c4, True) \<Rightarrow> Returned (i + 6, c4, Inl DbFailure)
                       | (c4, False) \<Rightarrow>
                           (case command w (i + 6) (enqueueRequest R (ReqID req)) c4 of
                              (c5, True) \<Rightarrow> Returned (i + 7, c5, Inl DbFailure)
                            | (c5, False) \<Rightarrow> thenDrain R w n (i + 7) c5 (Inr req))))"

definition pgCreateTargetedRequest ::
  "'r redis \<Rightarrow> 'r pgworld \<Rightarrow> nat \<Rightarrow> nat \<Rightarrow> string \<Rightarrow> string \<Rightarrow> Message list \<Rightarrow> int \<Rightarrow> string \<Rightarrow> 'r cluster
   \<Rightarrow> (nat \<times> 'r cluster \<times> (pgError + Request)) run"
where
  "pgCreateTargetedRequest R w n i token model messages maxOutputChars preferred c =
     (if preferred = [] then Returned (i, c, Inl (Svc ErrResponderUnavailable))
      else pgCreateRequest R w n i token model messages maxOutputChars False preferred c)"

section \<open>Answering\<close>

text \<open>What follows the end of a request: the lock and the routing keys go.\<close>

definition settle :: "'r redis \<Rightarrow> 'r pgworld \<Rightarrow> nat \<Rightarrow> string \<Rightarrow> FinishReason \<Rightarrow> 'r cluster \<Rightarrow> 'r cluster" where
  "settle R w i reqID reason c =
     tell w (i + 2) (clearRequestRouting R reqID)
       (tell w (i + 1) (releaseLock R reqID) (publishStream w i reqID (StreamDone reason) c))"

definition pgSubmitFragment ::
  "'r redis \<Rightarrow> 'r pgworld \<Rightarrow> nat \<Rightarrow> string \<Rightarrow> int \<Rightarrow> string \<Rightarrow> 'r cluster
   \<Rightarrow> nat \<times> 'r cluster \<times> (pgError + (Fragment \<times> bool))"
where
  "pgSubmitFragment R w i sessionID clientSeq t c =
     (if clientSeq \<le> 0 then (i, c, Inl (Svc ErrClientSeqNotPositive))
      else if t = [] then (i, c, Inl (Svc ErrFragmentTextRequired))
      else case txn w i (submitTx (pids w i) (pclk w i) sessionID clientSeq t) c of
        (c1, Inl e) \<Rightarrow> (i + 1, c1, Inl e)
      | (c1, Inr (frag, dup, reqID, ordinal, reachedLimit)) \<Rightarrow>
          if dup then (i + 1, c1, Inr (frag, True))
          else
            let c2 = publishStream w (i + 1) reqID (StreamFragment t ordinal) c1 in
            if reachedLimit then (i + 5, settle R w (i + 2) reqID FinishLength c2, Inr (frag, False))
            else (i + 2, c2, Inr (frag, False)))"

definition pgFinish ::
  "'r redis \<Rightarrow> 'r pgworld \<Rightarrow> nat \<Rightarrow> string \<Rightarrow> 'r cluster \<Rightarrow> nat \<times> 'r cluster \<times> (pgError + unit)"
where
  "pgFinish R w i sessionID c =
     (case txn w i (finishTx (pids w i 0) (pclk w i) sessionID) c of
        (c1, Inl e) \<Rightarrow> (i + 1, c1, Inl e)
      | (c1, Inr reqID) \<Rightarrow> (i + 4, settle R w (i + 1) reqID FinishStop c1, Inr ()))"

definition pgSkip ::
  "'r redis \<Rightarrow> 'r pgworld \<Rightarrow> nat \<Rightarrow> nat \<Rightarrow> string \<Rightarrow> 'r cluster \<Rightarrow> (nat \<times> 'r cluster \<times> (pgError + unit)) run"
where
  "pgSkip R w n i sessionID c =
     (case txn w i (skipTx (pclk w i) sessionID) c of
        (c1, Inl e) \<Rightarrow> Returned (i + 1, c1, Inl e)
      | (c1, Inr (reqID, personaConversation)) \<Rightarrow>
          let c2 = tell w (i + 1) (releaseLock R reqID) c1 in
          if personaConversation
          then Returned (i + 4, publishStream w (i + 3) reqID (StreamDone FinishStop)
                 (tell w (i + 2) (clearRequestRouting R reqID) c2), Inr ())
          else thenDrain R w n (i + 3) (tell w (i + 2) (enqueueRequest R reqID) c2) (Inr ()))"

definition pgAcquireFallbackAssignment ::
  "'r redis \<Rightarrow> 'r pgworld \<Rightarrow> nat \<Rightarrow> string \<Rightarrow> 'r cluster \<Rightarrow> nat \<times> 'r cluster \<times> (string \<times> AssignedRequest) option"
where
  "pgAcquireFallbackAssignment R w i requestID c =
     (case txn w i (acquireTx (pclk w i) requestID) c of
        (c1, Inl _) \<Rightarrow> (i + 1, c1, None)
      | (c1, Inr a) \<Rightarrow>
          (i + 2, tell w (i + 1) (removeQueued R (AsgRequestID a)) c1, Some (''fallback_'' @ requestID, a)))"

definition pgCancelBeforeFirstFragment ::
  "'r redis \<Rightarrow> 'r pgworld \<Rightarrow> nat \<Rightarrow> string \<Rightarrow> 'r cluster \<Rightarrow> nat \<times> 'r cluster \<times> bool"
where
  "pgCancelBeforeFirstFragment R w i requestID c =
     (case txn w i (cancelTx (pclk w i) requestID) c of
        (c1, Inl _) \<Rightarrow> (i + 1, c1, False)
      | (c1, Inr reqID) \<Rightarrow>
          (i + 5, publishStream w (i + 4) reqID (StreamDone FinishStop)
             (tell w (i + 3) (clearRequestRouting R reqID) (tell w (i + 2) (releaseLock R reqID)
               (tell w (i + 1) (removeQueued R reqID) c1))), True))"

definition pgReact ::
  "'r pgworld \<Rightarrow> nat \<Rightarrow> string \<Rightarrow> string \<Rightarrow> Reaction \<Rightarrow> 'r cluster \<Rightarrow> nat \<times> 'r cluster \<times> (pgError + Balance)"
where
  "pgReact w i token requestID reaction c =
     (if reaction \<noteq> ReactionNone \<and> reaction \<noteq> ReactionLike \<and> reaction \<noteq> ReactionDislike
      then (i, c, Inl (Svc ErrInvalidReaction))
      else case sessionByToken w i token c of
        (c1, Inl e) \<Rightarrow> (i + 1, c1, Inl e)
      | (c1, Inr sess) \<Rightarrow>
          (case txn w (i + 1) (reactTx (pids w i 0) (pclk w i) sess requestID reaction) c1 of
             (c2, Inl e) \<Rightarrow> (i + 2, c2, Inl e)
           | (c2, Inr None) \<Rightarrow> (i + 2, c2, Inr zeroBalance)
           | (c2, Inr (Some uid)) \<Rightarrow>
               (case pgBalance w (i + 2) uid c2 of (c3, b) \<Rightarrow> (i + 4, c3, Inr b))))"

end
