(* ===== verification/PgResponders.thy ===== *)
theory PgResponders
  imports PgOps
begin

text \<open>
  The responders of the Postgres/Redis backend, the timeout sweeper, the requester's stream
  (\<open>internal/pgredis/lifecycle.go\<close>) and the counters of \<open>persona.go\<close>.
\<close>

section \<open>Responders\<close>

text \<open>A read from Redis.\<close>

definition ask :: "'r pgworld \<Rightarrow> nat \<Rightarrow> ('r \<Rightarrow> 'a) \<Rightarrow> 'r cluster \<Rightarrow> 'r cluster \<times> (pgError + 'a)" where
  "ask w i f c =
     (let c0 = pext w i c in (c0, case pfail w i of None \<Rightarrow> Inr (f (kv c0)) | Some e \<Rightarrow> Inl e))"

definition pgRegisterResponder ::
  "'r redis \<Rightarrow> 'r pgworld \<Rightarrow> nat \<Rightarrow> string \<Rightarrow> 'r cluster \<Rightarrow> nat \<times> 'r cluster \<times> (pgError + string)"
where
  "pgRegisterResponder R w i token c =
     (case sessionByToken w i token c of
        (c1, Inl e) \<Rightarrow> (i + 1, c1, Inl e)
      | (c1, Inr sess) \<Rightarrow>
          (case command w (i + 1) (heartbeat R (pclk w i) (SesID sess)) c1 of
             (c2, True) \<Rightarrow> (i + 2, c2, Inl DbFailure)
           | (c2, False) \<Rightarrow>
               (case command w (i + 2) (HSET R responderKindKey (SesID sess) (KindOrHuman (SesKind sess))) c2 of
                  (c3, True) \<Rightarrow> (i + 3, c3, Inl DbFailure)
                | (c3, False) \<Rightarrow>
                    let c4 = c3\<lparr>conns := List.insert (SesID sess) (conns c3)\<rparr> in
                    (case activeRequestForResponder w (i + 3) (SesID sess) c4 of
                       (c5, x) \<Rightarrow>
                         let reqID = (case x of Inl _ \<Rightarrow> [] | Inr rid \<Rightarrow> rid) in
                         if reqID = [] then (i + 4, c5, Inr (SesID sess))
                         else (case pgRequestSnapshot w (i + 4) reqID c5 of
                                 (c6, Inr (req, _)) \<Rightarrow>
                                   (i + 7, if Status req = StatusAssigned
                                      then publishAssignment w (i + 6) (SesID sess) \<lparr>AsgRequestID = ReqID req,
                                        AsgRequesterKind = RequesterKind req, AsgMessages = Messages req,
                                        AsgCreatedAt = CreatedAt req\<rparr> c6
                                      else c6, Inr (SesID sess))
                               | (c6, Inl _) \<Rightarrow> (i + 6, c6, Inr (SesID sess)))))))"

text \<open>The ticks of \<open>heartbeatLoop\<close> until its context is cancelled.\<close>

fun heartbeatLoop :: "'r redis \<Rightarrow> 'r pgworld \<Rightarrow> nat \<Rightarrow> nat \<Rightarrow> string \<Rightarrow> 'r cluster \<Rightarrow> 'r cluster" where
  "heartbeatLoop R w 0 i sid c = c"
| "heartbeatLoop R w (Suc n) i sid c = heartbeatLoop R w n (i + 1) sid (tell w i (heartbeat R (pclk w i) sid) c)"

datatype leaving = LeftAbandoned | LeftRequeued | LeftPartial

definition leaveTx :: "string \<Rightarrow> time \<Rightarrow> string \<Rightarrow> pgdb \<Rightarrow> pgdb \<times> (pgError + leaving)" where
  "leaveTx bytes now reqID d =
     (case requestRow d reqID of
        None \<Rightarrow> (d, Inl DbFailure)
      | Some req \<Rightarrow>
          if isTerminalStatus (Status req) then (d, Inl DbFailure)
          else if fragmentCount d reqID = 0 then
            (if PreferredResponderSessionID req \<noteq> [] then (abandonRequestTx reqID now d, Inr LeftAbandoned)
             else (requeueRequestTx reqID now d, Inr LeftRequeued))
          else (completeRequestTx bytes req FinishPartial now d, Inr LeftPartial))"

definition pgUnregisterResponder ::
  "'r redis \<Rightarrow> 'r pgworld \<Rightarrow> nat \<Rightarrow> nat \<Rightarrow> string \<Rightarrow> 'r cluster \<Rightarrow> (nat \<times> 'r cluster \<times> unit) run"
where
  "pgUnregisterResponder R w n i sessionID c =
     (let c0 = c\<lparr>conns := filter (\<lambda>x. x \<noteq> sessionID) (conns c)\<rparr>;
          c1 = tell w (i + 1) (removeAvailable R sessionID) (tell w i (dropPresence R sessionID) c0);
          c2 = tell w (i + 3) (HDEL R responderKindKey sessionID) (tell w (i + 2) (HDEL R responderAIKey sessionID) c1)
      in case activeRequestForResponder w (i + 4) sessionID c2 of
        (c3, Inl _) \<Rightarrow> Returned (i + 5, c3, ())
      | (c3, Inr reqID) \<Rightarrow>
          if reqID = [] then Returned (i + 5, c3, ())
          else (case txn w (i + 5) (leaveTx (pids w i 0) (pclk w i) reqID) c3 of
                  (c4, Inl _) \<Rightarrow> Returned (i + 6, c4, ())
                | (c4, Inr how) \<Rightarrow>
                    let c5 = tell w (i + 6) (releaseLock R reqID) c4;
                        c6 = (case how of
                           LeftAbandoned \<Rightarrow> publishStream w (i + 8) reqID (StreamDone FinishStop)
                             (tell w (i + 7) (clearRequestRouting R reqID) c5)
                         | LeftRequeued \<Rightarrow> tell w (i + 7) (enqueueRequest R reqID) c5
                         | LeftPartial \<Rightarrow> tell w (i + 8) (clearRequestRouting R reqID)
                             (publishStream w (i + 7) reqID (StreamDone FinishPartial) c5))
                    in thenDrain R w n (i + 9) c6 ()))"

definition pgMarkResponderAvailable ::
  "'r redis \<Rightarrow> 'r pgworld \<Rightarrow> nat \<Rightarrow> nat \<Rightarrow> string \<Rightarrow> bool list \<Rightarrow> 'r cluster
   \<Rightarrow> (nat \<times> 'r cluster \<times> (pgError + unit)) run"
where
  "pgMarkResponderAvailable R w n i sessionID acceptAIQuestions c =
     (if sessionID \<notin> set (conns c) then Returned (i, c, Inl (Svc ErrResponderUnavailable))
      else
        let acceptAI = (acceptAIQuestions = [] \<or> hd acceptAIQuestions) in
        case command w i (HSET R responderAIKey sessionID (if acceptAI then ''1'' else ''0'')) c of
          (c1, True) \<Rightarrow> Returned (i + 1, c1, Inl DbFailure)
        | (c1, False) \<Rightarrow>
            (case activeRequestForResponder w (i + 1) sessionID c1 of
               (c2, x) \<Rightarrow>
                 if (case x of Inl _ \<Rightarrow> [] | Inr rid \<Rightarrow> rid) \<noteq> [] then Returned (i + 2, c2, Inr ())
                 else (case putAvailable R w (i + 3) sessionID (tell w (i + 2) (heartbeat R (pclk w i) sessionID) c2) of
                         (c3, True) \<Rightarrow> Returned (i + 5, c3, Inl DbFailure)
                       | (c3, False) \<Rightarrow> thenDrain R w n (i + 5) c3 (Inr ()))))"

definition pgResumeResponder ::
  "'r redis \<Rightarrow> 'r pgworld \<Rightarrow> nat \<Rightarrow> nat \<Rightarrow> string \<Rightarrow> 'r cluster \<Rightarrow> (nat \<times> 'r cluster \<times> (pgError + unit)) run"
where
  "pgResumeResponder R w n i sessionID c =
     (case activeRequestForResponder w i sessionID c of
        (c1, x) \<Rightarrow>
          if (case x of Inl _ \<Rightarrow> [] | Inr rid \<Rightarrow> rid) \<noteq> [] then Returned (i + 1, c1, Inr ())
          else (case ask w (i + 1) (ZSCORE R presenceKey sessionID) c1 of
                  (c2, Inl e) \<Rightarrow> Returned (i + 2, c2, Inl e)
                | (c2, Inr None) \<Rightarrow> Returned (i + 2, c2, Inl (Svc ErrResponderUnavailable))
                | (c2, Inr (Some score)) \<Rightarrow>
                    if score < minFresh (pclk w i) then Returned (i + 2, c2, Inl (Svc ErrResponderUnavailable))
                    else (case putAvailable R w (i + 2) sessionID c2 of
                            (c3, True) \<Rightarrow> Returned (i + 4, c3, Inl DbFailure)
                          | (c3, False) \<Rightarrow> thenDrain R w n (i + 4) c3 (Inr ()))))"

section \<open>Timeouts\<close>

definition staleAssigned :: "pgdb \<Rightarrow> time \<Rightarrow> (string \<times> string) list" where
  "staleAssigned d cutoff =
     map (\<lambda>r. (ReqID r, PreferredResponderSessionID r))
       (filter (\<lambda>r. Status r = StatusAssigned \<and> UpdatedAt r \<le> cutoff \<and> fragmentCount d (ReqID r) = 0)
         (map (scanRequest \<circ> snd) (tRequests d)))"

definition staleStreaming :: "pgdb \<Rightarrow> time \<Rightarrow> Request list" where
  "staleStreaming d cutoff =
     filter (\<lambda>r. Status r = StatusStreaming \<and> UpdatedAt r \<le> cutoff \<and> fragmentCount d (ReqID r) > 0)
       (map (scanRequest \<circ> snd) (tRequests d))"

definition revokeTx :: "time \<Rightarrow> time \<Rightarrow> string \<times> string \<Rightarrow> pgdb \<Rightarrow> pgdb \<times> (pgError + nat)" where
  "revokeTx now cutoff request d =
     (let (d1, affected) = updateRequest (fst request)
            (\<lambda>r. Status r = StatusAssigned \<and> UpdatedAt r \<le> cutoff)
            (\<lambda>r. (clearResponder r)\<lparr>Status := (if snd request \<noteq> [] then StatusAbandoned else StatusQueued),
               UpdatedAt := now\<rparr>) d
      in (d1, Inr affected))"

fun sweepAssigned ::
  "'r redis \<Rightarrow> 'r pgworld \<Rightarrow> time \<Rightarrow> time \<Rightarrow> (string \<times> string) list \<Rightarrow> nat \<Rightarrow> 'r cluster \<Rightarrow> nat \<times> 'r cluster \<times> string list"
where
  "sweepAssigned R w now cutoff [] i c = (i, c, [])"
| "sweepAssigned R w now cutoff (request # rest) i c =
     (case txn w i (revokeTx now cutoff request) c of
        (c1, x) \<Rightarrow>
          (let (c2, changed) =
             (if (case x of Inl _ \<Rightarrow> 0 | Inr affected \<Rightarrow> affected) = 0 then (c1, [])
              else
                let c' = tell w (i + 1) (releaseLock R (fst request)) c1 in
                if snd request \<noteq> []
                then (publishStream w (i + 3) (fst request) (StreamDone FinishStop)
                        (tell w (i + 2) (clearRequestRouting R (fst request)) c'),
                      [fst request @ '':targeted_timeout_abandoned''])
                else (tell w (i + 2) (enqueueRequest R (fst request)) c', [fst request @ '':assigned_timeout_requeued'']));
               (k, c3, more) = sweepAssigned R w now cutoff rest (i + 4) c2
           in (k, c3, changed @ more)))"

definition closeTx :: "string \<Rightarrow> time \<Rightarrow> time \<Rightarrow> Request \<Rightarrow> pgdb \<Rightarrow> pgdb \<times> (pgError + unit)" where
  "closeTx bytes now cutoff r d =
     (case requestRow d (ReqID r) of
        None \<Rightarrow> (d, Inl DbFailure)
      | Some cur \<Rightarrow>
          if Status cur \<noteq> StatusStreaming \<or> UpdatedAt cur > cutoff then (d, Inl DbFailure)
          else (completeRequestTx bytes r FinishPartial now d, Inr ()))"

fun sweepStreaming ::
  "'r redis \<Rightarrow> 'r pgworld \<Rightarrow> time \<Rightarrow> time \<Rightarrow> Request list \<Rightarrow> nat \<Rightarrow> 'r cluster \<Rightarrow> nat \<times> 'r cluster \<times> string list"
where
  "sweepStreaming R w now cutoff [] i c = (i, c, [])"
| "sweepStreaming R w now cutoff (r # rest) i c =
     (case txn w i (closeTx (pids w i 0) now cutoff r) c of
        (c1, Inl _) \<Rightarrow> sweepStreaming R w now cutoff rest (i + 4) c1
      | (c1, Inr _) \<Rightarrow>
          (let (k, c2, more) = sweepStreaming R w now cutoff rest (i + 4) (settle R w (i + 1) (ReqID r) FinishPartial c1)
           in (k, c2, (ReqID r @ '':streaming_timeout_completed'') # more)))"

definition pgSweepTimeouts ::
  "'r redis \<Rightarrow> 'r pgworld \<Rightarrow> nat \<Rightarrow> nat \<Rightarrow> time \<Rightarrow> duration \<Rightarrow> duration \<Rightarrow> 'r cluster
   \<Rightarrow> (nat \<times> 'r cluster \<times> string list) run"
where
  "pgSweepTimeouts R w n i now assignedTimeout streamingTimeout c =
     (let (i1, c1, changed1) =
        (if assignedTimeout > 0 then
           (case query w i (\<lambda>d. staleAssigned d (now - assignedTimeout)) c of
              (c', Inl _) \<Rightarrow> (i + 1, c', [])
            | (c', Inr stale) \<Rightarrow> sweepAssigned R w now (now - assignedTimeout) stale (i + 1) c')
         else (i, c, []));
          (i2, c2, changed2) =
        (if streamingTimeout > 0 then
           (case query w i1 (\<lambda>d. staleStreaming d (now - streamingTimeout)) c1 of
              (c', Inl _) \<Rightarrow> (i1 + 1, c', [])
            | (c', Inr reqs) \<Rightarrow> sweepStreaming R w now (now - streamingTimeout) reqs (i1 + 1) c')
         else (i1, c1, []));
          changed = changed1 @ changed2
      in if changed \<noteq> [] then thenDrain R w n i2 c2 changed else Returned (i2, c2, changed))"

fun pgRunTimeoutSweeper ::
  "'r redis \<Rightarrow> 'r pgworld \<Rightarrow> nat \<Rightarrow> time list \<Rightarrow> nat \<Rightarrow> 'r cluster \<Rightarrow> (nat \<times> 'r cluster) run"
where
  "pgRunTimeoutSweeper R w n [] i c = Returned (i, c)"
| "pgRunTimeoutSweeper R w n (now # ticks) i c =
     (case pgSweepTimeouts R w n i now AssignedTimeout StreamingInactivityTimeout c of
        Running \<Rightarrow> Running
      | Panic \<Rightarrow> Panic
      | Returned (k, c1, _) \<Rightarrow> pgRunTimeoutSweeper R w n ticks k c1)"

fun assignTicker :: "'r redis \<Rightarrow> 'r pgworld \<Rightarrow> nat \<Rightarrow> nat \<Rightarrow> nat \<Rightarrow> 'r cluster \<Rightarrow> (nat \<times> 'r cluster) run" where
  "assignTicker R w n 0 i c = Returned (i, c)"
| "assignTicker R w n (Suc ticks) i c =
     (case drainAssignments R w n i c of
        Running \<Rightarrow> Running
      | Panic \<Rightarrow> Panic
      | Returned (k, c1) \<Rightarrow> assignTicker R w n ticks k c1)"

section \<open>Subscriptions\<close>

text \<open>
  The forwarding goroutine of \<open>streamChannel\<close> and \<open>assignmentChannel\<close>: what arrives on the channel, less what
  does not decode, until the subscription is cancelled. \<open>gone k\<close> says that the \<open>k\<close>-th \<open>select\<close> takes the
  cancellation.
\<close>

fun forward :: "(nat \<Rightarrow> bool) \<Rightarrow> (pubsub \<Rightarrow> 'm option) \<Rightarrow> pubsub list \<Rightarrow> nat \<Rightarrow> 'm list" where
  "forward gone unmarshal [] k = []"
| "forward gone unmarshal (payload # rest) k =
     (if gone k then []
      else case unmarshal payload of
        None \<Rightarrow> forward gone unmarshal rest (k + 1)
      | Some x \<Rightarrow> if gone (k + 1) then [] else x # forward gone unmarshal rest (k + 2))"

definition onChannel :: "string \<Rightarrow> (string \<times> pubsub) list \<Rightarrow> pubsub list" where
  "onChannel channel sent = map snd (filter (\<lambda>p. fst p = channel) sent)"

definition streamChannel :: "(nat \<Rightarrow> bool) \<Rightarrow> string \<Rightarrow> (string \<times> pubsub) list \<Rightarrow> pubsub list" where
  "streamChannel gone reqID sent =
     forward gone (\<lambda>x. case x of AssignmentMessage _ \<Rightarrow> None | _ \<Rightarrow> Some x) (onChannel (key [''stream'', reqID]) sent) 0"

definition assignmentChannel :: "(nat \<Rightarrow> bool) \<Rightarrow> string \<Rightarrow> (string \<times> pubsub) list \<Rightarrow> AssignedRequest list" where
  "assignmentChannel gone sid sent =
     forward gone (\<lambda>x. case x of AssignmentMessage a \<Rightarrow> Some a | _ \<Rightarrow> None) (onChannel (key [''assign'', sid]) sent) 0"

section \<open>The requester's stream\<close>

text \<open>
  The goroutine of \<open>Subscribe\<close>. \<open>gone k\<close> says that the consumer has left when the \<open>k\<close>-th event is to be
  sent; the events sent so far are the result. Each round of the loop is a wake-up, by a message or by
  the ticker: what the messages say is not used.
\<close>

definition rowsAfter :: "pgdb \<Rightarrow> string \<Rightarrow> nat \<Rightarrow> (nat \<times> string) list" where
  "rowsAfter d requestID after =
     map (\<lambda>(f, n). (n, FrgText f)) (sort_key snd (filter (\<lambda>(_, n). n > after) (fragmentRows d requestID)))"

fun emitRows ::
  "(nat \<Rightarrow> bool) \<Rightarrow> string \<Rightarrow> (nat \<times> string) list \<Rightarrow> nat \<Rightarrow> StreamEvent list \<Rightarrow> nat \<times> StreamEvent list \<times> bool"
where
  "emitRows gone requestID [] high evs = (high, evs, True)"
| "emitRows gone requestID ((n, t) # rows) high evs =
     (if gone (length evs) then (high, evs, False)
      else emitRows gone requestID rows n (evs @ [StreamEventFragment requestID t]))"

definition drainFragmentsAfter ::
  "(nat \<Rightarrow> bool) \<Rightarrow> 'r pgworld \<Rightarrow> nat \<Rightarrow> string \<Rightarrow> nat \<Rightarrow> StreamEvent list \<Rightarrow> 'r cluster
   \<Rightarrow> 'r cluster \<times> nat \<times> StreamEvent list \<times> bool"
where
  "drainFragmentsAfter gone w i requestID after evs c =
     (case query w i (\<lambda>d. rowsAfter d requestID after) c of
        (c1, Inl _) \<Rightarrow> (c1, after, evs, True)
      | (c1, Inr rows) \<Rightarrow> (c1, emitRows gone requestID rows after evs))"

definition terminalState :: "'r pgworld \<Rightarrow> nat \<Rightarrow> string \<Rightarrow> 'r cluster \<Rightarrow> 'r cluster \<times> FinishReason option" where
  "terminalState w i requestID c =
     (case query w i (\<lambda>d. requestRow d requestID) c of
        (c1, Inr (Some r)) \<Rightarrow> (c1, if isTerminalStatus (Status r) then Some (ReqFinish r) else None)
      | (c1, _) \<Rightarrow> (c1, None))"

text \<open>\<open>flush\<close> makes the calls \<open>i\<close> to \<open>i + 2\<close>; its last component is false when the goroutine ends.\<close>

definition flush ::
  "(nat \<Rightarrow> bool) \<Rightarrow> 'r pgworld \<Rightarrow> nat \<Rightarrow> string \<Rightarrow> nat \<Rightarrow> StreamEvent list \<Rightarrow> 'r cluster
   \<Rightarrow> 'r cluster \<times> nat \<times> StreamEvent list \<times> bool"
where
  "flush gone w i requestID lastOrdinal evs c =
     (case drainFragmentsAfter gone w i requestID lastOrdinal evs c of
        (c1, n, evs1, False) \<Rightarrow> (c1, n, evs1, False)
      | (c1, n, evs1, True) \<Rightarrow>
          (case terminalState w (i + 1) requestID c1 of
             (c2, None) \<Rightarrow> (c2, n, evs1, True)
           | (c2, Some finish) \<Rightarrow>
               (case drainFragmentsAfter gone w (i + 2) requestID n evs1 c2 of
                  (c3, n', evs2, b) \<Rightarrow>
                    (c3, n', if b \<and> \<not> gone (length evs2) then evs2 @ [StreamEventDone requestID finish] else evs2, False))))"

fun streamRounds ::
  "(nat \<Rightarrow> bool) \<Rightarrow> 'r pgworld \<Rightarrow> string \<Rightarrow> nat \<Rightarrow> nat \<Rightarrow> nat \<Rightarrow> StreamEvent list \<Rightarrow> 'r cluster
   \<Rightarrow> 'r cluster \<times> StreamEvent list \<times> bool"
where
  "streamRounds gone w requestID 0 i lastOrdinal evs c = (c, evs, True)"
| "streamRounds gone w requestID (Suc rounds) i lastOrdinal evs c =
     (case flush gone w i requestID lastOrdinal evs c of
        (c1, n, evs1, False) \<Rightarrow> (c1, evs1, False)
      | (c1, n, evs1, True) \<Rightarrow> streamRounds gone w requestID rounds (i + 3) n evs1 c1)"

definition pgSubscribe ::
  "(nat \<Rightarrow> bool) \<Rightarrow> 'r pgworld \<Rightarrow> nat \<Rightarrow> nat \<Rightarrow> string \<Rightarrow> 'r cluster
   \<Rightarrow> 'r cluster \<times> (pgError + (StreamEvent list \<times> bool))"
where
  "pgSubscribe gone w rounds i requestID c =
     (case query w i (\<lambda>d. requestRow d requestID) c of
        (c1, Inl e) \<Rightarrow> (c1, Inl e)
      | (c1, Inr None) \<Rightarrow> (c1, Inl (Svc ErrRequestNotFound))
      | (c1, Inr (Some _)) \<Rightarrow>
          (case streamRounds gone w requestID rounds (i + 1) 0 [] c1 of (c2, evs, goesOn) \<Rightarrow> (c2, Inr (evs, goesOn))))"

section \<open>Probe and shutdown\<close>

definition pgPing :: "'r pgworld \<Rightarrow> nat \<Rightarrow> 'r cluster \<Rightarrow> 'r cluster \<times> (pgError + unit)" where
  "pgPing w i c =
     (case query w i (\<lambda>_. ()) c of
        (c1, Inl e) \<Rightarrow> (c1, Inl e)
      | (c1, Inr _) \<Rightarrow> ask w (i + 1) (\<lambda>_. ()) c1)"

text \<open>\<open>Close\<close> stops every connection; the pools it closes are not part of the state.\<close>

definition pgClose :: "'r cluster \<Rightarrow> 'r cluster" where
  "pgClose c = c\<lparr>conns := []\<rparr>"

section \<open>Counters and the lease\<close>

definition pgOnlineResponderCount :: "'r redis \<Rightarrow> 'r pgworld \<Rightarrow> nat \<Rightarrow> 'r cluster \<Rightarrow> 'r cluster \<times> nat" where
  "pgOnlineResponderCount R w i c =
     (case ask w i (onlineResponders R (pclk w i)) c of (c1, Inl _) \<Rightarrow> (c1, 0) | (c1, Inr n) \<Rightarrow> (c1, n))"

definition pgOnlineHumanResponderCount :: "'r redis \<Rightarrow> 'r pgworld \<Rightarrow> nat \<Rightarrow> 'r cluster \<Rightarrow> 'r cluster \<times> nat" where
  "pgOnlineHumanResponderCount R w i c =
     (case ask w i (ZRANGEBYSCORE R presenceKey (minFresh (pclk w i))) c of
        (c1, Inl _) \<Rightarrow> (c1, 0)
      | (c1, Inr sids) \<Rightarrow>
          if sids = [] then (c1, 0)
          else (case query w (i + 1) (\<lambda>d. length (filter (\<lambda>x. SesID x \<in> set sids \<and> SesKind x \<noteq> KindAIPersona)
                  (tSessions d))) c1 of
                  (c2, Inl _) \<Rightarrow> (c2, 0)
                | (c2, Inr n) \<Rightarrow> (c2, n)))"

definition pgQueuedRequestCount :: "'r redis \<Rightarrow> 'r pgworld \<Rightarrow> nat \<Rightarrow> 'r cluster \<Rightarrow> 'r cluster \<times> nat" where
  "pgQueuedRequestCount R w i c =
     (case ask w i (LRANGE R queueKey) c of (c1, Inl _) \<Rightarrow> (c1, 0) | (c1, Inr q) \<Rightarrow> (c1, length q))"

definition pgTryPersonaLeader ::
  "'r redis \<Rightarrow> 'r pgworld \<Rightarrow> nat \<Rightarrow> string \<Rightarrow> duration \<Rightarrow> 'r cluster \<Rightarrow> 'r cluster \<times> bool"
where
  "pgTryPersonaLeader R w i podID ttl c =
     (let c0 = pext w i c; (r, granted) = personaLease R podID (ttl div second) (kv c0); c1 = c0\<lparr>kv := r\<rparr> in
      case pfail w i of None \<Rightarrow> (c1, granted) | Some _ \<Rightarrow> (if papplied w i then c1 else c0, False))"

end
