(* ===== verification/PgAuth.thy ===== *)
theory PgAuth
  imports PgResponders Conversations "HOL-Library.List_Lexorder" "HOL-Library.Char_ord" "HOL-Library.Product_Lexorder"
begin

text \<open>
  Accounts, sessions, the ledger and the board (\<open>internal/pgredis/auth.go\<close>, \<open>requests_read.go\<close>), saved
  conversations (\<open>conversations.go\<close>) and the application of migrations (\<open>migrate.go\<close>). bcrypt is a
  parameter, as in the in-memory service. Rows with equal sort keys come in the order of the table.
\<close>

section \<open>Accounts and sessions\<close>

definition pgAuthResult :: "'r pgworld \<Rightarrow> nat \<Rightarrow> Session \<Rightarrow> 'r cluster \<Rightarrow> 'r cluster \<times> (pgError + AuthResult)" where
  "pgAuthResult w i sess c =
     (if Guest sess
      then (c, Inr \<lparr>AuthToken = Token sess, AuthUser = \<lparr>DtoID = SesID sess, DtoAccountName = [],
             DtoNickname = SesNickname sess, DtoGuest = Guest sess\<rparr>, AuthBalance = zeroBalance\<rparr>)
      else case query w i (\<lambda>d. find (\<lambda>u. UsrID u = SesUserID sess) (tUsers d)) c of
        (c1, Inl e) \<Rightarrow> (c1, Inl e)
      | (c1, Inr None) \<Rightarrow> (c1, Inl DbFailure)
      | (c1, Inr (Some u)) \<Rightarrow>
          (case pgBalance w (i + 1) (SesUserID sess) c1 of
             (c2, b) \<Rightarrow> (c2, Inr \<lparr>AuthToken = Token sess, AuthUser = \<lparr>DtoID = SesUserID sess,
                DtoAccountName = AccountName u, DtoNickname = UsrNickname u, DtoGuest = False\<rparr>, AuthBalance = b\<rparr>)))"

definition registerTx :: "User \<Rightarrow> PointEntry \<Rightarrow> Session \<Rightarrow> pgdb \<Rightarrow> pgdb \<times> (pgError + unit)" where
  "registerTx u grant sess d =
     (case insertUser u d of
        None \<Rightarrow> (d, Inl (Svc ErrAccountExists))
      | Some d1 \<Rightarrow>
          (case insertLedger grant d1 of
             None \<Rightarrow> (d, Inl DbFailure)
           | Some d2 \<Rightarrow> (case insertSession sess d2 of None \<Rightarrow> (d, Inl DbFailure) | Some d3 \<Rightarrow> (d3, Inr ()))))"

definition pgRegister ::
  "(string \<Rightarrow> string option) \<Rightarrow> 'r pgworld \<Rightarrow> nat \<Rightarrow> string \<Rightarrow> string \<Rightarrow> string \<Rightarrow> string \<Rightarrow> 'r cluster
   \<Rightarrow> 'r cluster \<times> (pgError + AuthResult)"
where
  "pgRegister gen w i accountName0 nickname0 password repeated c =
     (let accountName = TrimSpace accountName0; nickname = TrimSpace nickname0 in
      if accountName = [] \<or> nickname = [] \<or> password = [] then (c, Inl (Svc ErrFieldsRequired))
      else if password \<noteq> repeated then (c, Inl (Svc ErrPasswordMismatch))
      else case gen password of
        None \<Rightarrow> (c, Inl (Svc ErrBcrypt))
      | Some hash \<Rightarrow>
          (let now = pclk w i;
               userID = pgNewID ''usr'' (pids w i 0);
               u = \<lparr>UsrID = userID, AccountName = accountName, UsrNickname = nickname, PasswordHash = hash, UsrCreatedAt = now\<rparr>;
               grant = \<lparr>PtsID = pgNewID ''pts'' (pids w i 1), PtsUserID = userID, PtsRequestID = [],
                 PtsKind = ''signup_grant'', Delta = SignupGrant, PtsCreatedAt = now\<rparr>;
               sess = \<lparr>SesID = pgNewID ''ses'' (pids w i 2), Token = pgNewID ''tok'' (pids w i 3), SesUserID = userID,
                 Guest = False, SesKind = KindHuman, SesNickname = nickname, SesCreatedAt = now\<rparr>
           in case txn w i (registerTx u grant sess) c of
             (c1, Inl e) \<Rightarrow> (c1, Inl e)
           | (c1, Inr _) \<Rightarrow> pgAuthResult w (i + 1) sess c1))"

definition createSessionTx :: "Session \<Rightarrow> pgdb \<Rightarrow> pgdb \<times> (pgError + Session)" where
  "createSessionTx sess d =
     (case insertSession sess d of None \<Rightarrow> (d, Inl DbFailure) | Some d' \<Rightarrow> (d', Inr sess))"

definition pgCreateSession ::
  "'r pgworld \<Rightarrow> nat \<Rightarrow> string \<Rightarrow> bool \<Rightarrow> string \<Rightarrow> string \<Rightarrow> 'r cluster \<Rightarrow> 'r cluster \<times> (pgError + Session)"
where
  "pgCreateSession w i userID guest nickname kind c =
     (let sess = \<lparr>SesID = pgNewID ''ses'' (pids w i 0), Token = pgNewID ''tok'' (pids w i 1), SesUserID = userID,
            Guest = guest, SesKind = kind, SesNickname = nickname, SesCreatedAt = pclk w i\<rparr>
      in txn w i (createSessionTx sess) c)"

definition pgLogin ::
  "(string \<Rightarrow> string \<Rightarrow> bool) \<Rightarrow> 'r pgworld \<Rightarrow> nat \<Rightarrow> string \<Rightarrow> string \<Rightarrow> 'r cluster \<Rightarrow> 'r cluster \<times> (pgError + AuthResult)"
where
  "pgLogin cmp w i accountName password c =
     (case query w i (\<lambda>d. find (\<lambda>u. AccountName u = TrimSpace accountName) (tUsers d)) c of
        (c1, Inl e) \<Rightarrow> (c1, Inl e)
      | (c1, Inr None) \<Rightarrow> (c1, Inl (Svc ErrInvalidCredentials))
      | (c1, Inr (Some u)) \<Rightarrow>
          if \<not> cmp (PasswordHash u) password then (c1, Inl (Svc ErrInvalidCredentials))
          else (case pgCreateSession w (i + 1) (UsrID u) False (UsrNickname u) KindHuman c1 of
                  (c2, Inl e) \<Rightarrow> (c2, Inl e)
                | (c2, Inr sess) \<Rightarrow> pgAuthResult w (i + 2) sess c2))"

text \<open>A guest or persona session; the zero \<open>AuthResult\<close> is returned when the insertion fails.\<close>

definition zeroAuth :: AuthResult where
  "zeroAuth = \<lparr>AuthToken = [], AuthUser = \<lparr>DtoID = [], DtoAccountName = [], DtoNickname = [], DtoGuest = False\<rparr>,
     AuthBalance = zeroBalance\<rparr>"

definition openSession ::
  "'r pgworld \<Rightarrow> nat \<Rightarrow> string \<Rightarrow> string \<Rightarrow> string \<Rightarrow> 'r cluster \<Rightarrow> 'r cluster \<times> AuthResult"
where
  "openSession w i dflt kind nickname c =
     (case pgCreateSession w i [] True (if TrimSpace nickname = [] then dflt else nickname) kind c of
        (c1, Inl _) \<Rightarrow> (c1, zeroAuth)
      | (c1, Inr sess) \<Rightarrow>
          (case pgAuthResult w (i + 1) sess c1 of (c2, Inl _) \<Rightarrow> (c2, zeroAuth) | (c2, Inr a) \<Rightarrow> (c2, a)))"

definition pgGuestSession :: "'r pgworld \<Rightarrow> nat \<Rightarrow> string \<Rightarrow> 'r cluster \<Rightarrow> 'r cluster \<times> AuthResult" where
  "pgGuestSession w i nickname c = openSession w i guestNickname KindHuman nickname c"

definition pgPersonaSession :: "'r pgworld \<Rightarrow> nat \<Rightarrow> string \<Rightarrow> 'r cluster \<Rightarrow> 'r cluster \<times> AuthResult" where
  "pgPersonaSession w i nickname c = openSession w i personaNickname KindAIPersona nickname c"

definition pgMe :: "'r pgworld \<Rightarrow> nat \<Rightarrow> string \<Rightarrow> 'r cluster \<Rightarrow> 'r cluster \<times> (pgError + AuthResult)" where
  "pgMe w i token c =
     (case sessionByToken w i token c of
        (c1, Inl e) \<Rightarrow> (c1, Inl e)
      | (c1, Inr sess) \<Rightarrow> pgAuthResult w (i + 1) sess c1)"

definition pgLedgerForUser ::
  "'r pgworld \<Rightarrow> nat \<Rightarrow> string \<Rightarrow> 'r cluster \<Rightarrow> 'r cluster \<times> (pgError + (PointEntry list \<times> Balance))"
where
  "pgLedgerForUser w i token c =
     (case sessionByToken w i token c of
        (c1, Inl _) \<Rightarrow> (c1, Inl (Svc ErrUnauthorized))
      | (c1, Inr sess) \<Rightarrow>
          if Guest sess then (c1, Inl (Svc ErrUnauthorized))
          else (case query w (i + 1) (\<lambda>d. sort_key (\<lambda>e. (PtsCreatedAt e, PtsID e))
                  (filter (\<lambda>e. PtsUserID e = SesUserID sess) (tLedger d))) c1 of
                  (c2, Inl e) \<Rightarrow> (c2, Inl e)
                | (c2, Inr entries) \<Rightarrow>
                    (case pgBalance w (i + 2) (SesUserID sess) c2 of (c3, b) \<Rightarrow> (c3, Inr (entries, b)))))"

section \<open>The board\<close>

definition pgTicket :: "pgdb \<Rightarrow> Request \<times> string \<Rightarrow> BoardTicket" where
  "pgTicket d row =
     (let r = fst row in
      \<lparr>TktRequestID = ReqID r, Category = snd row, TktStatus = Status r, TktResponderKind = ResponderKind r,
       TktResponderDisplay = ResponderDisplay r, TktReaction = ReqReaction r, AnswerLength = answerRunes d (ReqID r),
       TktCreatedAt = CreatedAt r\<rparr>)"

definition boardRows :: "int \<Rightarrow> pgdb \<Rightarrow> BoardTicket list" where
  "boardRows limit0 d =
     (let limit = (if limit0 \<le> 0 \<or> limit0 > 200 then 50 else limit0) in
      map (pgTicket d) (take (nat limit) (sort_key (\<lambda>row. - CreatedAt (fst row))
        (filter (\<lambda>row. BoardEligible (fst row) \<and> Status (fst row) \<noteq> StatusAbandoned) (map snd (tRequests d))))))"

definition pgBoard :: "'r pgworld \<Rightarrow> nat \<Rightarrow> int \<Rightarrow> 'r cluster \<Rightarrow> 'r cluster \<times> (pgError + BoardTicket list)" where
  "pgBoard w i limit c = query w i (boardRows limit) c"

section \<open>Conversations\<close>

definition ownsConversation :: "Session \<Rightarrow> Conversation \<Rightarrow> bool" where
  "ownsConversation sess c =
     (if Guest sess then GuestSessionID c = SesID sess
      else OwnerUserID c \<noteq> [] \<and> OwnerUserID c = SesUserID sess)"

definition ownedConversation ::
  "'r pgworld \<Rightarrow> nat \<Rightarrow> Session \<Rightarrow> string \<Rightarrow> 'r cluster \<Rightarrow> 'r cluster \<times> (pgError + Conversation)"
where
  "ownedConversation w i sess cid c =
     (case query w i (\<lambda>d. mget (tConversations d) cid) c of
        (c1, Inl e) \<Rightarrow> (c1, Inl e)
      | (c1, Inr None) \<Rightarrow> (c1, Inl (Svc ErrConversationNotFound))
      | (c1, Inr (Some cv)) \<Rightarrow>
          if \<not> ownsConversation sess cv then (c1, Inl (Svc ErrConversationNotFound)) else (c1, Inr cv))"

definition createConversationTx :: "Conversation \<Rightarrow> pgdb \<Rightarrow> pgdb \<times> (pgError + Conversation)" where
  "createConversationTx cv d =
     (if mget (tConversations d) (CnvID cv) \<noteq> None then (d, Inl DbFailure)
      else (d\<lparr>tConversations := mput (CnvID cv) cv (tConversations d)\<rparr>, Inr cv))"

definition pgCreateConversation ::
  "'r pgworld \<Rightarrow> nat \<Rightarrow> string \<Rightarrow> string \<Rightarrow> 'r cluster \<Rightarrow> 'r cluster \<times> (pgError + Conversation)"
where
  "pgCreateConversation w i token title c =
     (case sessionByToken w i token c of
        (c1, Inl e) \<Rightarrow> (c1, Inl e)
      | (c1, Inr sess) \<Rightarrow>
          (let cv = \<lparr>CnvID = pgNewID ''cnv'' (pids w i 0), OwnerUserID = (if Guest sess then [] else SesUserID sess),
                 GuestSessionID = (if Guest sess then SesID sess else []), Title = NormalizeTitle title,
                 Archived = False, CnvCreatedAt = pclk w i, CnvUpdatedAt = pclk w i\<rparr>
           in txn w (i + 1) (createConversationTx cv) c1))"

definition pgListConversations ::
  "'r pgworld \<Rightarrow> nat \<Rightarrow> string \<Rightarrow> 'r cluster \<Rightarrow> 'r cluster \<times> (pgError + Conversation list)"
where
  "pgListConversations w i token c =
     (case sessionByToken w i token c of
        (c1, Inl e) \<Rightarrow> (c1, Inl e)
      | (c1, Inr sess) \<Rightarrow>
          query w (i + 1) (\<lambda>d. sort_key (\<lambda>cv. - CnvUpdatedAt cv)
            (filter (\<lambda>cv. if Guest sess then GuestSessionID cv = SesID sess else OwnerUserID cv = SesUserID sess)
              (map snd (tConversations d)))) c1)"

definition pgGetConversation ::
  "'r pgworld \<Rightarrow> nat \<Rightarrow> string \<Rightarrow> string \<Rightarrow> 'r cluster
   \<Rightarrow> 'r cluster \<times> (pgError + (Conversation \<times> ConversationMessage list))"
where
  "pgGetConversation w i token cid c =
     (case sessionByToken w i token c of
        (c1, Inl e) \<Rightarrow> (c1, Inl e)
      | (c1, Inr sess) \<Rightarrow>
          (case ownedConversation w (i + 1) sess cid c1 of
             (c2, Inl e) \<Rightarrow> (c2, Inl e)
           | (c2, Inr cv) \<Rightarrow>
               (case query w (i + 2) (\<lambda>d. sort_key Seq (map snd (filter (\<lambda>p. fst p = cid) (tMessages d)))) c2 of
                  (c3, Inl e) \<Rightarrow> (c3, Inl e)
                | (c3, Inr msgs) \<Rightarrow> (c3, Inr (cv, msgs)))))"

text \<open>The statement that follows a check of the ownership; a row that is gone meanwhile is not affected.\<close>

definition changeOwned ::
  "'r pgworld \<Rightarrow> nat \<Rightarrow> string \<Rightarrow> string \<Rightarrow> (pgdb \<Rightarrow> pgdb) \<Rightarrow> 'r cluster \<Rightarrow> 'r cluster \<times> (pgError + unit)"
where
  "changeOwned w i token cid f c =
     (case sessionByToken w i token c of
        (c1, Inl e) \<Rightarrow> (c1, Inl e)
      | (c1, Inr sess) \<Rightarrow>
          (case ownedConversation w (i + 1) sess cid c1 of
             (c2, Inl e) \<Rightarrow> (c2, Inl e)
           | (c2, Inr _) \<Rightarrow> txn w (i + 2) (\<lambda>d. (f d, Inr ())) c2))"

definition updateConversation :: "string \<Rightarrow> (Conversation \<Rightarrow> Conversation) \<Rightarrow> pgdb \<Rightarrow> pgdb" where
  "updateConversation cid f d =
     (case mget (tConversations d) cid of
        None \<Rightarrow> d
      | Some cv \<Rightarrow> d\<lparr>tConversations := mput cid (f cv) (tConversations d)\<rparr>)"

definition pgRenameConversation ::
  "'r pgworld \<Rightarrow> nat \<Rightarrow> string \<Rightarrow> string \<Rightarrow> string \<Rightarrow> 'r cluster \<Rightarrow> 'r cluster \<times> (pgError + unit)"
where
  "pgRenameConversation w i token cid title c =
     changeOwned w i token cid
       (updateConversation cid (\<lambda>cv. cv\<lparr>Title := NormalizeTitle title, CnvUpdatedAt := pclk w i\<rparr>)) c"

definition pgSetConversationArchived ::
  "'r pgworld \<Rightarrow> nat \<Rightarrow> string \<Rightarrow> string \<Rightarrow> bool \<Rightarrow> 'r cluster \<Rightarrow> 'r cluster \<times> (pgError + unit)"
where
  "pgSetConversationArchived w i token cid archived c =
     changeOwned w i token cid (updateConversation cid (\<lambda>cv. cv\<lparr>Archived := archived, CnvUpdatedAt := pclk w i\<rparr>)) c"

definition pgDeleteConversation ::
  "'r pgworld \<Rightarrow> nat \<Rightarrow> string \<Rightarrow> string \<Rightarrow> 'r cluster \<Rightarrow> 'r cluster \<times> (pgError + unit)"
where
  "pgDeleteConversation w i token cid c =
     changeOwned w i token cid (\<lambda>d. d\<lparr>tConversations := mdel cid (tConversations d),
       tMessages := filter (\<lambda>p. fst p \<noteq> cid) (tMessages d)\<rparr>) c"

definition appendTx ::
  "string \<Rightarrow> time \<Rightarrow> Session \<Rightarrow> string \<Rightarrow> string \<Rightarrow> string \<Rightarrow> string \<Rightarrow> string \<Rightarrow> pgdb
   \<Rightarrow> pgdb \<times> (pgError + ConversationMessage)"
where
  "appendTx bytes now sess cid role content sourceKind requestID d =
     (case mget (tConversations d) cid of
        None \<Rightarrow> (d, Inl (Svc ErrConversationNotFound))
      | Some cv \<Rightarrow>
          if \<not> ownsConversation sess cv then (d, Inl (Svc ErrConversationNotFound))
          else
            let seq = fold max (map (Seq \<circ> snd) (filter (\<lambda>p. fst p = cid) (tMessages d))) 0 + 1;
                msg = \<lparr>MsgID = pgNewID ''msg'' bytes, Seq = seq, MsgRole = role, MsgContent = content,
                  SourceKind = sourceKind, MsgRequestID = requestID, MsgCreatedAt = now\<rparr>
            in if list_ex (\<lambda>p. MsgID (snd p) = MsgID msg) (tMessages d) then (d, Inl DbFailure)
               else (updateConversation cid (\<lambda>cv. cv\<lparr>CnvUpdatedAt := now\<rparr>)
                       (d\<lparr>tMessages := tMessages d @ [(cid, msg)]\<rparr>), Inr msg))"

definition pgAppendConversationMessage ::
  "'r pgworld \<Rightarrow> nat \<Rightarrow> string \<Rightarrow> string \<Rightarrow> string \<Rightarrow> string \<Rightarrow> string \<Rightarrow> string \<Rightarrow> 'r cluster
   \<Rightarrow> 'r cluster \<times> (pgError + ConversationMessage)"
where
  "pgAppendConversationMessage w i token cid role content sourceKind requestID c =
     (case sessionByToken w i token c of
        (c1, Inl e) \<Rightarrow> (c1, Inl e)
      | (c1, Inr sess) \<Rightarrow>
          txn w (i + 1) (appendTx (pids w i 0) (pclk w i) sess cid role content sourceKind requestID) c1)"

section \<open>Migrations\<close>

text \<open>
  \<open>migrate\<close> over the files of the embedded directory: what a file does is its content run by the
  server, a parameter (\<open>apply name\<close>, \<open>None\<close> when the server refuses it); \<open>applied\<close> is the table
  \<open>schema_migrations\<close> and \<open>s\<close> the schema.
\<close>

definition migrationNames :: "string list \<Rightarrow> string list" where
  "migrationNames entries = sort (filter (\<lambda>name. HasSuffix name ''.sql'') entries)"

fun migrateAll ::
  "(string \<Rightarrow> 's \<Rightarrow> 's option) \<Rightarrow> string list \<Rightarrow> string list \<Rightarrow> 's \<Rightarrow> string list \<times> 's \<times> bool"
where
  "migrateAll run [] applied s = (applied, s, True)"
| "migrateAll run (name # names) applied s =
     (if name \<in> set applied then migrateAll run names applied s
      else case run name s of
        None \<Rightarrow> (applied, s, False)
      | Some s' \<Rightarrow> migrateAll run names (applied @ [name]) s')"

definition migrate ::
  "(string \<Rightarrow> 's \<Rightarrow> 's option) \<Rightarrow> string list \<Rightarrow> string list \<Rightarrow> 's \<Rightarrow> string list \<times> 's \<times> bool"
where
  "migrate run entries applied s = migrateAll run (migrationNames entries) applied s"

end
