(* ===== verification/PgRows.thy ===== *)
theory PgRows
  imports PgAuth
begin

text \<open>
  The transactions of the Postgres/Redis backend in closed form. \<open>changed d rid r fs es\<close> is the database \<open>d\<close>
  with the row \<open>r\<close> for the request \<open>rid\<close> and the fragments \<open>fs\<close> and ledger entries \<open>es\<close> added; every
  transaction on a request that commits yields a database of this form.
\<close>

section \<open>Rows\<close>

definition changed :: "pgdb \<Rightarrow> string \<Rightarrow> Request \<Rightarrow> (Fragment \<times> nat) list \<Rightarrow> PointEntry list \<Rightarrow> pgdb" where
  "changed d rid r fs es =
     d\<lparr>tRequests := mput rid (r, snd (the (mget (tRequests d) rid))) (tRequests d),
       tFragments := tFragments d @ fs, tLedger := tLedger d @ es\<rparr>"

lemma mput_mput [simp]: "mput k v (mput k u m) = mput k v m"
  by (simp add: mput_def)

lemma mput_same: "mget m k = Some v \<Longrightarrow> mput k v m = m"
  by (induction m) (auto simp: mput_def mget_def split: if_splits)

lemma row_cat:
  assumes "requestRow d rid = Some r"
  shows "mget (tRequests d) rid = Some (r, snd (the (mget (tRequests d) rid)))"
  using assms by (cases "mget (tRequests d) rid") (auto simp: requestRow_def scanRequest_def)

lemma requestRow_changed [simp]:
  "requestRow (changed d rid r fs es) k = (if k = rid then Some r else requestRow d k)"
  by (simp add: requestRow_def changed_def scanRequest_def)

lemma changed_tables [simp]:
  "tFragments (changed d rid r fs es) = tFragments d @ fs"
  "tLedger (changed d rid r fs es) = tLedger d @ es"
  "tUsers (changed d rid r fs es) = tUsers d"
  "tSessions (changed d rid r fs es) = tSessions d"
  "tConversations (changed d rid r fs es) = tConversations d"
  "tMessages (changed d rid r fs es) = tMessages d"
  by (simp_all add: changed_def)

lemma fragmentRows_changed [simp]:
  "fragmentRows (changed d rid r fs es) k = fragmentRows d k @ filter (\<lambda>(f, _). FrgRequestID f = k) fs"
  by (simp add: fragmentRows_def)

lemma changed_again:
  "changed (changed d rid r fs es) rid r' fs' es' = changed d rid r' (fs @ fs') (es @ es')"
  by (simp add: changed_def)

lemma changed_refl: "requestRow d rid = Some r \<Longrightarrow> changed d rid r [] [] = d"
  by (drule row_cat) (simp add: changed_def mput_same)

lemma mwf_changed: "mwf (tRequests d) \<Longrightarrow> mwf (tRequests (changed d rid r fs es))"
  by (simp add: changed_def)

lemma updateRequest_row:
  assumes "requestRow d rid = Some r"
  shows "updateRequest rid P f d = (if P r then (changed d rid (f r) [] [], 1) else (d, 0))"
  unfolding updateRequest_def by (subst row_cat[OF assms]) (simp add: changed_def)

lemma updateRequest_none: "requestRow d rid = None \<Longrightarrow> updateRequest rid P f d = (d, 0)"
  by (simp add: updateRequest_def requestRow_def)

text \<open>The entry \<open>addLedgerTx\<close> writes, or none when the row conflicts with one that is there.\<close>

definition pgEntry :: "string \<Rightarrow> string \<Rightarrow> string \<Rightarrow> string \<Rightarrow> int \<Rightarrow> time \<Rightarrow> PointEntry" where
  "pgEntry b uid rid kind delta now =
     \<lparr>PtsID = pgNewID ''pts'' b, PtsUserID = uid, PtsRequestID = rid, PtsKind = kind, Delta = delta, PtsCreatedAt = now\<rparr>"

definition credit :: "PointEntry list \<Rightarrow> PointEntry \<Rightarrow> PointEntry list" where
  "credit es e = (if list_ex (ledgerConflict e) es then [] else [e])"

lemma addLedgerTx_changed:
  "requestRow d rid = Some r \<Longrightarrow> addLedgerTx b uid q kind delta now d =
     changed d rid r [] (credit (tLedger d) (pgEntry b uid q kind delta now))"
  using row_cat[of d rid r]
  by (simp add: addLedgerTx_def insertLedger_def credit_def pgEntry_def changed_refl) (simp add: changed_def mput_same)

lemma addLedgerTx_again:
  "addLedgerTx b uid q kind delta now (changed d rid r fs es) =
     changed d rid r fs (es @ credit (tLedger d @ es) (pgEntry b uid q kind delta now))"
  using addLedgerTx_changed[of "changed d rid r fs es" rid r] by (simp add: changed_again)

lemma updateRequest_again:
  "updateRequest rid P f (changed d rid r fs es) =
     (if P r then (changed d rid (f r) fs es, 1) else (changed d rid r fs es, 0))"
  by (simp add: updateRequest_row[where r = r] changed_again)

lemma completeRequestTx_row:
  assumes "requestRow d (ReqID req) = Some r" and "notTerminalSQL r"
  shows "completeRequestTx b req reason now d =
    changed d (ReqID req) (r\<lparr>Status := (if reason = FinishPartial then StatusTimeoutCompleted else StatusCompleted),
        ReqFinish := reason, UpdatedAt := now, CompletedAt := now\<rparr>) []
      (if fragmentRows d (ReqID req) \<noteq> [] \<and> \<not> ResponderGuest req \<and> ResponderUserID req \<noteq> []
       then credit (tLedger d) (pgEntry b (ResponderUserID req) (ReqID req) ''answer_reward'' BaseAnswerReward now) else [])"
  using assms
  by (simp add: completeRequestTx_def updateRequest_row fragmentCount_def addLedgerTx_changed[where rid = "ReqID req"]
      changed_again Let_def)

lemma completeRequestTx_over:
  assumes "requestRow d (ReqID req) = Some r" and "\<not> notTerminalSQL r"
  shows "completeRequestTx b req reason now d = d"
  using assms by (simp add: completeRequestTx_def updateRequest_row)

section \<open>The active request of a responder\<close>

lemma in_rows:
  assumes "r \<in> set (map (scanRequest \<circ> snd) (tRequests d))" and "mwf (tRequests d)"
    and "\<And>rid r. requestRow d rid = Some r \<Longrightarrow> ReqID r = rid"
  shows "requestRow d (ReqID r) = Some r"
proof -
  obtain k x where x: "(k, x) \<in> set (tRequests d)" and r: "r = scanRequest x" using assms(1) by auto
  then have "requestRow d k = Some r" using in_set_mget[OF assms(2) x] by (simp add: requestRow_def)
  then show ?thesis using assms(3) by blast
qed

lemma row_in_table: "requestRow d rid = Some r \<Longrightarrow> r \<in> set (map (scanRequest \<circ> snd) (tRequests d))"
  by (auto simp: requestRow_def dest!: mget_in_set intro: rev_image_eqI)

lemma activeRow_in:
  assumes "activeRow d sid = Some r"
  shows "r \<in> set (map (scanRequest \<circ> snd) (tRequests d))" "ResponderSessionID r = sid" "notTerminalSQL r"
proof -
  let ?P = "\<lambda>r. ResponderSessionID r = sid \<and> notTerminalSQL r"
  let ?ys = "sort_key (\<lambda>r. - UpdatedAt r) (filter ?P (map (scanRequest \<circ> snd) (tRequests d)))"
  obtain ys where "?ys = r # ys" using assms by (cases ?ys) (simp_all add: activeRow_def)
  then have "r \<in> set ?ys" by (simp del: set_sort)
  then show "r \<in> set (map (scanRequest \<circ> snd) (tRequests d))" "ResponderSessionID r = sid" "notTerminalSQL r"
    by (simp_all only: set_sort set_filter mem_Collect_eq)
qed

lemma activeRow_none:
  "activeRow d sid = None \<Longrightarrow> r \<in> set (map (scanRequest \<circ> snd) (tRequests d)) \<Longrightarrow>
     \<not> (ResponderSessionID r = sid \<and> notTerminalSQL r)"
  unfolding activeRow_def
  by (metis (mono_tags, lifting) empty_iff empty_set list.case_eq_if mem_Collect_eq option.distinct(1) set_filter set_sort)

text \<open>The conditions under which a transaction on a request commits, and what it commits.\<close>

lemma activeRequestTx_cases:
  "activeRequestTx d sid = (case activeRow d sid of None \<Rightarrow> Inl (Svc ErrNoActiveAssignment) | Some r \<Rightarrow> Inr r)"
  by (simp add: activeRequestTx_def)

definition stored :: "pgdb \<Rightarrow> string \<Rightarrow> string \<Rightarrow> int \<Rightarrow> (Fragment \<times> nat) option" where
  "stored d rid sid n = find (\<lambda>(f, _). FrgSessionID f = sid \<and> ClientSeq f = n) (fragmentRows d rid)"

definition pgFragment :: "string \<Rightarrow> string \<Rightarrow> string \<Rightarrow> int \<Rightarrow> string \<Rightarrow> time \<Rightarrow> Fragment" where
  "pgFragment b rid sid n t now =
     \<lparr>FrgID = pgNewID ''frg'' b, FrgRequestID = rid, FrgSessionID = sid, ClientSeq = n, FrgText = t, FrgCreatedAt = now\<rparr>"

definition chargeOf :: "(nat \<Rightarrow> string) \<Rightarrow> time \<Rightarrow> Request \<Rightarrow> PointEntry list \<Rightarrow> PointEntry list" where
  "chargeOf b now r es =
     (if \<not> QuestionCharged r \<and> \<not> RequesterGuest r
      then credit es (pgEntry (b 1) (RequesterID r) (ReqID r) ''question_charge'' (- QuestionCost) now) else [])"

definition rewardOf :: "string \<Rightarrow> time \<Rightarrow> Request \<Rightarrow> PointEntry list \<Rightarrow> PointEntry list" where
  "rewardOf b now r es =
     (if \<not> ResponderGuest r \<and> ResponderUserID r \<noteq> []
      then credit es (pgEntry b (ResponderUserID r) (ReqID r) ''answer_reward'' BaseAnswerReward now) else [])"

definition streamed :: "time \<Rightarrow> Request \<Rightarrow> Request" where
  "streamed now r = (if QuestionCharged r then r else r\<lparr>QuestionCharged := True, FrozenPoints := 0\<rparr>)
     \<lparr>Status := StatusStreaming, UpdatedAt := now\<rparr>"

definition closed :: "FinishReason \<Rightarrow> time \<Rightarrow> Request \<Rightarrow> Request" where
  "closed reason now r = r\<lparr>Status := (if reason = FinishPartial then StatusTimeoutCompleted else StatusCompleted),
     ReqFinish := reason, UpdatedAt := now, CompletedAt := now\<rparr>"

lemma insertFragment_row:
  assumes "requestRow d rid = Some r" and "FrgRequestID f = rid" and "uniqueFragment d f n"
  shows "insertFragment f n d = Some (changed d rid r [(f, n)] [])"
proof -
  obtain x where x: "mget (tRequests d) rid = Some (r, x)" using row_cat[OF assms(1)] by blast
  then show ?thesis using assms(2,3) by (simp add: insertFragment_def changed_def mput_same)
qed

text \<open>A submission that commits something new.\<close>

lemma submitTx_commits:
  assumes a: "activeRow d sid = Some r" and row: "requestRow d (ReqID r) = Some r"
    and new: "stored d (ReqID r) sid n = None"
    and fits: "int (answerRunes d (ReqID r) + RuneCountInString t) \<le> OutputLimit r"
    and u: "uniqueFragment d (pgFragment (b 0) (ReqID r) sid n t now) (maxOrdinal d (ReqID r) + 1)"
  defines "full \<equiv> int (answerRunes d (ReqID r) + RuneCountInString t) \<ge> OutputLimit r"
  defines "es \<equiv> chargeOf b now r (tLedger d)"
  shows "submitTx b now sid n t d =
    (changed d (ReqID r) (if full then closed FinishLength now (streamed now r) else streamed now r)
       [(pgFragment (b 0) (ReqID r) sid n t now, maxOrdinal d (ReqID r) + 1)]
       (es @ (if full then rewardOf (b 2) now r (tLedger d @ es) else [])),
     Inr (pgFragment (b 0) (ReqID r) sid n t now, False, ReqID r, maxOrdinal d (ReqID r) + 1, full))"
proof -
  let ?rid = "ReqID r" and ?f = "pgFragment (b 0) (ReqID r) sid n t now" and ?o = "maxOrdinal d (ReqID r) + 1"
  let ?d1 = "changed d ?rid r [(?f, ?o)] []"
  let ?d2 = "if QuestionCharged r then ?d1
    else fst (updateRequest ?rid (\<lambda>_. True) (\<lambda>r. r\<lparr>QuestionCharged := True, FrozenPoints := 0\<rparr>) ?d1)"
  let ?d3 = "if \<not> QuestionCharged r \<and> \<not> RequesterGuest r
    then addLedgerTx (b 1) (RequesterID r) ?rid ''question_charge'' (- QuestionCost) now ?d2 else ?d2"
  let ?d4 = "fst (updateRequest ?rid (\<lambda>_. True) (\<lambda>r. r\<lparr>Status := StatusStreaming, UpdatedAt := now\<rparr>) ?d3)"
  have ins: "insertFragment ?f ?o d = Some ?d1" using row u by (intro insertFragment_row) (simp_all add: pgFragment_def)
  have d4: "?d4 = changed d ?rid (streamed now r) [(?f, ?o)] es"
    by (cases "QuestionCharged r"; cases "RequesterGuest r")
      (simp_all add: updateRequest_again addLedgerTx_again streamed_def es_def chargeOf_def)
  have sub: "submitTx b now sid n t d = ((if full then completeRequestTx (b 2) r FinishLength now ?d4 else ?d4),
      Inr (?f, False, ?rid, ?o, full))"
    using a new fits ins
    by (simp add: submitTx_def activeRequestTx_def stored_def pgFragment_def Let_def full_def)
  have fin: "completeRequestTx (b 2) r FinishLength now (changed d ?rid (streamed now r) [(?f, ?o)] es) =
      changed d ?rid (closed FinishLength now (streamed now r)) [(?f, ?o)] (es @ rewardOf (b 2) now r (tLedger d @ es))"
    by (simp add: completeRequestTx_row[where r = "streamed now r"] streamed_def notTerminalSQL_def closed_def
        changed_again rewardOf_def pgFragment_def)
  show ?thesis unfolding sub d4 fin by simp
qed

end
