(* ===== verification/PgSteps.thy ===== *)
theory PgSteps
  imports PgRows
begin

text \<open>
  What the transactions of the Postgres/Redis backend may do to the tables: the moves of one request
  (\<open>rowmove\<close>), the steps of the database (\<open>dbstep\<close>), and that every transaction body that commits is such a
  step. Identifiers of ledger entries are assumed not to repeat.
\<close>

section \<open>Moves\<close>

definition freshPts :: "pgdb \<Rightarrow> string \<Rightarrow> bool" where
  "freshPts d b \<longleftrightarrow> pgNewID ''pts'' b \<notin> PtsID ` set (tLedger d)"

definition adjustmentOf :: "string \<Rightarrow> time \<Rightarrow> Request \<Rightarrow> Reaction \<Rightarrow> PointEntry list \<Rightarrow> PointEntry list" where
  "adjustmentOf b now r reaction es =
     (if ResponderGuest r \<or> ResponderUserID r = [] \<or> pgRewardFor reaction = pgRewardFor (ReqReaction r) then []
      else credit es (pgEntry b (ResponderUserID r) (ReqID r) ''reaction_adjustment''
             (pgRewardFor reaction - pgRewardFor (ReqReaction r)) now))"

inductive rowmove :: "pgdb \<Rightarrow> string \<Rightarrow> Request \<Rightarrow> Request \<Rightarrow> (Fragment \<times> nat) list \<Rightarrow> PointEntry list \<Rightarrow> bool" for d rid r where
  Append: "\<lbrakk>Status r \<in> {StatusAssigned, StatusStreaming}; f = pgFragment (b 0) rid (ResponderSessionID r) n t now;
     o' = maxOrdinal d rid + 1; uniqueFragment d f o'; written = int (answerRunes d rid + RuneCountInString t);
     written \<le> OutputLimit r; freshPts d (b 1); freshPts d (b 2); b 1 \<noteq> b 2; es = chargeOf b now r (tLedger d)\<rbrakk> \<Longrightarrow>
     rowmove d rid r (if written \<ge> OutputLimit r then closed FinishLength now (streamed now r) else streamed now r)
       [(f, o')] (es @ (if written \<ge> OutputLimit r then rewardOf (b 2) now r (tLedger d @ es) else []))"
| Close: "\<lbrakk>Status r \<in> {StatusAssigned, StatusStreaming}; fragmentRows d rid \<noteq> []; freshPts d b'\<rbrakk> \<Longrightarrow>
     rowmove d rid r (closed reason now r) [] (rewardOf b' now r (tLedger d))"
| Requeue: "\<lbrakk>notTerminalSQL r; fragmentRows d rid = []\<rbrakk> \<Longrightarrow>
     rowmove d rid r ((clearResponder r)\<lparr>Status := StatusQueued, UpdatedAt := now\<rparr>) [] []"
| Abandon: "\<lbrakk>notTerminalSQL r; fragmentRows d rid = []\<rbrakk> \<Longrightarrow>
     rowmove d rid r ((clearResponder r)\<lparr>Status := StatusAbandoned, FrozenPoints := 0, UpdatedAt := now\<rparr>) [] []"
| Revoke: "\<lbrakk>Status r = StatusAssigned; fragmentRows d rid = []; PreferredResponderSessionID r \<noteq> []\<rbrakk> \<Longrightarrow>
     rowmove d rid r ((clearResponder r)\<lparr>Status := StatusAbandoned, UpdatedAt := now\<rparr>) [] []"
| Assign: "\<lbrakk>Status r = StatusQueued; sid \<noteq> []; PreferredResponderSessionID r = [] \<or> PreferredResponderSessionID r = sid\<rbrakk> \<Longrightarrow>
     rowmove d rid r (r\<lparr>Status := StatusAssigned, ResponderSessionID := sid, ResponderUserID := uid, ResponderGuest := g,
       ResponderKind := k, ResponderDisplay := dsp, UpdatedAt := now\<rparr>) [] []"
| React: "\<lbrakk>isTerminalStatus (Status r); \<not> is_zero_time (CompletedAt r); freshPts d b'\<rbrakk> \<Longrightarrow>
     rowmove d rid r (r\<lparr>ReqReaction := reaction\<rparr>) [] (adjustmentOf b' now r reaction (tLedger d))"

inductive dbstep :: "pgdb \<Rightarrow> pgdb \<Rightarrow> bool" where
  Move: "requestRow d rid = Some r \<Longrightarrow> rowmove d rid r r' fs es \<Longrightarrow> dbstep d (changed d rid r' fs es)"
| Create: "preferred \<noteq> [] \<longrightarrow> Guest sess \<Longrightarrow> frozen = (if Guest sess then 0 else QuestionCost) \<Longrightarrow>
     0 < limit \<Longrightarrow> limit \<le> OutputLimitChars \<Longrightarrow>
     createTx (pgNewRequest b sess model messages limit allowAI preferred frozen now) d = (d', Inr x) \<Longrightarrow> dbstep d d'"
| Register: "SesID sess \<noteq> [] \<Longrightarrow> SesKind sess = KindHuman \<Longrightarrow> PtsKind grant = ''signup_grant'' \<Longrightarrow>
     registerTx u grant sess d = (d', Inr x) \<Longrightarrow> dbstep d d'"
| OpenSession: "SesID sess \<noteq> [] \<Longrightarrow> SesKind sess = KindAIPersona \<longrightarrow> Guest sess \<Longrightarrow>
     createSessionTx sess d = (d', Inr x) \<Longrightarrow> dbstep d d'"
| Conversation: "dbstep d (d\<lparr>tConversations := cs, tMessages := ms\<rparr>)"

definition dbreach :: "pgdb \<Rightarrow> bool" where
  "dbreach d \<longleftrightarrow> dbstep\<^sup>*\<^sup>* emptyDB d"

lemma dbreach_step: "dbreach d \<Longrightarrow> dbstep\<^sup>*\<^sup>* d d' \<Longrightarrow> dbreach d'"
  unfolding dbreach_def by (rule rtranclp_trans)

section \<open>Well-formed tables\<close>

definition entriesOf :: "string \<Rightarrow> string \<Rightarrow> PointEntry list \<Rightarrow> (string \<times> int) list" where
  "entriesOf kind rid es = map (\<lambda>e. (PtsUserID e, Delta e)) (filter (\<lambda>e. PtsKind e = kind \<and> PtsRequestID e = rid) es)"

definition rewarded :: "Request \<Rightarrow> bool" where
  "rewarded r \<longleftrightarrow> Status r \<in> {StatusCompleted, StatusTimeoutCompleted} \<and> \<not> ResponderGuest r \<and> ResponderUserID r \<noteq> []"

text \<open>The state of a row, the fragments it has, and what the ledger holds for it.\<close>

definition rowStatus :: "Request \<Rightarrow> bool" where
  "rowStatus r \<longleftrightarrow>
     Status r \<in> (if QuestionCharged r then {StatusStreaming, StatusCompleted, StatusTimeoutCompleted}
                 else {StatusQueued, StatusAssigned, StatusAbandoned}) \<and>
     (Status r = StatusQueued \<longrightarrow> ResponderSessionID r = []) \<and>
     (Status r \<in> {StatusAssigned, StatusStreaming} \<longrightarrow> ResponderSessionID r \<noteq> []) \<and>
     (\<not> isTerminalStatus (Status r) \<longrightarrow> ReqReaction r = ReactionNone) \<and>
     (Status r \<notin> {StatusCompleted, StatusTimeoutCompleted} \<longrightarrow> CompletedAt r = 0) \<and>
     FrozenPoints r = (if \<not> RequesterGuest r \<and> Status r \<in> {StatusQueued, StatusAssigned} then QuestionCost else 0) \<and>
     (PreferredResponderSessionID r \<noteq> [] \<longrightarrow> RequesterGuest r) \<and> 0 < OutputLimit r"

definition rowAnswer :: "pgdb \<Rightarrow> string \<Rightarrow> Request \<Rightarrow> bool" where
  "rowAnswer d rid r \<longleftrightarrow>
     (QuestionCharged r \<longleftrightarrow> fragmentRows d rid \<noteq> []) \<and>
     map snd (fragmentRows d rid) = [1..<Suc (fragmentCount d rid)] \<and>
     int (answerRunes d rid) \<le> OutputLimit r \<and>
     (Status r = StatusStreaming \<longrightarrow> int (answerRunes d rid) < OutputLimit r)"

definition rowLedger :: "PointEntry list \<Rightarrow> string \<Rightarrow> Request \<Rightarrow> bool" where
  "rowLedger es rid r \<longleftrightarrow>
     entriesOf ''question_charge'' rid es = (if QuestionCharged r \<and> \<not> RequesterGuest r then [(RequesterID r, - QuestionCost)] else []) \<and>
     entriesOf ''answer_reward'' rid es = (if rewarded r then [(ResponderUserID r, BaseAnswerReward)] else []) \<and>
     (\<forall>x \<in> set (entriesOf ''reaction_adjustment'' rid es). rewarded r \<and> fst x = ResponderUserID r) \<and>
     (rewarded r \<longrightarrow> sum_list (map snd (entriesOf ''reaction_adjustment'' rid es)) = pgRewardFor (ReqReaction r) - BaseAnswerReward)"

definition rowOK :: "pgdb \<Rightarrow> string \<Rightarrow> Request \<Rightarrow> bool" where
  "rowOK d rid r \<longleftrightarrow> ReqID r = rid \<and> rowStatus r \<and> rowAnswer d rid r \<and> rowLedger (tLedger d) rid r"

definition rowsOK :: "pgdb \<Rightarrow> bool" where
  "rowsOK d \<longleftrightarrow> mwf (tRequests d) \<and> (\<forall>rid r. requestRow d rid = Some r \<longrightarrow> rowOK d rid r) \<and>
     (\<forall>x \<in> set (tFragments d). requestRow d (FrgRequestID (fst x)) \<noteq> None) \<and>
     (\<forall>e \<in> set (tLedger d). PtsKind e \<noteq> ''signup_grant'' \<longrightarrow> requestRow d (PtsRequestID e) \<noteq> None)"

text \<open>The keys and unique indexes of the schema, and the sessions of personas.\<close>

definition keysOK :: "pgdb \<Rightarrow> bool" where
  "keysOK d \<longleftrightarrow> distinct (map UsrID (tUsers d)) \<and> distinct (map AccountName (tUsers d)) \<and>
     distinct (map SesID (tSessions d)) \<and> distinct (map Token (tSessions d)) \<and>
     distinct (map (FrgID \<circ> fst) (tFragments d)) \<and>
     distinct (map (\<lambda>(f, _). (FrgRequestID f, FrgSessionID f, ClientSeq f)) (tFragments d)) \<and>
     distinct (map (\<lambda>(f, n). (FrgRequestID f, n)) (tFragments d)) \<and>
     distinct (map PtsID (tLedger d)) \<and>
     (\<forall>x \<in> set (tSessions d). SesID x \<noteq> [] \<and> (SesKind x = KindAIPersona \<longrightarrow> Guest x))"

lemma entriesOf_append [simp]: "entriesOf k rid (es @ es') = entriesOf k rid es @ entriesOf k rid es'"
  by (simp add: entriesOf_def)

lemma entriesOf_simps [simp]:
  "entriesOf k rid [] = []"
  "entriesOf k rid [e] = (if PtsKind e = k \<and> PtsRequestID e = rid then [(PtsUserID e, Delta e)] else [])"
  by (simp_all add: entriesOf_def)

lemma pgEntry_sel [simp]:
  "PtsID (pgEntry b uid rid kind delta now) = pgNewID ''pts'' b" "PtsUserID (pgEntry b uid rid kind delta now) = uid"
  "PtsRequestID (pgEntry b uid rid kind delta now) = rid" "PtsKind (pgEntry b uid rid kind delta now) = kind"
  "Delta (pgEntry b uid rid kind delta now) = delta"
  by (simp_all add: pgEntry_def)

lemma pgFragment_sel [simp]:
  "FrgID (pgFragment b rid sid n t now) = pgNewID ''frg'' b" "FrgRequestID (pgFragment b rid sid n t now) = rid"
  "FrgSessionID (pgFragment b rid sid n t now) = sid" "ClientSeq (pgFragment b rid sid n t now) = n"
  "FrgText (pgFragment b rid sid n t now) = t"
  by (simp_all add: pgFragment_def)

lemma pgNewID_inj [simp]: "pgNewID p b = pgNewID p b' \<longleftrightarrow> b = b'"
  by (auto simp: pgNewID_def dest: hexEncode_inj)

lemma pgNewID_not_Nil [simp]: "pgNewID p b \<noteq> []"
  by (simp add: pgNewID_def)

text \<open>A new entry is written when its kind does not clash.\<close>

lemma credit_charge:
  "entriesOf kind rid es = [] \<Longrightarrow> pgNewID ''pts'' b \<notin> PtsID ` set es \<Longrightarrow> kind \<noteq> ''signup_grant'' \<Longrightarrow>
     credit es (pgEntry b uid rid kind delta now) = [pgEntry b uid rid kind delta now]"
  by (auto simp: credit_def list_ex_iff ledgerConflict_def entriesOf_def filter_empty_conv image_iff)

lemma credit_adjustment:
  "pgNewID ''pts'' b \<notin> PtsID ` set es \<Longrightarrow>
     credit es (pgEntry b uid rid ''reaction_adjustment'' delta now) = [pgEntry b uid rid ''reaction_adjustment'' delta now]"
  by (auto simp: credit_def list_ex_iff ledgerConflict_def image_iff)

section \<open>Moves keep a row well-formed\<close>

lemma fold_max_upt: "fold max [1..<Suc n] (0::nat) = n"
proof (induction n)
  case (Suc n)
  have "[1..<Suc (Suc n)] = [1..<Suc n] @ [Suc n]" by simp
  then show ?case using Suc by (simp del: upt_Suc)
qed simp

lemma maxOrdinal_count: "rowAnswer d rid r \<Longrightarrow> maxOrdinal d rid = fragmentCount d rid"
  unfolding maxOrdinal_def rowAnswer_def by (metis fold_max_upt)

lemma answerRunes_append:
  "answerRunes (changed d rid r fs es) rid = answerRunes d rid +
     sum_list (map (\<lambda>(f, _). RuneCountInString (FrgText f)) (filter (\<lambda>(f, _). FrgRequestID f = rid) fs))"
  by (simp add: answerRunes_def)

lemma rowAnswer_same:
  assumes "rowAnswer d rid r" and "QuestionCharged r' = QuestionCharged r" and "OutputLimit r' = OutputLimit r"
    and "Status r' = StatusStreaming \<Longrightarrow> Status r = StatusStreaming"
  shows "rowAnswer (changed d rid r' [] es) rid r'"
  using assms by (simp add: rowAnswer_def fragmentCount_def answerRunes_append del: upt_Suc)

lemma rowAnswer_append:
  assumes r: "rowAnswer d rid r" and f: "FrgRequestID f = rid" "n = maxOrdinal d rid + 1"
    and lim: "int (answerRunes d rid + RuneCountInString (FrgText f)) \<le> OutputLimit r"
    and r': "QuestionCharged r'" "OutputLimit r' = OutputLimit r"
      "Status r' = StatusStreaming \<Longrightarrow> int (answerRunes d rid + RuneCountInString (FrgText f)) < OutputLimit r"
  shows "rowAnswer (changed d rid r' [(f, n)] es) rid r'"
proof -
  have "n = Suc (fragmentCount d rid)" using maxOrdinal_count[OF r] f by simp
  then have "map snd (fragmentRows d rid @ [(f, n)]) = [1..<Suc (Suc (fragmentCount d rid))]"
    using r by (simp add: rowAnswer_def)
  then show ?thesis using f(1) lim r' by (simp add: rowAnswer_def fragmentCount_def answerRunes_append)
qed

lemma streamed_sel [simp]:
  "Status (streamed now r) = StatusStreaming" "QuestionCharged (streamed now r)" "OutputLimit (streamed now r) = OutputLimit r"
  "ReqID (streamed now r) = ReqID r" "ResponderSessionID (streamed now r) = ResponderSessionID r"
  "ResponderGuest (streamed now r) = ResponderGuest r" "ResponderUserID (streamed now r) = ResponderUserID r"
  "RequesterGuest (streamed now r) = RequesterGuest r" "RequesterID (streamed now r) = RequesterID r"
  "ReqReaction (streamed now r) = ReqReaction r" "CompletedAt (streamed now r) = CompletedAt r"
  "PreferredResponderSessionID (streamed now r) = PreferredResponderSessionID r"
  "FrozenPoints (streamed now r) = (if QuestionCharged r then FrozenPoints r else 0)" "ReqFinish (streamed now r) = ReqFinish r"
  by (simp_all add: streamed_def)

lemma closed_sel [simp]:
  "Status (closed reason now r) = (if reason = FinishPartial then StatusTimeoutCompleted else StatusCompleted)"
  "QuestionCharged (closed reason now r) = QuestionCharged r" "OutputLimit (closed reason now r) = OutputLimit r"
  "ReqID (closed reason now r) = ReqID r" "ResponderSessionID (closed reason now r) = ResponderSessionID r"
  "ResponderGuest (closed reason now r) = ResponderGuest r" "ResponderUserID (closed reason now r) = ResponderUserID r"
  "RequesterGuest (closed reason now r) = RequesterGuest r" "RequesterID (closed reason now r) = RequesterID r"
  "ReqReaction (closed reason now r) = ReqReaction r" "FrozenPoints (closed reason now r) = FrozenPoints r"
  "PreferredResponderSessionID (closed reason now r) = PreferredResponderSessionID r"
  "CompletedAt (closed reason now r) = now" "ReqFinish (closed reason now r) = reason"
  by (simp_all add: closed_def)

lemma rowStatus_streamed:
  assumes "rowStatus r" and "Status r \<in> {StatusAssigned, StatusStreaming}"
  shows "rowStatus (streamed now r)"
proof -
  consider "Status r = StatusAssigned" "\<not> QuestionCharged r" | "Status r = StatusStreaming" "QuestionCharged r"
    using assms that by (cases "QuestionCharged r") (auto simp: rowStatus_def)
  then show ?thesis by cases (use assms in \<open>simp_all add: rowStatus_def isTerminalStatus_def\<close>)
qed

lemma rowStatus_closed:
  "rowStatus r \<Longrightarrow> Status r = StatusStreaming \<Longrightarrow> rowStatus (closed reason now r)"
  by (cases "QuestionCharged r") (auto simp: rowStatus_def isTerminalStatus_def)

lemma rowmove_status:
  assumes "rowOK d rid r" and "rowmove d rid r r' fs es"
  shows "ReqID r' = rid \<and> rowStatus r'"
proof -
  have r: "ReqID r = rid" "rowStatus r" "QuestionCharged r \<longleftrightarrow> fragmentRows d rid \<noteq> []"
    using assms(1) by (simp_all add: rowOK_def rowAnswer_def)
  show ?thesis
    using assms(2)
  proof (cases rule: rowmove.cases)
    case (Append f b n t now o' written es')
    show ?thesis using r rowStatus_streamed[OF r(2) Append(4)] unfolding Append(1) by (auto intro: rowStatus_closed)
  next
    case (Close b' reason now)
    then have "Status r = StatusStreaming" using r by (auto simp: rowStatus_def split: if_splits)
    then show ?thesis using r unfolding Close(1) by (simp add: rowStatus_closed)
  next
    case (Requeue now)
    then have "Status r \<in> {StatusQueued, StatusAssigned}" using r by (auto simp: rowStatus_def notTerminalSQL_def split: if_splits)
    then show ?thesis using r Requeue(5) unfolding Requeue(1)
      by (auto simp: rowStatus_def clearResponder_def isTerminalStatus_def)
  next
    case (Abandon now)
    then show ?thesis using r unfolding Abandon(1)
      by (simp add: rowStatus_def clearResponder_def isTerminalStatus_def notTerminalSQL_def)
  next
    case (Revoke now)
    then show ?thesis using r unfolding Revoke(1) by (simp add: rowStatus_def clearResponder_def isTerminalStatus_def)
  next
    case (Assign sid uid g k dsp now)
    then show ?thesis using r unfolding Assign(1)
      by (cases "QuestionCharged r") (simp_all add: rowStatus_def isTerminalStatus_def)
  next
    case (React b' reaction now)
    then show ?thesis using r unfolding React(1) by (simp add: rowStatus_def)
  qed
qed

lemma rowmove_answer:
  assumes "rowOK d rid r" and "rowmove d rid r r' fs es"
  shows "rowAnswer (changed d rid r' fs es) rid r'"
proof -
  have a: "rowAnswer d rid r" using assms(1) by (simp add: rowOK_def)
  show ?thesis
    using assms(2)
  proof (cases rule: rowmove.cases)
    case (Append f b n t now o' written es')
    show ?thesis unfolding Append(1-3) by (rule rowAnswer_append[OF a]) (use Append in \<open>auto split: if_splits\<close>)
  next
    case (Close b' reason now)
    show ?thesis unfolding Close(1-3) by (rule rowAnswer_same[OF a]) (simp_all split: if_splits)
  next
    case (Requeue now)
    show ?thesis unfolding Requeue(1-3) by (rule rowAnswer_same[OF a]) (simp_all add: clearResponder_def)
  next
    case (Abandon now)
    show ?thesis unfolding Abandon(1-3) by (rule rowAnswer_same[OF a]) (simp_all add: clearResponder_def)
  next
    case (Revoke now)
    show ?thesis unfolding Revoke(1-3) by (rule rowAnswer_same[OF a]) (simp_all add: clearResponder_def)
  next
    case (Assign sid uid g k dsp now)
    show ?thesis unfolding Assign(1-3) by (rule rowAnswer_same[OF a]) simp_all
  next
    case (React b' reaction now)
    show ?thesis unfolding React(1-3) by (rule rowAnswer_same[OF a]) simp_all
  qed
qed

lemma rowLedger_same:
  assumes "rowLedger es rid r" and "QuestionCharged r' = QuestionCharged r" and "RequesterGuest r' = RequesterGuest r"
    and "RequesterID r' = RequesterID r" and "\<not> rewarded r" and "\<not> rewarded r'"
  shows "rowLedger es rid r'"
  using assms by (simp add: rowLedger_def)

lemma rowLedger_other:
  assumes "rowLedger es rid r" and "\<And>e. e \<in> set es' \<Longrightarrow> PtsRequestID e \<noteq> rid \<or> PtsKind e = ''signup_grant''"
  shows "rowLedger (es @ es') rid r"
proof -
  have "entriesOf k rid es' = []" if "k \<noteq> ''signup_grant''" for k
    using assms(2) that by (auto simp: entriesOf_def filter_empty_conv)
  then show ?thesis using assms(1) by (simp add: rowLedger_def)
qed

lemma rowLedger_charge:
  assumes r: "rowLedger es rid r" "ReqID r = rid" and b: "pgNewID ''pts'' (b 1) \<notin> PtsID ` set es"
    and n: "\<not> rewarded r"
  shows "rowLedger (es @ chargeOf b now r es) rid (streamed now r)"
proof (cases "QuestionCharged r \<or> RequesterGuest r")
  case True
  then have "chargeOf b now r es = []" by (auto simp: chargeOf_def)
  then show ?thesis using r n True by (auto simp: rowLedger_def rewarded_def)
next
  case False
  then have "chargeOf b now r es = [pgEntry (b 1) (RequesterID r) (ReqID r) ''question_charge'' (- QuestionCost) now]"
    using r b by (simp add: chargeOf_def rowLedger_def credit_charge)
  moreover have "\<not> rewarded (streamed now r)" by (simp add: rewarded_def)
  ultimately show ?thesis using r n False by (simp add: rowLedger_def)
qed

lemma rowLedger_reward:
  assumes r: "rowLedger es rid r" "ReqID r = rid" and b: "pgNewID ''pts'' b \<notin> PtsID ` set es"
    and n: "\<not> rewarded r" "ReqReaction r = ReactionNone"
  shows "rowLedger (es @ rewardOf b now r es) rid (closed reason now r)"
proof (cases "ResponderGuest r \<or> ResponderUserID r = []")
  case True
  then have "rewardOf b now r es = []" by (auto simp: rewardOf_def)
  then show ?thesis using r n True by (auto simp: rowLedger_def rewarded_def)
next
  case False
  then have e: "rewardOf b now r es = [pgEntry b (ResponderUserID r) (ReqID r) ''answer_reward'' BaseAnswerReward now]"
    using r b n by (simp add: rewardOf_def rowLedger_def credit_charge)
  have "entriesOf ''reaction_adjustment'' rid es = []"
    using r(1) n(1) by (cases "entriesOf ''reaction_adjustment'' rid es") (auto simp: rowLedger_def)
  then show ?thesis using r n False by (simp add: e rowLedger_def rewarded_def pgRewardFor_def)
qed

lemma rowLedger_react:
  assumes r: "rowLedger es rid r" "ReqID r = rid" and b: "pgNewID ''pts'' b \<notin> PtsID ` set es"
    and t: "Status r \<in> {StatusCompleted, StatusTimeoutCompleted}"
  shows "rowLedger (es @ adjustmentOf b now r reaction es) rid (r\<lparr>ReqReaction := reaction\<rparr>)"
proof (cases "ResponderGuest r \<or> ResponderUserID r = [] \<or> pgRewardFor reaction = pgRewardFor (ReqReaction r)")
  case True
  then have "adjustmentOf b now r reaction es = []" by (auto simp: adjustmentOf_def)
  then show ?thesis using r t True by (auto simp: rowLedger_def rewarded_def)
next
  case False
  then have "adjustmentOf b now r reaction es =
      [pgEntry b (ResponderUserID r) (ReqID r) ''reaction_adjustment'' (pgRewardFor reaction - pgRewardFor (ReqReaction r)) now]"
    using b by (simp add: adjustmentOf_def credit_adjustment)
  then show ?thesis using r t False by (auto simp: rowLedger_def rewarded_def)
qed

lemma rewarded_over: "rewarded r \<Longrightarrow> isTerminalStatus (Status r)"
  by (auto simp: rewarded_def isTerminalStatus_def)

lemma rowmove_ledger:
  assumes "rowOK d rid r" and "rowmove d rid r r' fs es"
  shows "rowLedger (tLedger d @ es) rid r'"
proof -
  have r: "rowLedger (tLedger d) rid r" "ReqID r = rid" "rowStatus r" using assms(1) by (simp_all add: rowOK_def)
  have same: "rowLedger (tLedger d @ []) rid x"
    if "QuestionCharged x = QuestionCharged r" "RequesterGuest x = RequesterGuest r" "RequesterID x = RequesterID r"
       "\<not> rewarded r" "\<not> rewarded x" for x
    using rowLedger_same[OF r(1) that] by simp
  show ?thesis
    using assms(2)
  proof (cases rule: rowmove.cases)
    case (Append f b n t now o' written es')
    have n: "\<not> rewarded r" using Append(4) by (auto simp: rewarded_def)
    have c: "rowLedger (tLedger d @ es') rid (streamed now r)"
      unfolding Append(13) using Append(10) by (intro rowLedger_charge[OF r(1,2) _ n]) (simp add: freshPts_def)
    have "pgNewID ''pts'' (b 2) \<notin> PtsID ` set (tLedger d @ es')"
      using Append(11,12) by (auto simp: freshPts_def Append(13) chargeOf_def credit_def split: if_splits)
    moreover have "\<not> rewarded (streamed now r)" "ReqReaction (streamed now r) = ReactionNone"
      using r(3) Append(4) by (auto simp: rewarded_def rowStatus_def isTerminalStatus_def)
    moreover have "rewardOf (b 2) now (streamed now r) es'' = rewardOf (b 2) now r es''" for es'' by (simp add: rewardOf_def)
    ultimately have "rowLedger ((tLedger d @ es') @ rewardOf (b 2) now r (tLedger d @ es')) rid
        (closed FinishLength now (streamed now r))"
      using rowLedger_reward[OF c, of "b 2" now FinishLength] r(2) by simp
    then show ?thesis unfolding Append(1,3) using c by simp
  next
    case (Close b' reason now)
    then show ?thesis unfolding Close(1,3)
      using r by (intro rowLedger_reward) (auto simp: freshPts_def rewarded_def rowStatus_def isTerminalStatus_def)
  next
    case (Requeue now)
    then show ?thesis unfolding Requeue(1,3) by (intro same) (auto simp: clearResponder_def rewarded_def notTerminalSQL_def)
  next
    case (Abandon now)
    then show ?thesis unfolding Abandon(1,3) by (intro same) (auto simp: clearResponder_def rewarded_def notTerminalSQL_def)
  next
    case (Revoke now)
    then show ?thesis unfolding Revoke(1,3) by (intro same) (auto simp: clearResponder_def rewarded_def)
  next
    case (Assign sid uid g k dsp now)
    then show ?thesis unfolding Assign(1,3) by (intro same) (auto simp: rewarded_def)
  next
    case (React b' reaction now)
    then have "Status r \<in> {StatusCompleted, StatusTimeoutCompleted}" using r(3) by (auto simp: rowStatus_def is_zero_time_def)
    then show ?thesis unfolding React(1,3) using r React(6) by (intro rowLedger_react) (simp_all add: freshPts_def)
  qed
qed

lemma rowmove_ok:
  assumes "rowOK d rid r" and "rowmove d rid r r' fs es"
  shows "rowOK (changed d rid r' fs es) rid r'"
  using rowmove_status[OF assms] rowmove_answer[OF assms] rowmove_ledger[OF assms] by (simp add: rowOK_def)


section \<open>Steps keep the tables well-formed\<close>

lemma credit_subset: "set (credit es e) \<subseteq> {e}"
  by (simp add: credit_def)

lemma rowmove_adds:
  assumes "rowmove d rid r r' fs es" and "ReqID r = rid"
  shows "\<forall>x \<in> set fs. FrgRequestID (fst x) = rid" "\<forall>e \<in> set es. PtsRequestID e = rid \<and> PtsKind e \<noteq> ''signup_grant''"
  using assms credit_subset
  by (cases rule: rowmove.cases; fastforce simp: chargeOf_def rewardOf_def adjustmentOf_def split: if_splits)+

lemma rowOK_elsewhere:
  assumes "rowOK d k x" and "k \<noteq> rid" and "\<forall>x \<in> set fs. FrgRequestID (fst x) = rid"
    and "\<forall>e \<in> set es. PtsRequestID e = rid"
  shows "rowOK (changed d rid r' fs es) k x"
proof -
  have f: "filter (\<lambda>(f, _). FrgRequestID f = k) fs = []" using assms(2,3) by (auto simp: filter_empty_conv)
  have "rowLedger (tLedger d @ es) k x" using assms by (intro rowLedger_other) (auto simp: rowOK_def)
  then show ?thesis using assms(1) by (simp add: rowOK_def rowAnswer_def fragmentCount_def answerRunes_def f)
qed

lemma rowsOK_move:
  assumes d: "rowsOK d" and row: "requestRow d rid = Some r" and m: "rowmove d rid r r' fs es"
  shows "rowsOK (changed d rid r' fs es)"
proof -
  have ok: "rowOK d rid r" using d row by (simp add: rowsOK_def)
  have adds: "\<forall>x \<in> set fs. FrgRequestID (fst x) = rid" "\<forall>e \<in> set es. PtsRequestID e = rid"
    using rowmove_adds[OF m] ok by (simp_all add: rowOK_def)
  have "rowOK (changed d rid r' fs es) k x" if "requestRow (changed d rid r' fs es) k = Some x" for k x
  proof (cases "k = rid")
    case True
    then show ?thesis using that rowmove_ok[OF ok m] by simp
  next
    case False
    then show ?thesis using that d adds by (intro rowOK_elsewhere) (auto simp: rowsOK_def)
  qed
  then show ?thesis using d adds by (auto simp: rowsOK_def mwf_changed)
qed

lemma rowOK_tables:
  "requestRow d' = requestRow d \<Longrightarrow> tFragments d' = tFragments d \<Longrightarrow> rowLedger (tLedger d') rid r \<Longrightarrow>
     rowOK d rid r \<Longrightarrow> rowOK d' rid r"
  by (simp add: rowOK_def rowAnswer_def fragmentRows_def fragmentCount_def answerRunes_def)

lemma rowsOK_create:
  assumes d: "rowsOK d" and new: "createTx (pgNewRequest b sess model messages limit allowAI preferred frozen now) d = (d', Inr x)"
    and p: "preferred \<noteq> [] \<longrightarrow> Guest sess" "frozen = (if Guest sess then 0 else QuestionCost)" "0 < limit"
  shows "rowsOK d'"
proof -
  let ?r = "pgNewRequest b sess model messages limit allowAI preferred frozen now" and ?rid = "pgNewID ''req'' b"
  have rid: "ReqID ?r = ?rid" by (simp add: pgNewRequest_def)
  have none: "mget (tRequests d) ?rid = None"
    using new by (cases "mget (tRequests d) ?rid") (simp_all add: createTx_def insertRequest_def rid split: prod.splits)
  have d': "d' = d\<lparr>tRequests := mput ?rid (?r, QuestionCategory (Messages ?r)) (tRequests d)\<rparr>"
    using new none by (simp add: createTx_def insertRequest_def rid)
  have rows: "requestRow d' k = (if k = ?rid then Some ?r else requestRow d k)" for k
    by (simp add: requestRow_def d' scanRequest_def)
  have no_row: "requestRow d ?rid = None" using none by (simp add: requestRow_def)
  have f: "fragmentRows d' ?rid = []" using d no_row by (auto simp: d' fragmentRows_def filter_empty_conv rowsOK_def)
  have l: "entriesOf k ?rid (tLedger d') = []" if "k \<noteq> ''signup_grant''" for k
    using d no_row that by (auto simp: d' entriesOf_def filter_empty_conv rowsOK_def)
  have "rowStatus ?r" using p by (simp add: pgNewRequest_def rowStatus_def)
  moreover have "rowAnswer d' ?rid ?r" using p by (simp add: rowAnswer_def fragmentCount_def answerRunes_def f pgNewRequest_def)
  moreover have "rowLedger (tLedger d') ?rid ?r" by (simp add: rowLedger_def l rewarded_def pgNewRequest_def)
  ultimately have "rowOK d' ?rid ?r" by (simp add: rowOK_def pgNewRequest_def)
  moreover have "rowOK d' k y" if "rowOK d k y" for k y
    using that by (simp add: rowOK_def rowAnswer_def fragmentRows_def fragmentCount_def answerRunes_def d')
  moreover have "mwf (tRequests d')" "tFragments d' = tFragments d" "tLedger d' = tLedger d"
    using d by (simp_all add: d' rowsOK_def)
  ultimately show ?thesis using d unfolding rowsOK_def rows by auto
qed

lemma rowsOK_ledger:
  assumes d: "rowsOK d" and same: "tRequests d' = tRequests d" "tFragments d' = tFragments d"
    and l: "tLedger d' = tLedger d @ es" "\<forall>e \<in> set es. PtsKind e = ''signup_grant''"
  shows "rowsOK d'"
proof -
  have rows: "requestRow d' = requestRow d" by (intro ext) (simp add: requestRow_def same)
  have "rowOK d' rid r" if "rowOK d rid r" for rid r
    using rowOK_tables[OF rows same(2) _ that] that l by (simp add: rowOK_def rowLedger_other)
  then show ?thesis using d l unfolding rowsOK_def rows same by auto
qed

lemma registerTx_tables:
  assumes "registerTx u grant sess d = (d', Inr x)"
  shows "d' = d\<lparr>tUsers := tUsers d @ [u], tLedger := tLedger d @ [grant], tSessions := tSessions d @ [sess]\<rparr>"
    and "\<not> list_ex (\<lambda>v. UsrID v = UsrID u \<or> AccountName v = AccountName u) (tUsers d)"
    and "\<not> list_ex (ledgerConflict grant) (tLedger d)"
    and "\<not> list_ex (\<lambda>y. SesID y = SesID sess \<or> Token y = Token sess) (tSessions d)"
  using assms by (auto simp: registerTx_def insertUser_def insertLedger_def insertSession_def split: if_splits)

lemma createSessionTx_tables:
  assumes "createSessionTx sess d = (d', Inr x)"
  shows "d' = d\<lparr>tSessions := tSessions d @ [sess]\<rparr>"
    and "\<not> list_ex (\<lambda>y. SesID y = SesID sess \<or> Token y = Token sess) (tSessions d)"
  using assms by (auto simp: createSessionTx_def insertSession_def split: if_splits)

lemma rowsOK_step: "dbstep d d' \<Longrightarrow> rowsOK d \<Longrightarrow> rowsOK d'"
proof (induction rule: dbstep.induct)
  case (Move d rid r r' fs es)
  then show ?case by (blast intro: rowsOK_move)
next
  case (Create preferred sess frozen limit b model messages allowAI now d d' x)
  then show ?case by (blast intro: rowsOK_create)
next
  case (Register sess grant u d d' x)
  show ?case unfolding registerTx_tables(1)[OF Register(4)]
    by (rule rowsOK_ledger[OF Register(5), where es = "[grant]"]) (simp_all add: Register(3))
next
  case (OpenSession sess d d' x)
  show ?case unfolding createSessionTx_tables(1)[OF OpenSession(3)]
    by (rule rowsOK_ledger[OF OpenSession(4), where es = "[]"]) simp_all
next
  case (Conversation d cs ms)
  then show ?case by (rule rowsOK_ledger[where es = "[]"]) simp_all
qed

lemma rowsOK_steps: "dbstep\<^sup>*\<^sup>* d d' \<Longrightarrow> rowsOK d \<Longrightarrow> rowsOK d'"
  by (induction rule: rtranclp_induct) (auto intro: rowsOK_step)

lemma rowsOK_reach: "dbreach d \<Longrightarrow> rowsOK d"
  unfolding dbreach_def by (erule rowsOK_steps) (simp add: rowsOK_def emptyDB_def requestRow_def)

lemma distinct_append1: "distinct (map f xs) \<Longrightarrow> f x \<notin> f ` set xs \<Longrightarrow> distinct (map f (xs @ [x]))"
  by simp

lemma credit_key:
  assumes "distinct (map PtsID es)" and "pgNewID ''pts'' b \<notin> PtsID ` set es"
  shows "distinct (map PtsID (es @ credit es (pgEntry b uid rid kind delta now)))"
  using assms by (simp add: credit_def)

lemma rowmove_keys:
  assumes m: "rowmove d rid r r' fs es" and d: "distinct (map PtsID (tLedger d))"
  shows "distinct (map PtsID (tLedger d @ es))"
  using m
proof (cases rule: rowmove.cases)
  case (Append f b n t now o' written es')
  have c: "distinct (map PtsID (tLedger d @ es'))"
    using Append(10) credit_key[OF d, of "b 1"] d unfolding Append(13) chargeOf_def freshPts_def by (auto split: if_splits)
  have "pgNewID ''pts'' (b 2) \<notin> PtsID ` set (tLedger d @ es')"
    using Append(11,12) by (auto simp: freshPts_def Append(13) chargeOf_def credit_def split: if_splits)
  then show ?thesis using credit_key[OF c, of "b 2"] c unfolding Append(3) rewardOf_def by (auto split: if_splits)
next
  case (Close b' reason now)
  then show ?thesis using credit_key[OF d, of b'] d by (simp add: rewardOf_def freshPts_def)
next
  case (React b' reaction now)
  then show ?thesis using credit_key[OF d, of b'] d by (simp add: adjustmentOf_def freshPts_def)
qed (use d in simp_all)

lemma rowmove_fragments: "rowmove d rid r r' fs es \<Longrightarrow> fs = [] \<or> (\<exists>f n. fs = [(f, n)] \<and> uniqueFragment d f n)"
  by (cases rule: rowmove.cases) auto

lemma keysOK_fragment:
  assumes "keysOK d" and "uniqueFragment d f n"
  shows "distinct (map (FrgID \<circ> fst) (tFragments d @ [(f, n)]))"
    and "distinct (map (\<lambda>(f, _). (FrgRequestID f, FrgSessionID f, ClientSeq f)) (tFragments d @ [(f, n)]))"
    and "distinct (map (\<lambda>(f, n). (FrgRequestID f, n)) (tFragments d @ [(f, n)]))"
  using assms by (intro distinct_append1; fastforce simp: keysOK_def uniqueFragment_def)+

lemma keysOK_step: "dbstep d d' \<Longrightarrow> keysOK d \<Longrightarrow> keysOK d'"
proof (induction rule: dbstep.induct)
  case (Move d rid r r' fs es)
  have "distinct (map PtsID (tLedger d @ es))" using rowmove_keys[OF Move(2)] Move(3) by (simp add: keysOK_def)
  then show ?case using rowmove_fragments[OF Move(2)] keysOK_fragment[OF Move(3)] Move(3) unfolding keysOK_def changed_tables
    by (elim disjE exE conjE) simp_all
next
  case (Create preferred sess frozen limit b model messages allowAI now d d' x)
  then show ?case by (auto simp: keysOK_def createTx_def insertRequest_def split: if_splits)
next
  case (Register sess grant u d d' x)
  note t = registerTx_tables[OF Register(4)]
  show ?case using Register(1,2,5) t(2-4) unfolding t(1)
    by (auto simp: keysOK_def list_ex_iff ledgerConflict_def KindHuman_def KindAIPersona_def)
next
  case (OpenSession sess d d' x)
  note t = createSessionTx_tables[OF OpenSession(3)]
  show ?case using OpenSession(1,2,4) t(2) unfolding t(1) by (auto simp: keysOK_def list_ex_iff)
next
  case (Conversation d cs ms)
  then show ?case by (simp add: keysOK_def)
qed

lemma keysOK_steps: "dbstep\<^sup>*\<^sup>* d d' \<Longrightarrow> keysOK d \<Longrightarrow> keysOK d'"
  by (induction rule: rtranclp_induct) (auto intro: keysOK_step)

lemma keysOK_reach: "dbreach d \<Longrightarrow> keysOK d"
  unfolding dbreach_def by (erule keysOK_steps) (simp add: keysOK_def emptyDB_def)

end
