(* ===== verification/PgRefine.thy ===== *)
theory PgRefine
  imports PgSteps
begin

text \<open>
  Every transaction of the Postgres/Redis backend that commits makes a step of the database, and one that
  reports an error leaves the tables as they were.
\<close>

lemma rowsOK_row: "rowsOK d \<Longrightarrow> requestRow d rid = Some r \<Longrightarrow> rowOK d rid r"
  by (simp add: rowsOK_def)

lemma active_row:
  assumes d: "rowsOK d" and a: "activeRow d sid = Some r" and sid: "sid \<noteq> []"
  shows "requestRow d (ReqID r) = Some r" "Status r \<in> {StatusAssigned, StatusStreaming}" "ResponderSessionID r = sid"
    "notTerminalSQL r"
proof -
  note r = activeRow_in[OF a]
  show row: "requestRow d (ReqID r) = Some r"
    using d by (intro in_rows[OF r(1)]) (auto simp: rowsOK_def rowOK_def)
  have "rowStatus r" using rowsOK_row[OF d row] by (simp add: rowOK_def)
  then show "Status r \<in> {StatusAssigned, StatusStreaming}"
    using r(2,3) sid by (cases "QuestionCharged r") (auto simp: rowStatus_def notTerminalSQL_def)
  show "ResponderSessionID r = sid" "notTerminalSQL r" by (fact r)+
qed

lemma Move_step: "requestRow d rid = Some r \<Longrightarrow> rowmove d rid r r' fs es \<Longrightarrow> d' = changed d rid r' fs es \<Longrightarrow> dbstep\<^sup>*\<^sup>* d d'"
  by (auto intro: dbstep.Move)

lemma submitTx_step:
  assumes d: "rowsOK d" and sid: "sid \<noteq> []" and b: "freshPts d (b 1)" "freshPts d (b 2)" "b 1 \<noteq> b 2"
    and tx: "submitTx b now sid n t d = (d', Inr x)"
  shows "dbstep\<^sup>*\<^sup>* d d'"
proof -
  obtain r where a: "activeRow d sid = Some r" using tx by (auto simp: submitTx_def activeRequestTx_def split: option.splits)
  note r = active_row[OF d a sid]
  show ?thesis
  proof (cases "stored d (ReqID r) sid n")
    case (Some p)
    then show ?thesis using tx a by (auto simp: submitTx_def activeRequestTx_def stored_def split: prod.splits)
  next
    case None
    have fits: "int (answerRunes d (ReqID r) + RuneCountInString t) \<le> OutputLimit r"
      using tx a None by (auto simp: submitTx_def activeRequestTx_def stored_def Let_def split: if_splits)
    have u: "uniqueFragment d (pgFragment (b 0) (ReqID r) sid n t now) (maxOrdinal d (ReqID r) + 1)"
    proof (rule ccontr)
      assume "\<not> ?thesis"
      then have "insertFragment (pgFragment (b 0) (ReqID r) sid n t now) (maxOrdinal d (ReqID r) + 1) d = None"
        by (simp add: insertFragment_def)
      then show False using tx a None fits
        by (simp add: submitTx_def activeRequestTx_def stored_def pgFragment_def Let_def split: if_splits)
    qed
    note c = submitTx_commits[where b = b and n = n and t = t and now = now, OF a r(1) None fits u]
    note m = rowmove.Append[where b = b and n = n and t = t and now = now, OF r(2) refl refl _ refl fits b refl]
    show ?thesis
      by (rule Move_step[OF r(1) m]) (use u c tx in \<open>simp_all only: r(3) prod.inject\<close>)
  qed
qed

lemma finishTx_step:
  assumes d: "rowsOK d" and sid: "sid \<noteq> []" and b: "freshPts d b" and tx: "finishTx b now sid d = (d', Inr x)"
  shows "dbstep\<^sup>*\<^sup>* d d'"
proof -
  obtain r where a: "activeRow d sid = Some r" using tx by (auto simp: finishTx_def activeRequestTx_def split: option.splits)
  note r = active_row[OF d a sid]
  have f: "fragmentRows d (ReqID r) \<noteq> []" and d': "d' = completeRequestTx b r FinishStop now d"
    using tx a by (auto simp: finishTx_def activeRequestTx_def fragmentCount_def split: if_splits)
  show ?thesis using f by (intro Move_step[OF r(1) rowmove.Close[OF r(2) f b, where reason = FinishStop and now = now]])
    (simp add: d' completeRequestTx_row[OF r(1,4)] closed_def rewardOf_def)
qed

lemma requeue_move:
  "requestRow d rid = Some r \<Longrightarrow> notTerminalSQL r \<Longrightarrow>
     requeueRequestTx rid now d = changed d rid ((clearResponder r)\<lparr>Status := StatusQueued, UpdatedAt := now\<rparr>) [] []"
  by (simp add: requeueRequestTx_def updateRequest_row)

lemma abandon_move:
  "requestRow d rid = Some r \<Longrightarrow> notTerminalSQL r \<Longrightarrow>
     abandonRequestTx rid now d =
       changed d rid ((clearResponder r)\<lparr>Status := StatusAbandoned, FrozenPoints := 0, UpdatedAt := now\<rparr>) [] []"
  by (simp add: abandonRequestTx_def updateRequest_row)

lemma notTerminal_iff: "notTerminalSQL r \<longleftrightarrow> \<not> isTerminalStatus (Status r)"
  by (auto simp: notTerminalSQL_def isTerminalStatus_def)

lemma skipTx_step:
  assumes d: "rowsOK d" and sid: "sid \<noteq> []" and tx: "skipTx now sid d = (d', Inr x)"
  shows "dbstep\<^sup>*\<^sup>* d d'"
proof -
  obtain r where a: "activeRow d sid = Some r" using tx by (auto simp: skipTx_def activeRequestTx_def split: option.splits)
  note r = active_row[OF d a sid]
  have f: "fragmentRows d (ReqID r) = []"
    and d': "d' = (if RequesterKind r = KindAIPersona then abandonRequestTx (ReqID r) now d else requeueRequestTx (ReqID r) now d)"
    using tx a by (auto simp: skipTx_def activeRequestTx_def fragmentCount_def split: if_splits)
  show ?thesis
    using Move_step[OF r(1) rowmove.Abandon[OF r(4) f]] Move_step[OF r(1) rowmove.Requeue[OF r(4) f]]
    unfolding d' requeue_move[OF r(1,4)] abandon_move[OF r(1,4)] by (auto split: if_splits)
qed

lemma acquireTx_step:
  assumes d: "rowsOK d" and tx: "acquireTx now rid d = (d', Inr x)"
  shows "dbstep\<^sup>*\<^sup>* d d'"
proof -
  obtain r where row: "requestRow d rid = Some r" using tx by (auto simp: acquireTx_def split: option.splits)
  have id: "ReqID r = rid" using rowsOK_row[OF d row] by (simp add: rowOK_def)
  show ?thesis
    by (rule Move_step[OF row rowmove.Assign[where sid = "''fallback_'' @ rid" and uid = "[]" and g = True
        and k = KindFallback and dsp = fallbackDisplay and now = now]])
      (use tx row in \<open>auto simp: acquireTx_def id updateRequest_row split: if_splits\<close>)
qed

lemma cancelTx_step:
  assumes d: "rowsOK d" and tx: "cancelTx now rid d = (d', Inr x)"
  shows "dbstep\<^sup>*\<^sup>* d d'"
proof -
  obtain r where row: "requestRow d rid = Some r" using tx by (auto simp: cancelTx_def split: option.splits)
  have id: "ReqID r = rid" using rowsOK_row[OF d row] by (simp add: rowOK_def)
  show ?thesis
    by (rule Move_step[OF row rowmove.Abandon[where now = now]])
      (use tx row in \<open>auto simp: cancelTx_def id updateRequest_row fragmentCount_def notTerminal_iff split: if_splits\<close>)
qed

lemma reactTx_step:
  assumes d: "rowsOK d" and b: "freshPts d b" and tx: "reactTx b now sess rid reaction d = (d', Inr x)"
  shows "dbstep\<^sup>*\<^sup>* d d'"
proof -
  obtain r where row: "requestRow d rid = Some r" using tx by (auto simp: reactTx_def split: option.splits)
  have id: "ReqID r = rid" using rowsOK_row[OF d row] by (simp add: rowOK_def)
  show ?thesis
    by (rule Move_step[OF row rowmove.React[where reaction = reaction and now = now, OF _ _ b]])
      (use tx row in \<open>auto simp: reactTx_def id updateRequest_row addLedgerTx_again adjustmentOf_def Let_def split: if_splits\<close>)
qed

lemma assignTx_step:
  assumes sid: "sid \<noteq> []" and tx: "assignTx now rid sid ses d = (d', Inr x)"
  shows "dbstep\<^sup>*\<^sup>* d d'"
proof (cases "requestRow d rid")
  case None
  then show ?thesis using tx by (simp add: assignTx_def updateRequest_none)
next
  case (Some r)
  show ?thesis
  proof (cases "Status r = StatusQueued \<and> (PreferredResponderSessionID r = [] \<or> PreferredResponderSessionID r = sid)")
    case True
    show ?thesis
      by (rule Move_step[OF Some rowmove.Assign[where sid = sid and uid = "SesUserID ses" and g = "Guest ses"
          and k = "KindOrHuman (SesKind ses)" and dsp = "SesNickname ses" and now = now]])
        (use True sid tx in \<open>simp_all add: assignTx_def updateRequest_row[OF Some]\<close>)
  next
    case False
    then show ?thesis using tx by (auto simp: assignTx_def updateRequest_row[OF Some] split: if_splits)
  qed
qed


text \<open>
  The transactions of a leaving responder and of the sweeper act on rows that were read before: the column
  \<open>preferred_responder_session_id\<close> never changes, and the responder of an answer that has begun does not.
\<close>

lemma leaveTx_step:
  assumes d: "rowsOK d" and b: "freshPts d b" and tx: "leaveTx b now rid d = (d', Inr x)"
  shows "dbstep\<^sup>*\<^sup>* d d'"
proof -
  obtain r where row: "requestRow d rid = Some r" and live: "\<not> isTerminalStatus (Status r)"
    using tx by (auto simp: leaveTx_def split: option.splits if_splits)
  have r: "ReqID r = rid" "rowStatus r" using rowsOK_row[OF d row] by (simp_all add: rowOK_def)
  have nt: "notTerminalSQL r" using live by (simp add: notTerminal_iff)
  have st: "Status r \<in> {StatusAssigned, StatusStreaming}" if "fragmentRows d rid \<noteq> []"
    using that live r(2) rowsOK_row[OF d row] by (auto simp: rowOK_def rowAnswer_def rowStatus_def isTerminalStatus_def)
  show ?thesis
  proof (cases "fragmentRows d rid = []")
    case True
    then have "d' = (if PreferredResponderSessionID r \<noteq> [] then abandonRequestTx rid now d else requeueRequestTx rid now d)"
      using tx row live by (auto simp: leaveTx_def fragmentCount_def split: if_splits)
    then show ?thesis
      using Move_step[OF row rowmove.Abandon[OF nt True]] Move_step[OF row rowmove.Requeue[OF nt True]]
      by (auto simp: requeue_move[OF row nt] abandon_move[OF row nt] split: if_splits)
  next
    case False
    then have "d' = completeRequestTx b r FinishPartial now d" using tx row live by (auto simp: leaveTx_def fragmentCount_def)
    then show ?thesis
      using False nt row by (intro Move_step[OF row rowmove.Close[OF st[OF False] False b, where reason = FinishPartial and now = now]])
        (simp add: completeRequestTx_row[where r = r] r(1) closed_def rewardOf_def)
  qed
qed

lemma revokeTx_step:
  assumes d: "rowsOK d" and tx: "revokeTx now cutoff (rid, preferred) d = (d', Inr x)"
    and p: "\<And>r. requestRow d rid = Some r \<Longrightarrow> preferred = PreferredResponderSessionID r"
  shows "dbstep\<^sup>*\<^sup>* d d'"
proof (cases "requestRow d rid")
  case None
  then show ?thesis using tx by (simp add: revokeTx_def updateRequest_none)
next
  case (Some r)
  note up = updateRequest_row[OF Some]
  show ?thesis
  proof (cases "Status r = StatusAssigned \<and> UpdatedAt r \<le> cutoff")
    case True
    have f: "fragmentRows d rid = []"
      using rowsOK_row[OF d Some] True by (auto simp: rowOK_def rowStatus_def rowAnswer_def split: if_splits)
    have st: "notTerminalSQL r" using True by (simp add: notTerminalSQL_def)
    show ?thesis
      using Move_step[OF Some rowmove.Revoke[OF _ f, where now = now], of d']
        Move_step[OF Some rowmove.Requeue[OF st f, where now = now], of d'] tx True p[OF Some]
      by (auto simp: revokeTx_def up split: if_splits)
  next
    case False
    then show ?thesis using tx by (auto simp: revokeTx_def up split: if_splits)
  qed
qed

definition sameResponder :: "Request \<Rightarrow> Request \<Rightarrow> bool" where
  "sameResponder r r' \<longleftrightarrow> ResponderGuest r = ResponderGuest r' \<and> ResponderUserID r = ResponderUserID r'"

lemma closeTx_step:
  assumes d: "rowsOK d" and b: "freshPts d b" and tx: "closeTx b now cutoff r0 d = (d', Inr x)"
    and same: "\<And>r. requestRow d (ReqID r0) = Some r \<Longrightarrow> Status r = StatusStreaming \<Longrightarrow> sameResponder r0 r"
  shows "dbstep\<^sup>*\<^sup>* d d'"
proof -
  obtain r where row: "requestRow d (ReqID r0) = Some r" and st: "Status r = StatusStreaming"
    and d': "d' = completeRequestTx b r0 FinishPartial now d"
    using tx by (auto simp: closeTx_def split: option.splits if_splits)
  have id: "ReqID r = ReqID r0" and f: "fragmentRows d (ReqID r0) \<noteq> []"
    using rowsOK_row[OF d row] st by (auto simp: rowOK_def rowStatus_def rowAnswer_def split: if_splits)
  have nt: "notTerminalSQL r" using st by (simp add: notTerminalSQL_def)
  show ?thesis
    using same[OF row st] f st
    by (intro Move_step[OF row rowmove.Close[OF _ f b, where reason = FinishPartial and now = now]])
      (simp_all add: d' completeRequestTx_row[OF row nt] id closed_def rewardOf_def sameResponder_def)
qed


section \<open>What a step leaves alone\<close>

definition sameQuestion :: "Request \<Rightarrow> Request \<Rightarrow> bool" where
  "sameQuestion r r' \<longleftrightarrow> ReqID r' = ReqID r \<and> RequesterID r' = RequesterID r \<and> RequesterSessionID r' = RequesterSessionID r \<and>
     RequesterGuest r' = RequesterGuest r \<and> RequesterKind r' = RequesterKind r \<and> AllowAIAnswers r' = AllowAIAnswers r \<and>
     Messages r' = Messages r \<and> OutputLimit r' = OutputLimit r \<and> BoardEligible r' = BoardEligible r \<and>
     PreferredResponderSessionID r' = PreferredResponderSessionID r \<and> CreatedAt r' = CreatedAt r"

definition answering :: "Request \<Rightarrow> Request \<Rightarrow> bool" where
  "answering r r' \<longleftrightarrow> Status r' \<in> {StatusStreaming, StatusCompleted, StatusTimeoutCompleted} \<and>
     ResponderSessionID r' = ResponderSessionID r \<and> sameResponder r r'"

definition over :: "Request \<Rightarrow> Request \<Rightarrow> bool" where
  "over r r' \<longleftrightarrow> Status r' = Status r \<and> ReqFinish r' = ReqFinish r \<and> CompletedAt r' = CompletedAt r \<and>
     ResponderSessionID r' = ResponderSessionID r \<and> sameResponder r r'"

definition rowGrows :: "pgdb \<Rightarrow> pgdb \<Rightarrow> string \<Rightarrow> Request \<Rightarrow> Request \<Rightarrow> bool" where
  "rowGrows d d' rid r r' \<longleftrightarrow> sameQuestion r r' \<and> (\<exists>fs. fragmentRows d' rid = fragmentRows d rid @ fs \<and>
     (isTerminalStatus (Status r) \<longrightarrow> fs = [] \<and> over r r')) \<and> (Status r = StatusStreaming \<longrightarrow> answering r r')"

definition grows :: "pgdb \<Rightarrow> pgdb \<Rightarrow> bool" where
  "grows d d' \<longleftrightarrow> (\<forall>rid r. requestRow d rid = Some r \<longrightarrow> (\<exists>r'. requestRow d' rid = Some r' \<and> rowGrows d d' rid r r')) \<and>
     (\<exists>es. tLedger d' = tLedger d @ es) \<and> (\<exists>xs. tSessions d' = tSessions d @ xs)"

lemmas keeps_defs = sameQuestion_def answering_def over_def sameResponder_def

lemma keeps_same [simp]: "sameQuestion r r" "over r r" "sameResponder r r" "Status r = StatusStreaming \<Longrightarrow> answering r r"
  by (simp_all add: keeps_defs)

lemma rowGrows_refl [simp]: "rowGrows d d rid r r"
  by (simp add: rowGrows_def)

lemma rowmove_keeps:
  assumes ok: "rowOK d rid r" and m: "rowmove d rid r r' fs es"
  shows "sameQuestion r r'" "isTerminalStatus (Status r) \<Longrightarrow> fs = [] \<and> over r r'" "Status r = StatusStreaming \<Longrightarrow> answering r r'"
proof -
  have s: "fragmentRows d rid \<noteq> []" if "Status r = StatusStreaming"
    using ok that by (auto simp: rowOK_def rowAnswer_def rowStatus_def split: if_splits)
  show "sameQuestion r r'" using m by (cases rule: rowmove.cases) (auto simp: keeps_defs clearResponder_def closed_def streamed_def)
  show "isTerminalStatus (Status r) \<Longrightarrow> fs = [] \<and> over r r'"
    using m by (cases rule: rowmove.cases) (auto simp: keeps_defs isTerminalStatus_def notTerminalSQL_def)
  show "Status r = StatusStreaming \<Longrightarrow> answering r r'"
    using m s by (cases rule: rowmove.cases) (auto simp: keeps_defs isTerminalStatus_def)
qed

lemma grows_move:
  assumes ok: "rowsOK d" and row: "requestRow d rid = Some r" and m: "rowmove d rid r r' fs es"
  shows "grows d (changed d rid r' fs es)"
proof -
  have r: "rowOK d rid r" using rowsOK_row[OF ok row] .
  have f: "filter (\<lambda>(f, _). FrgRequestID f = k) fs = (if k = rid then fs else [])" for k
    using rowmove_adds(1)[OF m] r by (auto simp: rowOK_def filter_empty_conv filter_id_conv)
  have "rowGrows d (changed d rid r' fs es) rid r r'"
    using rowmove_keeps[OF r m] by (simp add: rowGrows_def f)
  moreover have "rowGrows d (changed d rid r' fs es) k x x" if "k \<noteq> rid" for k x using that by (simp add: rowGrows_def f)
  ultimately show ?thesis using row by (auto simp: grows_def)
qed

lemma grows_refl [simp]: "grows d d"
  by (simp add: grows_def)

lemma rowGrows_tables: "fragmentRows d' rid = fragmentRows d rid \<Longrightarrow> rowGrows d d' rid r r"
  by (simp add: rowGrows_def)

lemma grows_step: "dbstep d d' \<Longrightarrow> rowsOK d \<Longrightarrow> grows d d'"
proof (induction rule: dbstep.induct)
  case (Move d rid r r' fs es)
  then show ?case by (blast intro: grows_move)
next
  case (Create preferred sess frozen limit b model messages allowAI now d d' x)
  let ?r = "pgNewRequest b sess model messages limit allowAI preferred frozen now"
  have "mget (tRequests d) (ReqID ?r) = None \<and> d' = d\<lparr>tRequests := mput (ReqID ?r) (?r, QuestionCategory (Messages ?r)) (tRequests d)\<rparr>"
    using Create(5) by (cases "mget (tRequests d) (ReqID ?r)") (simp_all add: createTx_def insertRequest_def split: prod.splits)
  then show ?case by (auto simp: grows_def requestRow_def scanRequest_def rowGrows_def fragmentRows_def)
next
  case (Register sess grant u d d' x)
  show ?case unfolding registerTx_tables(1)[OF Register(4)]
    by (auto simp: grows_def requestRow_def intro!: rowGrows_tables) (simp add: fragmentRows_def)
next
  case (OpenSession sess d d' x)
  show ?case unfolding createSessionTx_tables(1)[OF OpenSession(3)]
    by (auto simp: grows_def requestRow_def intro!: rowGrows_tables) (simp add: fragmentRows_def)
next
  case (Conversation d cs ms)
  show ?case by (auto simp: grows_def requestRow_def intro!: rowGrows_tables) (simp add: fragmentRows_def)
qed

lemma rowGrows_trans:
  assumes a: "rowGrows d d' rid r r'" and b: "rowGrows d' d'' rid r' r''"
  shows "rowGrows d d'' rid r r''"
proof -
  have "answering r r''" if s: "Status r = StatusStreaming"
  proof (cases "Status r' = StatusStreaming")
    case True
    then show ?thesis using a b s by (auto simp: rowGrows_def keeps_defs)
  next
    case False
    then have "isTerminalStatus (Status r')" using a s by (auto simp: rowGrows_def answering_def isTerminalStatus_def)
    then show ?thesis using a b s by (auto simp: rowGrows_def keeps_defs)
  qed
  moreover have "sameQuestion r r''" using a b by (simp add: rowGrows_def sameQuestion_def)
  moreover obtain fs gs where f: "fragmentRows d' rid = fragmentRows d rid @ fs" "fragmentRows d'' rid = fragmentRows d' rid @ gs"
    "isTerminalStatus (Status r) \<Longrightarrow> fs = [] \<and> over r r'" "isTerminalStatus (Status r') \<Longrightarrow> gs = [] \<and> over r' r''"
    using a b unfolding rowGrows_def by blast
  moreover have "fs @ gs = [] \<and> over r r''" if "isTerminalStatus (Status r)"
    using f(3)[OF that] f(4) that by (simp add: over_def sameResponder_def)
  ultimately show ?thesis unfolding rowGrows_def by (intro conjI exI[of _ "fs @ gs"]) simp_all
qed

lemma grows_trans:
  assumes a: "grows d d'" and b: "grows d' d''"
  shows "grows d d''"
proof -
  have "\<exists>r''. requestRow d'' rid = Some r'' \<and> rowGrows d d'' rid r r''" if "requestRow d rid = Some r" for rid r
    using a b that rowGrows_trans unfolding grows_def by meson
  moreover have "(\<exists>es. tLedger d'' = tLedger d @ es) \<and> (\<exists>xs. tSessions d'' = tSessions d @ xs)"
    using a b by (auto simp: grows_def)
  ultimately show ?thesis by (simp add: grows_def)
qed

lemma grows_steps: "dbstep\<^sup>*\<^sup>* d d' \<Longrightarrow> rowsOK d \<Longrightarrow> grows d d'"
proof (induction rule: rtranclp_induct)
  case (step d' d'')
  then show ?case using grows_step rowsOK_steps grows_trans by blast
qed simp

end
