(* ===== verification/PgRuns.thy ===== *)
theory PgRuns
  imports PgRefine
begin

text \<open>
  The operations of the Postgres/Redis backend as steps of the database. Between any two calls of an
  operation the other instances take steps of their own; any call may fail, with or without effect.
  The ledger identifiers that this operation draws are its own (\<open>steady\<close>).
\<close>

definition ptsIDs :: "pgdb \<Rightarrow> string set" where
  "ptsIDs d = PtsID ` set (tLedger d)"

definition steady :: "'r pgworld \<Rightarrow> bool" where
  "steady w \<longleftrightarrow> (\<forall>i c. dbstep\<^sup>*\<^sup>* (pg c) (pg (pext w i c))) \<and>
     (\<forall>i c j k. pgNewID ''pts'' (pids w j k) \<in> ptsIDs (pg (pext w i c)) \<longrightarrow> pgNewID ''pts'' (pids w j k) \<in> ptsIDs (pg c)) \<and>
     (\<forall>i j k l. pids w i k = pids w j l \<longrightarrow> i = j \<and> k = l)"

definition unusedFrom :: "'r pgworld \<Rightarrow> nat \<Rightarrow> pgdb \<Rightarrow> bool" where
  "unusedFrom w i d \<longleftrightarrow> (\<forall>j \<ge> i. \<forall>k. pgNewID ''pts'' (pids w j k) \<notin> ptsIDs d)"

definition sound :: "'r pgworld \<Rightarrow> nat \<Rightarrow> pgdb \<Rightarrow> bool" where
  "sound w i d \<longleftrightarrow> rowsOK d \<and> keysOK d \<and> unusedFrom w i d"

text \<open>From \<open>c\<close> with the identifiers from \<open>i\<close> on unused to \<open>c'\<close> with those from \<open>k\<close> on.\<close>

definition goes :: "'r pgworld \<Rightarrow> nat \<Rightarrow> 'r cluster \<Rightarrow> nat \<Rightarrow> 'r cluster \<Rightarrow> bool" where
  "goes w i c k c' \<longleftrightarrow> (sound w i (pg c) \<longrightarrow> sound w k (pg c') \<and> dbstep\<^sup>*\<^sup>* (pg c) (pg c'))"

lemma goes_refl [simp]: "goes w i c i c"
  by (simp add: goes_def)

lemma goes_trans [trans]: "goes w i c j c' \<Longrightarrow> goes w j c' k c'' \<Longrightarrow> goes w i c k c''"
  unfolding goes_def by (meson rtranclp_trans)

lemma sound_mono: "sound w i d \<Longrightarrow> i \<le> k \<Longrightarrow> sound w k d"
  by (simp add: sound_def unusedFrom_def)

lemma goes_later: "goes w i c k c' \<Longrightarrow> k \<le> k' \<Longrightarrow> goes w i c k' c'"
  unfolding goes_def using sound_mono by blast

lemma goes_earlier: "goes w j c k c' \<Longrightarrow> i \<le> j \<Longrightarrow> goes w i c k c'"
  unfolding goes_def using sound_mono by blast

lemma goes_pg: "pg c' = pg c \<Longrightarrow> goes w i c i c'"
  by (simp add: goes_def)

lemma goes_ext: "steady w \<Longrightarrow> goes w i c i (pext w j c)"
  unfolding goes_def sound_def unusedFrom_def steady_def using rowsOK_steps keysOK_steps by blast

lemma goes_call: "steady w \<Longrightarrow> pg c' = pg (pext w j c) \<Longrightarrow> goes w i c i c'"
  using goes_trans[OF goes_ext goes_pg] by blast

named_theorems calls_go

lemma query_goes [calls_go]: "steady w \<Longrightarrow> query w j f c = (c', x) \<Longrightarrow> goes w i c i c'"
  by (rule goes_call[where j = j]) (auto simp: query_def Let_def)

lemma ask_goes [calls_go]: "steady w \<Longrightarrow> ask w j f c = (c', x) \<Longrightarrow> goes w i c i c'"
  by (rule goes_call[where j = j]) (auto simp: ask_def Let_def)

lemma command_goes [calls_go]: "steady w \<Longrightarrow> command w j f c = (c', x) \<Longrightarrow> goes w i c i c'"
  by (rule goes_call[where j = j]) (auto simp: command_def Let_def split: option.splits)

lemma tell_goes [calls_go]: "steady w \<Longrightarrow> goes w i c i (tell w j f c)"
  by (rule command_goes[where j = j and f = f and x = "snd (command w j f c)"]) (simp_all add: tell_def)

lemma publish_goes [calls_go]: "steady w \<Longrightarrow> goes w i c i (publish w j ch m c)"
  by (rule goes_call[where j = j]) (auto simp: publish_def Let_def)

lemma publishStream_goes [calls_go]: "steady w \<Longrightarrow> goes w i c i (publishStream w j rid m c)"
  by (simp add: publishStream_def publish_goes)

lemma publishAssignment_goes [calls_go]: "steady w \<Longrightarrow> goes w i c i (publishAssignment w j sid a c)"
  by (simp add: publishAssignment_def publish_goes)

lemma runAssign_goes [calls_go]: "steady w \<Longrightarrow> runAssign R w j c = Some (c', x) \<Longrightarrow> goes w i c i c'"
  by (rule goes_call[where j = j]) (auto simp: runAssign_def Let_def split: option.splits prod.splits if_splits)

lemma findD: "find P xs = Some x \<Longrightarrow> x \<in> set xs \<and> P x"
  by (auto simp: find_Some_iff)

text \<open>A query reads a database that steps of the others have led to.\<close>

lemma query_reads:
  assumes "steady w" and "query w j f c = (c', Inr v)" and "sound w i (pg c)"
  shows "v = f (pg c')" "sound w i (pg c')"
  using assms query_goes[OF assms(1,2), of i] by (auto simp: query_def Let_def goes_def split: option.splits)

lemma sessionByToken_reads:
  assumes q: "steady w" and s: "sessionByToken w j token c = (c', Inr sess)" and ok: "sound w i (pg c)"
  shows "sess \<in> set (tSessions (pg c'))" "sound w i (pg c')"
proof -
  obtain y where y: "query w j (\<lambda>d. find (\<lambda>x. Token x = token) (tSessions d)) c = (c', Inr y)" and ys: "y = Some sess"
    using s by (auto simp: sessionByToken_def split: prod.splits sum.splits option.splits)
  show "sess \<in> set (tSessions (pg c'))" "sound w i (pg c')"
    using query_reads[OF q y ok] ys findD[of "\<lambda>x. Token x = token" "tSessions (pg c')" sess] by simp_all
qed

lemma sessionByToken_goes [calls_go]: "steady w \<Longrightarrow> sessionByToken w j token c = (c', x) \<Longrightarrow> goes w i c i c'"
  by (auto simp: sessionByToken_def split: prod.splits sum.splits option.splits dest: query_goes)

text \<open>A transaction.\<close>

lemma txn_goes:
  assumes q: "steady w" and t: "txn w j body c = (c', x)" and le: "i \<le> k"
    and b: "\<And>d d' v. sound w i d \<Longrightarrow> dbstep\<^sup>*\<^sup>* (pg c) d \<Longrightarrow> body d = (d', Inr v) \<Longrightarrow> dbstep\<^sup>*\<^sup>* d d' \<and> unusedFrom w k d'"
  shows "goes w i c k c'"
  unfolding goes_def
proof
  assume s: "sound w i (pg c)"
  let ?c0 = "pext w j c"
  have s0: "sound w i (pg ?c0)" and r0: "dbstep\<^sup>*\<^sup>* (pg c) (pg ?c0)" using goes_ext[OF q, of i c j] s by (simp_all add: goes_def)
  show "sound w k (pg c') \<and> dbstep\<^sup>*\<^sup>* (pg c) (pg c')"
  proof (cases "pg c' = pg ?c0")
    case True
    then show ?thesis using s0 r0 sound_mono[OF _ le] by simp
  next
    case False
    then obtain v where v: "body (pg ?c0) = (pg c', Inr v)"
      using t by (auto simp: txn_def Let_def split: prod.splits sum.splits option.splits if_splits)
    then show ?thesis using b[OF s0 r0 v] r0 rowsOK_steps keysOK_steps s0 by (auto simp: sound_def)
  qed
qed

section \<open>Identifiers\<close>

lemma ptsIDs_changed: "ptsIDs (changed d rid r fs es) = ptsIDs d \<union> PtsID ` set es"
  by (auto simp: ptsIDs_def)

lemma updateRequest_ids [simp]: "ptsIDs (fst (updateRequest rid P f d)) = ptsIDs d"
  by (auto simp: updateRequest_def ptsIDs_def split: option.splits)

lemma addLedgerTx_ids: "ptsIDs (addLedgerTx b u rid k delta now d) \<subseteq> insert (pgNewID ''pts'' b) (ptsIDs d)"
  by (auto simp: addLedgerTx_def insertLedger_def ptsIDs_def)

lemma completeRequestTx_ids: "ptsIDs (completeRequestTx b req reason now d) \<subseteq> insert (pgNewID ''pts'' b) (ptsIDs d)"
proof -
  obtain d1 n where u: "updateRequest (ReqID req) notTerminalSQL (\<lambda>r. r\<lparr>Status := (if reason = FinishPartial
      then StatusTimeoutCompleted else StatusCompleted), ReqFinish := reason, UpdatedAt := now, CompletedAt := now\<rparr>) d = (d1, n)"
    by fastforce
  then have "ptsIDs d1 = ptsIDs d" using updateRequest_ids by (metis fst_conv)
  then show ?thesis using addLedgerTx_ids[of b "ResponderUserID req" "ReqID req" "''answer_reward''" BaseAnswerReward now d1]
    by (auto simp: completeRequestTx_def u Let_def)
qed

lemma own_ids:
  assumes "steady w" and "unusedFrom w i d" and "i \<le> j" and "j < k" and "ptsIDs d' \<subseteq> ptsIDs d \<union> (\<lambda>l. pgNewID ''pts'' (pids w j l)) ` UNIV"
  shows "unusedFrom w k d'"
  unfolding unusedFrom_def
proof (intro allI impI notI)
  fix j' l
  assume j': "k \<le> j'" and "pgNewID ''pts'' (pids w j' l) \<in> ptsIDs d'"
  then consider "pgNewID ''pts'' (pids w j' l) \<in> ptsIDs d" | l' where "pids w j' l = pids w j l'" using assms(5) by auto
  then show False
  proof cases
    case 1
    then show ?thesis using assms(2-4) j' by (simp add: unusedFrom_def)
  next
    case 2
    then have "j' = j" using assms(1) unfolding steady_def by blast
    then show ?thesis using assms(4) j' by simp
  qed
qed

lemma unused_fresh: "unusedFrom w i d \<Longrightarrow> i \<le> j \<Longrightarrow> freshPts d (pids w j k)"
  by (simp add: unusedFrom_def freshPts_def ptsIDs_def)


lemma insertFragment_ids: "insertFragment f n d = Some d' \<Longrightarrow> ptsIDs d' = ptsIDs d"
  by (auto simp: insertFragment_def ptsIDs_def split: if_splits)

lemma submitTx_ids:
  assumes "submitTx b now sid n t d = (d', Inr x)"
  shows "ptsIDs d' \<subseteq> ptsIDs d \<union> (\<lambda>l. pgNewID ''pts'' (b l)) ` UNIV"
  using assms
  by (auto simp: submitTx_def Let_def split: sum.splits option.splits prod.splits if_splits
      dest!: subsetD[OF completeRequestTx_ids] subsetD[OF addLedgerTx_ids] insertFragment_ids)

lemma finishTx_ids: "finishTx b now sid d = (d', Inr x) \<Longrightarrow> ptsIDs d' \<subseteq> insert (pgNewID ''pts'' b) (ptsIDs d)"
  by (auto simp: finishTx_def split: sum.splits if_splits dest!: subsetD[OF completeRequestTx_ids])

lemma skipTx_ids: "skipTx now sid d = (d', Inr x) \<Longrightarrow> ptsIDs d' = ptsIDs d"
  by (auto simp: skipTx_def abandonRequestTx_def requeueRequestTx_def split: sum.splits if_splits)

lemma acquireTx_ids: "acquireTx now rid d = (d', Inr x) \<Longrightarrow> ptsIDs d' = ptsIDs d"
  by (auto simp: acquireTx_def split: option.splits if_splits)

lemma cancelTx_ids: "cancelTx now rid d = (d', Inr x) \<Longrightarrow> ptsIDs d' = ptsIDs d"
  by (auto simp: cancelTx_def split: option.splits if_splits)

lemma reactTx_ids: "reactTx b now sess rid reaction d = (d', Inr x) \<Longrightarrow> ptsIDs d' \<subseteq> insert (pgNewID ''pts'' b) (ptsIDs d)"
  by (auto simp: reactTx_def Let_def split: option.splits if_splits dest!: subsetD[OF addLedgerTx_ids])

lemma assignTx_ids: "assignTx now rid sid ses d = (d', Inr x) \<Longrightarrow> ptsIDs d' = ptsIDs d"
  unfolding assignTx_def using updateRequest_ids by (metis (no_types, lifting) Pair_inject case_prod_beta)

lemma revokeTx_ids: "revokeTx now cutoff p d = (d', Inr x) \<Longrightarrow> ptsIDs d' = ptsIDs d"
  unfolding revokeTx_def using updateRequest_ids by (metis (no_types, lifting) Pair_inject case_prod_beta)

lemma leaveTx_ids: "leaveTx b now rid d = (d', Inr x) \<Longrightarrow> ptsIDs d' \<subseteq> insert (pgNewID ''pts'' b) (ptsIDs d)"
  by (auto simp: leaveTx_def abandonRequestTx_def requeueRequestTx_def split: option.splits if_splits
      dest!: subsetD[OF completeRequestTx_ids])

lemma closeTx_ids: "closeTx b now cutoff r d = (d', Inr x) \<Longrightarrow> ptsIDs d' \<subseteq> insert (pgNewID ''pts'' b) (ptsIDs d)"
  by (auto simp: closeTx_def split: option.splits if_splits dest!: subsetD[OF completeRequestTx_ids])

lemma createTx_ids: "createTx r d = (d', Inr x) \<Longrightarrow> ptsIDs d' = ptsIDs d"
  by (auto simp: createTx_def insertRequest_def ptsIDs_def split: if_splits)

lemma same_ids: "unusedFrom w i d \<Longrightarrow> ptsIDs d' = ptsIDs d \<Longrightarrow> i \<le> k \<Longrightarrow> unusedFrom w k d'"
  by (simp add: unusedFrom_def)

section \<open>Transactions\<close>

lemma txn_same_ids:
  assumes q: "steady w" and t: "txn w j body c = (c', x)"
    and step: "\<And>d d' v. sound w i d \<Longrightarrow> dbstep\<^sup>*\<^sup>* (pg c) d \<Longrightarrow> body d = (d', Inr v) \<Longrightarrow> dbstep\<^sup>*\<^sup>* d d'"
    and ids: "\<And>d d' v. body d = (d', Inr v) \<Longrightarrow> ptsIDs d' = ptsIDs d"
  shows "goes w i c i c'"
proof (rule txn_goes[OF q t order_refl])
  fix d d' v
  assume "sound w i d" "dbstep\<^sup>*\<^sup>* (pg c) d" "body d = (d', Inr v)"
  then show "dbstep\<^sup>*\<^sup>* d d' \<and> unusedFrom w i d'" using step ids[of d d' v] by (auto simp: sound_def unusedFrom_def)
qed

lemma txn_own_id:
  assumes q: "steady w" and t: "txn w j body c = (c', x)" and le: "i \<le> m" "m < k"
    and b: "\<And>d d' v. sound w i d \<Longrightarrow> (\<And>l. freshPts d (pids w m l)) \<Longrightarrow> dbstep\<^sup>*\<^sup>* (pg c) d \<Longrightarrow> body d = (d', Inr v) \<Longrightarrow>
      dbstep\<^sup>*\<^sup>* d d' \<and> ptsIDs d' \<subseteq> ptsIDs d \<union> (\<lambda>l. pgNewID ''pts'' (pids w m l)) ` UNIV"
  shows "goes w i c k c'"
proof (rule txn_goes[OF q t])
  fix d d' v
  assume s: "sound w i d" and r: "dbstep\<^sup>*\<^sup>* (pg c) d" and v: "body d = (d', Inr v)"
  have u: "unusedFrom w i d" using s by (simp add: sound_def)
  show "dbstep\<^sup>*\<^sup>* d d' \<and> unusedFrom w k d'"
    using b[OF s unused_fresh[OF u le(1)] r v] own_ids[OF q u le] by blast
qed (use le in simp)

lemma submit_goes:
  assumes q: "steady w" and sid: "sid \<noteq> []" and t: "txn w j (submitTx (pids w i) now sid n t') c = (c', x)"
  shows "goes w i c (i + 1) c'"
proof (rule txn_own_id[OF q t, where m = i])
  fix d d' v
  assume s: "sound w i d" "\<And>l. freshPts d (pids w i l)" and v: "submitTx (pids w i) now sid n t' d = (d', Inr v)"
  have "pids w i 1 \<noteq> pids w i 2" using q unfolding steady_def by force
  then show "dbstep\<^sup>*\<^sup>* d d' \<and> ptsIDs d' \<subseteq> ptsIDs d \<union> (\<lambda>l. pgNewID ''pts'' (pids w i l)) ` UNIV"
    using submitTx_step[OF _ sid _ _ _ v] submitTx_ids[OF v] s by (simp add: sound_def)
qed simp_all

lemma txn_one_id:
  assumes q: "steady w" and t: "txn w j body c = (c', x)" and le: "i \<le> m" "m < k"
    and step: "\<And>d d' v. rowsOK d \<Longrightarrow> freshPts d (pids w m l) \<Longrightarrow> body d = (d', Inr v) \<Longrightarrow> dbstep\<^sup>*\<^sup>* d d'"
    and new: "\<And>d d' v. body d = (d', Inr v) \<Longrightarrow> ptsIDs d' \<subseteq> insert (pgNewID ''pts'' (pids w m l)) (ptsIDs d)"
  shows "goes w i c k c'"
proof (rule txn_own_id[OF q t le])
  fix d d' v
  assume s: "sound w i d" "\<And>l. freshPts d (pids w m l)" and v: "body d = (d', Inr v)"
  show "dbstep\<^sup>*\<^sup>* d d' \<and> ptsIDs d' \<subseteq> ptsIDs d \<union> (\<lambda>l. pgNewID ''pts'' (pids w m l)) ` UNIV"
    using step[OF _ s(2) v] new[OF v] s(1) by (auto simp: sound_def)
qed

lemma finish_goes:
  "steady w \<Longrightarrow> sid \<noteq> [] \<Longrightarrow> txn w j (finishTx (pids w i l) now sid) c = (c', x) \<Longrightarrow> goes w i c (i + 1) c'"
  by (rule txn_one_id[where m = i]; (assumption | rule finishTx_ids finishTx_step | simp))

lemma react_goes:
  "steady w \<Longrightarrow> txn w j (reactTx (pids w i l) now sess rid reaction) c = (c', x) \<Longrightarrow> goes w i c (i + 1) c'"
  by (rule txn_one_id[where m = i]; (assumption | rule reactTx_ids reactTx_step | simp))

lemma leave_goes:
  "steady w \<Longrightarrow> txn w j (leaveTx (pids w i l) now rid) c = (c', x) \<Longrightarrow> goes w i c (i + 1) c'"
  by (rule txn_one_id[where m = i]; (assumption | rule leaveTx_ids leaveTx_step | simp))

lemma sound_rows: "sound w i d \<Longrightarrow> rowsOK d"
  by (simp add: sound_def)

lemma skip_goes: "steady w \<Longrightarrow> sid \<noteq> [] \<Longrightarrow> txn w j (skipTx now sid) c = (c', x) \<Longrightarrow> goes w i c i c'"
  by (rule txn_same_ids; (assumption | rule skipTx_ids skipTx_step | erule sound_rows)+)

lemma acquire_goes: "steady w \<Longrightarrow> txn w j (acquireTx now rid) c = (c', x) \<Longrightarrow> goes w i c i c'"
  by (rule txn_same_ids; (assumption | rule acquireTx_ids acquireTx_step | erule sound_rows)+)

lemma cancel_goes: "steady w \<Longrightarrow> txn w j (cancelTx now rid) c = (c', x) \<Longrightarrow> goes w i c i c'"
  by (rule txn_same_ids; (assumption | rule cancelTx_ids cancelTx_step | erule sound_rows)+)

lemma assign_goes: "steady w \<Longrightarrow> sid \<noteq> [] \<Longrightarrow> txn w j (assignTx now rid sid ses) c = (c', x) \<Longrightarrow> goes w i c i c'"
  by (rule txn_same_ids; (assumption | rule assignTx_ids assignTx_step))

end
