(* ===== verification/PgRunOps.thy ===== *)
theory PgRunOps
  imports PgRuns
begin

text \<open>
  Every operation of the Postgres/Redis backend, with its loops, makes steps of the database only, whatever
  the other instances do meanwhile and whichever calls fail.
\<close>

declare One_nat_def [simp del] add_2_eq_Suc [simp del] add_2_eq_Suc' [simp del]

lemma goes_if: "(sound w i (pg c) \<Longrightarrow> goes w i c k c') \<Longrightarrow> goes w i c k c'"
  by (auto simp: goes_def)

lemma goes_stay: "i \<le> k \<Longrightarrow> goes w i c k c"
  by (rule goes_later[OF goes_refl])

lemma goes_tell: "steady w \<Longrightarrow> goes w i c k c' \<Longrightarrow> goes w i c k (tell w j f c')"
  by (rule goes_trans[OF _ tell_goes])

lemma goes_publish: "steady w \<Longrightarrow> goes w i c k c' \<Longrightarrow> goes w i c k (publishStream w j rid m c')"
  by (rule goes_trans[OF _ publishStream_goes])

lemma goes_assignment: "steady w \<Longrightarrow> goes w i c k c' \<Longrightarrow> goes w i c k (publishAssignment w j sid a c')"
  by (rule goes_trans[OF _ publishAssignment_goes])

lemma goes_settle: "steady w \<Longrightarrow> goes w i c k c' \<Longrightarrow> goes w i c k (settle R w j rid reason c')"
  by (simp add: settle_def goes_tell goes_publish)

lemma goes_giveBack: "steady w \<Longrightarrow> goes w i c k c' \<Longrightarrow> goes w i c k (giveBack R w j rid c')"
  by (simp add: giveBack_def goes_tell)

lemma putAvailable_goes: "steady w \<Longrightarrow> putAvailable R w j sid c = (c', x) \<Longrightarrow> goes w i c i c'"
  unfolding putAvailable_def by (auto split: prod.splits bool.splits intro: command_goes goes_trans)

lemma goes_put: "steady w \<Longrightarrow> goes w i c k c' \<Longrightarrow> goes w i c k (fst (putAvailable R w j sid c'))"
  using putAvailable_goes[of w R j sid c'] by (metis goes_trans prod.collapse)

lemmas goes_effects = goes_tell goes_publish goes_assignment goes_settle goes_giveBack goes_put

section \<open>Pairing\<close>

lemma handlePair_goes:
  assumes q: "steady w" and h: "handlePair R w i rid sid c = (k, c')"
  shows "goes w i c k c'"
proof (rule goes_if)
  assume ok: "sound w i (pg c)"
  obtain c1 x where s: "query w i (\<lambda>d. find (\<lambda>x. SesID x = sid) (tSessions d)) c = (c1, x)" by fastforce
  note g1 = query_goes[OF q s, of i]
  have eff: "goes w i c (i + n) C" if "goes w i c1 (i + n) C" for n C using goes_trans[OF g1 that] .
  show ?thesis
  proof (cases x)
    case (Inl e)
    have "goes w i c1 (i + 5) c'" using h q by (auto simp: handlePair_def s Inl intro!: goes_effects goes_stay)
    then show ?thesis using eff h by (auto simp: handlePair_def s Inl)
  next
    case (Inr y)
    show ?thesis
    proof (cases y)
      case None
      have "goes w i c1 (i + 3) c'" using h q by (auto simp: handlePair_def s Inr None intro!: goes_effects goes_stay)
      then show ?thesis using eff h by (auto simp: handlePair_def s Inr None)
    next
      case (Some ses)
      have "find (\<lambda>x. SesID x = sid) (tSessions (pg c1)) = Some ses" "keysOK (pg c1)"
        using query_reads[OF q s[unfolded Inr] ok] Some by (simp_all add: sound_def)
      then have sid: "sid \<noteq> []" using findD[of "\<lambda>x. SesID x = sid" "tSessions (pg c1)" ses] by (auto simp: keysOK_def)
      obtain c2 z where t: "txn w (i + 1) (assignTx (pclk w i) rid sid ses) c1 = (c2, z)" by fastforce
      have g2: "goes w i c i c2" using goes_trans[OF g1 assign_goes[OF q sid t]] .
      have g3: "goes w i c i c3" if "query w (i + 2) (\<lambda>d. requestRow d rid) c2 = (c3, v)" for c3 v
        using goes_trans[OF g2 query_goes[OF q that]] .
      obtain c3 v where u: "query w (i + 2) (\<lambda>d. requestRow d rid) c2 = (c3, v)" by fastforce
      have "i \<le> k" using h unfolding handlePair_def s Inr Some by (auto simp: t split: prod.splits sum.splits option.splits if_splits)
      moreover have "c' = fst (putAvailable R w (i + 4) sid (giveBack R w (i + 2) rid c2)) \<or>
          c' = fst (putAvailable R w (i + 3) sid (tell w (i + 2) (releaseLock R rid) c2)) \<or> c' = c3 \<or>
          (\<exists>a. c' = publishAssignment w (i + 3) sid a c3)"
        using h unfolding handlePair_def s Inr Some by (auto simp: t u split: sum.splits option.splits if_splits)
      ultimately show ?thesis using g2 g3[OF u] q by (auto intro!: goes_effects intro: goes_later)
    qed
  qed
qed

lemma drain_goes:
  assumes q: "steady w" and d: "drainAssignments R w n i c = Returned (k, c')"
  shows "goes w i c k c'"
  using d
proof (induction n arbitrary: i c)
  case (Suc n)
  obtain c1 res where r: "runAssign R w i c = Some (c1, res)" using Suc.prems by (auto split: option.splits)
  have g: "goes w i c (i + 1) c1" using goes_later[OF runAssign_goes[OF q r]] by simp
  show ?case
  proof (cases res)
    case None
    then show ?thesis using Suc.prems g by (simp add: r)
  next
    case (Some p)
    obtain m c2 where h: "handlePair R w (i + 1) (fst p) (snd p) c1 = (m, c2)" by fastforce
    have "drainAssignments R w n m c2 = Returned (k, c')" using Suc.prems Some h by (auto simp: r split: prod.splits)
    then show ?thesis using Suc.IH goes_trans[OF g goes_trans[OF handlePair_goes[OF q h]]] by blast
  qed
qed simp

lemma thenDrain_goes: "steady w \<Longrightarrow> thenDrain R w n i c x = Returned (k, c', y) \<Longrightarrow> goes w i c k c'"
  by (auto simp: thenDrain_def split: run.splits dest: drain_goes)

lemma goes_drain:
  "steady w \<Longrightarrow> thenDrain R w n j c1 x = Returned (k, c', y) \<Longrightarrow> goes w i c j c1 \<Longrightarrow> goes w i c k c'"
  by (rule goes_trans, assumption, rule thenDrain_goes)

section \<open>Answering\<close>

lemma pgSubmitFragment_goes:
  assumes q: "steady w" and sid: "sid \<noteq> []" and o: "pgSubmitFragment R w i sid n t c = (k, c', x)"
  shows "goes w i c k c'"
proof -
  obtain c1 y where tx: "txn w i (submitTx (pids w i) (pclk w i) sid n t) c = (c1, y)" by fastforce
  have g: "goes w i c (i + 1) c1" using submit_goes[OF q sid tx] .
  have "c' = c \<and> k = i \<or> i + 1 \<le> k \<and> goes w i c (i + 1) c'"
    using o g q by (auto simp: pgSubmitFragment_def tx Let_def intro!: goes_effects split: if_splits sum.splits prod.splits)
  then show ?thesis using goes_later by auto
qed

lemma pgFinish_goes:
  assumes q: "steady w" and sid: "sid \<noteq> []" and o: "pgFinish R w i sid c = (k, c', x)"
  shows "goes w i c k c'"
proof -
  obtain c1 y where tx: "txn w i (finishTx (pids w i 0) (pclk w i) sid) c = (c1, y)" by fastforce
  have g: "goes w i c (i + 1) c1" using finish_goes[OF q sid tx] .
  have "i + 1 \<le> k \<and> goes w i c (i + 1) c'"
    using o g q by (auto simp: pgFinish_def tx intro!: goes_effects split: sum.splits)
  then show ?thesis using goes_later by blast
qed

lemma pgSkip_goes:
  assumes q: "steady w" and sid: "sid \<noteq> []" and o: "pgSkip R w n i sid c = Returned (k, c', x)"
  shows "goes w i c k c'"
proof -
  obtain c1 y where tx: "txn w i (skipTx (pclk w i) sid) c = (c1, y)" by fastforce
  have g: "goes w i c j c1" if "i \<le> j" for j using goes_later[OF skip_goes[OF q sid tx] that] .
  show ?thesis
    using o q g by (auto simp: pgSkip_def tx Let_def intro!: goes_effects split: sum.splits if_splits elim!: goes_drain[OF q])
qed

lemma pgAcquire_goes:
  assumes q: "steady w" and o: "pgAcquireFallbackAssignment R w i rid c = (k, c', x)"
  shows "goes w i c k c'"
proof -
  obtain c1 y where tx: "txn w i (acquireTx (pclk w i) rid) c = (c1, y)" by fastforce
  have g: "goes w i c j c1" if "i \<le> j" for j using goes_later[OF acquire_goes[OF q tx] that] .
  show ?thesis using o q g by (auto simp: pgAcquireFallbackAssignment_def tx intro!: goes_effects split: sum.splits)
qed

lemma pgCancel_goes:
  assumes q: "steady w" and o: "pgCancelBeforeFirstFragment R w i rid c = (k, c', x)"
  shows "goes w i c k c'"
proof -
  obtain c1 y where tx: "txn w i (cancelTx (pclk w i) rid) c = (c1, y)" by fastforce
  have g: "goes w i c j c1" if "i \<le> j" for j using goes_later[OF cancel_goes[OF q tx] that] .
  show ?thesis using o q g by (auto simp: pgCancelBeforeFirstFragment_def tx intro!: goes_effects split: sum.splits)
qed

lemma pgBalance_goes: "steady w \<Longrightarrow> pgBalance w j uid c = (c', b) \<Longrightarrow> goes w i c i c'"
  unfolding pgBalance_def Let_def by (auto split: prod.splits intro: query_goes goes_trans)

lemma pgReact_goes:
  assumes q: "steady w" and o: "pgReact w i token rid reaction c = (k, c', x)"
  shows "goes w i c k c'"
proof -
  obtain c1 y where s: "sessionByToken w i token c = (c1, y)" by fastforce
  note g1 = sessionByToken_goes[OF q s, of i]
  show ?thesis
  proof (cases y)
    case (Inl e)
    then show ?thesis using o goes_later[OF g1] by (auto simp: pgReact_def s split: if_splits)
  next
    case (Inr sess)
    obtain c2 z where tx: "txn w (i + 1) (reactTx (pids w i 0) (pclk w i) sess rid reaction) c1 = (c2, z)" by fastforce
    have g: "goes w i c j c2" if "i + 1 \<le> j" for j using goes_later[OF goes_trans[OF g1 react_goes[OF q tx]] that] .
    show ?thesis
      using o q g goes_trans[OF g pgBalance_goes[OF q]]
      by (auto simp: pgReact_def s Inr tx split: if_splits sum.splits option.splits prod.splits)
  qed
qed

section \<open>Creating requests\<close>

lemma freezePoints_goes: "steady w \<Longrightarrow> freezePoints w j sess c = (c', x) \<Longrightarrow> goes w i c i c'"
  unfolding freezePoints_def Let_def
  by (auto split: if_splits prod.splits sum.splits intro: query_goes goes_trans[OF goes_trans[OF query_goes query_goes] query_goes])

lemma freezePoints_amount: "freezePoints w j sess c = (c', Inr x) \<Longrightarrow> x = (if Guest sess then 0 else QuestionCost)"
  unfolding freezePoints_def Let_def by (auto split: if_splits prod.splits sum.splits)

lemma create_goes:
  assumes q: "steady w" and p: "preferred \<noteq> [] \<longrightarrow> Guest sess" "frozen = (if Guest sess then 0 else QuestionCost)"
    "0 < limit" "limit \<le> OutputLimitChars"
    and t: "txn w j (createTx (pgNewRequest b sess model messages limit allowAI preferred frozen now)) c = (c', x)"
  shows "goes w i c i c'"
  by (rule txn_same_ids[OF q t]; (erule createTx_ids | rule r_into_rtranclp, erule dbstep.Create[OF p]))

lemma pgCreateRequest_goes:
  assumes q: "steady w" and o: "pgCreateRequest R w n i token model messages limit0 allowAI preferred c = Returned (k, c', x)"
  shows "goes w i c k c'"
proof (rule goes_if)
  assume ok: "sound w i (pg c)"
  let ?limit = "if limit0 \<le> 0 \<or> limit0 > OutputLimitChars then OutputLimitChars else limit0"
  obtain c1 y where s: "sessionByToken w i token c = (c1, y)" by fastforce
  have g1: "goes w i c j c1" if "i \<le> j" for j using goes_later[OF sessionByToken_goes[OF q s] that] .
  show ?thesis
  proof (cases "\<exists>sess. y = Inr sess \<and> (preferred \<noteq> [] \<longrightarrow> KindOrHuman (SesKind sess) = KindAIPersona)")
    case False
    then show ?thesis using o g1 unfolding pgCreateRequest_def s
      by (auto simp: Let_def split: if_splits sum.splits)
  next
    case True
    then obtain sess where y: "y = Inr sess" and p: "preferred \<noteq> [] \<longrightarrow> KindOrHuman (SesKind sess) = KindAIPersona" by blast
    have "sess \<in> set (tSessions (pg c1))" "keysOK (pg c1)"
      using sessionByToken_reads[OF q s[unfolded y] ok] by (simp_all add: sound_def)
    then have guest: "preferred \<noteq> [] \<longrightarrow> Guest sess"
      using p by (auto simp: keysOK_def KindOrHuman_def KindHuman_def KindAIPersona_def split: if_splits)
    obtain c2 z where f: "freezePoints w (i + 1) sess c1 = (c2, z)" by fastforce
    have g2: "goes w i c j c2" if "i \<le> j" for j
      using goes_later[OF goes_trans[OF g1[OF order_refl] freezePoints_goes[OF q f]] that] .
    show ?thesis
    proof (cases z)
      case (Inl e)
      then show ?thesis using o g1 g2 p unfolding pgCreateRequest_def s y
        by (auto simp: Let_def f split: if_splits)
    next
      case (Inr frozen)
      let ?req = "pgNewRequest (pids w i 0) sess model messages ?limit allowAI preferred frozen (pclk w i)"
      let ?route = "command w (i + 5) (setRequestRouting R (ReqID ?req) (RequesterKind ?req) allowAI preferred)"
      let ?queue = "command w (i + 6) (enqueueRequest R (ReqID ?req))"
      obtain c3 v where t: "txn w (i + 4) (createTx ?req) c2 = (c3, v)" by fastforce
      obtain c4 u where r: "?route c3 = (c4, u)" by fastforce
      obtain c5 u' where e: "?queue c4 = (c5, u')" by fastforce
      have lim: "0 < ?limit" "?limit \<le> OutputLimitChars" by (simp_all add: OutputLimitChars_def)
      note g = goes_trans[OF g2[OF order_refl] create_goes[OF q guest freezePoints_amount[OF f[unfolded Inr]] lim t]]
      note g' = goes_trans[OF g command_goes[OF q r]]
      have g3: "goes w i c j c3" "goes w i c j c4" "goes w i c j c5" if "i \<le> j" for j
        using goes_later[OF g that] goes_later[OF g' that] goes_later[OF goes_trans[OF g' command_goes[OF q e]] that] .
      have pf: "\<not> (preferred \<noteq> [] \<and> KindOrHuman (SesKind sess) \<noteq> KindAIPersona)" using p by blast
      have "pgCreateRequest R w n i token model messages limit0 allowAI preferred c =
          (if sum_list (map (\<lambda>m. RuneCountInString (Content m)) messages) > InputLimitChars
           then Returned (i, c, Inl (Svc ErrInputTooLarge))
           else case v of Inl e \<Rightarrow> Returned (i + 5, c3, Inl e)
           | Inr _ \<Rightarrow> if u then Returned (i + 6, c4, Inl DbFailure)
                else if u' then Returned (i + 7, c5, Inl DbFailure) else thenDrain R w n (i + 7) c5 (Inr ?req))"
        unfolding pgCreateRequest_def s y prod.case sum.case if_not_P[OF pf] Let_def f Inr t r
        by (cases u; cases u') (simp_all only: bool.case prod.case e if_True if_False)
      then have "k = i \<and> c' = c \<or> (i \<le> k \<and> (c' = c3 \<or> c' = c4 \<or> c' = c5)) \<or> thenDrain R w n (i + 7) c5 (Inr ?req) = Returned (k, c', x)"
        using o by (auto split: if_splits sum.splits)
      then show ?thesis using g3[of k] goes_drain[OF q _ g3(3)[of "i + 7"]] by auto
    qed
  qed
qed

lemma pgCreateTargetedRequest_goes:
  "steady w \<Longrightarrow> pgCreateTargetedRequest R w n i token model messages limit0 preferred c = Returned (k, c', x) \<Longrightarrow> goes w i c k c'"
  by (auto simp: pgCreateTargetedRequest_def split: if_splits dest: pgCreateRequest_goes)

section \<open>Responders\<close>

lemma snapshot_goes: "steady w \<Longrightarrow> pgRequestSnapshot w j rid c = (c', x) \<Longrightarrow> goes w i c i c'"
  unfolding pgRequestSnapshot_def by (auto split: prod.splits sum.splits option.splits intro: query_goes goes_trans)

lemma active_goes: "steady w \<Longrightarrow> activeRequestForResponder w j sid c = (c', x) \<Longrightarrow> goes w i c i c'"
  unfolding activeRequestForResponder_def by (auto split: prod.splits sum.splits intro: query_goes)

lemma goes_conns: "goes w i c k c' \<Longrightarrow> goes w i c k (c'\<lparr>conns := xs\<rparr>)"
  by (simp add: goes_def)

lemma pgUnregisterResponder_goes:
  assumes q: "steady w" and o: "pgUnregisterResponder R w n i sid c = Returned (k, c', x)"
  shows "goes w i c k c'"
proof -
  let ?c0 = "c\<lparr>conns := filter (\<lambda>x. x \<noteq> sid) (conns c)\<rparr>"
  let ?c2 = "tell w (i + 3) (HDEL R responderKindKey sid) (tell w (i + 2) (HDEL R responderAIKey sid)
     (tell w (i + 1) (removeAvailable R sid) (tell w i (dropPresence R sid) ?c0)))"
  have g0: "goes w i c i ?c2" using q by (intro goes_tell goes_conns goes_refl)
  obtain c3 y where a: "activeRequestForResponder w (i + 4) sid ?c2 = (c3, y)" by fastforce
  note g3 = goes_trans[OF g0 active_goes[OF q a]]
  have g: "goes w i c j c3" if "i \<le> j" for j using goes_later[OF g3 that] .
  show ?thesis
  proof (cases "\<exists>rid. y = Inr rid \<and> rid \<noteq> []")
    case False
    then show ?thesis using o g unfolding pgUnregisterResponder_def Let_def a by (auto split: sum.splits)
  next
    case True
    then obtain rid where y: "y = Inr rid" "rid \<noteq> []" by blast
    obtain c4 z where t: "txn w (i + 5) (leaveTx (pids w i 0) (pclk w i) rid) c3 = (c4, z)" by fastforce
    have g4: "goes w i c j c4" if "i + 1 \<le> j" for j using goes_later[OF goes_trans[OF g3 leave_goes[OF q t]] that] .
    have "c' = c4 \<and> k = i + 6 \<or> (\<exists>c6. goes w i c (i + 9) c6 \<and> thenDrain R w n (i + 9) c6 () = Returned (k, c', x))"
      using o y q g4 unfolding pgUnregisterResponder_def Let_def a y(1) prod.case sum.case
      by (auto simp: t split: sum.splits leaving.splits intro!: goes_effects exI conjI)
    then show ?thesis using g4 goes_drain[OF q] by auto
  qed
qed

lemma pgRegisterResponder_goes:
  assumes q: "steady w" and o: "pgRegisterResponder R w i token c = (k, c', x)"
  shows "goes w i c k c'"
proof -
  obtain c1 y where s: "sessionByToken w i token c = (c1, y)" by fastforce
  note g1 = sessionByToken_goes[OF q s, of i]
  show ?thesis
  proof (cases y)
    case (Inl e)
    then show ?thesis using o goes_later[OF g1] by (auto simp: pgRegisterResponder_def s)
  next
    case (Inr sess)
    obtain c2 u where h: "command w (i + 1) (heartbeat R (pclk w i) (SesID sess)) c1 = (c2, u)" by fastforce
    obtain c3 u' where l: "command w (i + 2) (HSET R responderKindKey (SesID sess) (KindOrHuman (SesKind sess))) c2 = (c3, u')" by fastforce
    note g2 = goes_trans[OF g1 command_goes[OF q h]]
    note g3 = goes_trans[OF g2 command_goes[OF q l]]
    let ?c4 = "c3\<lparr>conns := List.insert (SesID sess) (conns c3)\<rparr>"
    obtain c5 z where a: "activeRequestForResponder w (i + 3) (SesID sess) ?c4 = (c5, z)" by fastforce
    note g5 = goes_trans[OF goes_conns[OF g3] active_goes[OF q a]]
    let ?rid = "case z of Inl _ \<Rightarrow> [] | Inr rid \<Rightarrow> rid"
    obtain c6 v where n: "pgRequestSnapshot w (i + 4) ?rid c5 = (c6, v)" by fastforce
    note g6 = goes_trans[OF g5 snapshot_goes[OF q n]]
    have "i \<le> k \<and> (c' = c2 \<or> c' = c3 \<or> c' = c5 \<or> c' = c6 \<or> (\<exists>a. c' = publishAssignment w (i + 6) (SesID sess) a c6))"
      using o unfolding pgRegisterResponder_def s Inr prod.case sum.case h
      by (cases u; cases u') (auto simp: l a n Let_def split: if_splits sum.splits prod.splits)
    then show ?thesis using g2 g3 g5 g6 q by (auto intro!: goes_assignment intro: goes_later)
  qed
qed

lemma goes_available:
  "steady w \<Longrightarrow> goes w i c i c2 \<Longrightarrow> i \<le> j \<Longrightarrow>
     (case putAvailable R w j' sid c2 of (c3, True) \<Rightarrow> Returned (j, c3, e) | (c3, False) \<Rightarrow> thenDrain R w n j c3 v) = Returned (k, c', x) \<Longrightarrow>
     goes w i c k c'"
  by (auto split: prod.splits bool.splits elim!: goes_drain[rotated]
      intro: goes_later[OF goes_trans[OF _ putAvailable_goes]])

lemma pgMarkResponderAvailable_goes:
  assumes q: "steady w" and o: "pgMarkResponderAvailable R w n i sid acc c = Returned (k, c', x)"
  shows "goes w i c k c'"
proof (cases "sid \<in> set (conns c)")
  case False
  then show ?thesis using o by (auto simp: pgMarkResponderAvailable_def)
next
  case True
  let ?set = "HSET R responderAIKey sid (if acc = [] \<or> hd acc then ''1'' else ''0'')"
  obtain c1 u where h: "command w i ?set c = (c1, u)" by fastforce
  note g1 = command_goes[OF q h, of i]
  obtain c2 y where a: "activeRequestForResponder w (i + 1) sid c1 = (c2, y)" by fastforce
  note g2 = goes_trans[OF g1 active_goes[OF q a]]
  let ?c3 = "tell w (i + 2) (heartbeat R (pclk w i) sid) c2"
  have run: "pgMarkResponderAvailable R w n i sid acc c =
      (if u then Returned (i + 1, c1, Inl DbFailure)
       else if (case y of Inl _ \<Rightarrow> [] | Inr rid \<Rightarrow> rid) \<noteq> [] then Returned (i + 2, c2, Inr ())
       else (case putAvailable R w (i + 3) sid ?c3 of
               (c3, True) \<Rightarrow> Returned (i + 5, c3, Inl DbFailure) | (c3, False) \<Rightarrow> thenDrain R w n (i + 5) c3 (Inr ())))"
    using True by (cases u) (simp_all only: pgMarkResponderAvailable_def Let_def h a prod.case bool.case if_True if_False not_True_eq_False not_False_eq_True)
  have "u \<or> (case y of Inl _ \<Rightarrow> [] | Inr rid \<Rightarrow> rid) \<noteq> [] \<Longrightarrow> ?thesis"
    using o g1 g2 unfolding run by (auto split: if_splits intro: goes_later)
  moreover have "\<not> u \<Longrightarrow> (case y of Inl _ \<Rightarrow> [] | Inr rid \<Rightarrow> rid) = [] \<Longrightarrow> ?thesis"
    using goes_available[OF q goes_tell[OF q g2], of "i + 5"] o unfolding run by simp
  ultimately show ?thesis by blast
qed

lemma pgResumeResponder_goes:
  assumes q: "steady w" and o: "pgResumeResponder R w n i sid c = Returned (k, c', x)"
  shows "goes w i c k c'"
proof -
  obtain c1 y where a: "activeRequestForResponder w i sid c = (c1, y)" by fastforce
  note g1 = active_goes[OF q a, of i]
  obtain c2 z where s: "ask w (i + 1) (ZSCORE R presenceKey sid) c1 = (c2, z)" by fastforce
  note g2 = goes_trans[OF g1 ask_goes[OF q s]]
  let ?busy = "(case y of Inl _ \<Rightarrow> [] | Inr rid \<Rightarrow> rid) \<noteq> []"
  show ?thesis
  proof (cases "\<not> ?busy \<and> (\<exists>score. z = Inr (Some score) \<and> \<not> score < minFresh (pclk w i))")
    case True
    then show ?thesis using o goes_available[OF q g2, of "i + 4"] unfolding pgResumeResponder_def a by (auto simp: s)
  next
    case False
    then show ?thesis using o g1 g2 unfolding pgResumeResponder_def a
      by (auto simp: s split: if_splits sum.splits option.splits intro: goes_later)
  qed
qed

section \<open>Timeouts\<close>

text \<open>What the sweeper has read stays true of the rows as far as its transactions rely on it.\<close>

definition targets :: "pgdb \<Rightarrow> (string \<times> string) list \<Rightarrow> bool" where
  "targets d xs \<longleftrightarrow> (\<forall>p \<in> set xs. \<exists>r. requestRow d (fst p) = Some r \<and> PreferredResponderSessionID r = snd p)"

definition answered :: "pgdb \<Rightarrow> Request list \<Rightarrow> bool" where
  "answered d rs \<longleftrightarrow> (\<forall>r0 \<in> set rs. \<exists>r. requestRow d (ReqID r0) = Some r \<and>
     (Status r = StatusStreaming \<or> isTerminalStatus (Status r)) \<and> (Status r = StatusStreaming \<longrightarrow> sameResponder r0 r))"

lemma targets_keep:
  assumes "targets d xs" and "rowsOK d" and "dbstep\<^sup>*\<^sup>* d d'"
  shows "targets d' xs"
proof -
  have g: "grows d d'" using grows_steps[OF assms(3,2)] .
  show ?thesis
    unfolding targets_def
  proof
    fix p assume "p \<in> set xs"
    then obtain r where r: "requestRow d (fst p) = Some r" "PreferredResponderSessionID r = snd p"
      using assms(1) by (auto simp: targets_def)
    then obtain r' where "requestRow d' (fst p) = Some r'" "rowGrows d d' (fst p) r r'" using g by (auto simp: grows_def)
    then show "\<exists>r. requestRow d' (fst p) = Some r \<and> PreferredResponderSessionID r = snd p"
      using r(2) by (auto simp: rowGrows_def sameQuestion_def)
  qed
qed

lemma answered_keep:
  assumes "answered d rs" and "rowsOK d" and "dbstep\<^sup>*\<^sup>* d d'"
  shows "answered d' rs"
proof -
  have g: "grows d d'" using grows_steps[OF assms(3,2)] .
  show ?thesis
    unfolding answered_def
  proof
    fix r0 assume "r0 \<in> set rs"
    then obtain r where r: "requestRow d (ReqID r0) = Some r" "Status r = StatusStreaming \<or> isTerminalStatus (Status r)"
      "Status r = StatusStreaming \<longrightarrow> sameResponder r0 r" using assms(1) by (auto simp: answered_def)
    then obtain r' where r': "requestRow d' (ReqID r0) = Some r'" "rowGrows d d' (ReqID r0) r r'" using g by (auto simp: grows_def)
    have "(Status r' = StatusStreaming \<or> isTerminalStatus (Status r')) \<and> (Status r' = StatusStreaming \<longrightarrow> sameResponder r0 r')"
      using r(2)
    proof
      assume s: "Status r = StatusStreaming"
      then have "answering r r'" "sameResponder r0 r" using r'(2) r(3) by (auto simp: rowGrows_def)
      then show ?thesis by (auto simp: answering_def sameResponder_def isTerminalStatus_def)
    next
      assume t: "isTerminalStatus (Status r)"
      then have "Status r' = Status r" using r'(2) by (auto simp: rowGrows_def over_def)
      then show ?thesis using t by (auto simp: isTerminalStatus_def)
    qed
    then show "\<exists>r. requestRow d' (ReqID r0) = Some r \<and> (Status r = StatusStreaming \<or> isTerminalStatus (Status r)) \<and>
        (Status r = StatusStreaming \<longrightarrow> sameResponder r0 r)" using r'(1) by blast
  qed
qed

lemma revoke_goes:
  assumes q: "steady w" and t: "txn w j (revokeTx now cutoff p) c = (c', x)" and tg: "targets (pg c) (p # ps)" and ok: "rowsOK (pg c)"
  shows "goes w i c i c'"
proof (rule txn_same_ids[OF q t])
  fix d d' v
  assume s: "sound w i d" and r: "dbstep\<^sup>*\<^sup>* (pg c) d" and v: "revokeTx now cutoff p d = (d', Inr v)"
  have "targets d (p # ps)" using targets_keep[OF tg ok r] .
  then show "dbstep\<^sup>*\<^sup>* d d'" using revokeTx_step[of d now cutoff "fst p" "snd p" d' v] s v by (auto simp: sound_def targets_def)
qed (rule revokeTx_ids)

lemma close_goes:
  assumes q: "steady w" and t: "txn w j (closeTx (pids w i l) now cutoff r) c = (c', x)" and tg: "answered (pg c) (r # rs)"
    and ok: "rowsOK (pg c)"
  shows "goes w i c (i + 1) c'"
proof (rule txn_own_id[OF q t, where m = i])
  fix d d' v
  assume s: "sound w i d" "\<And>l. freshPts d (pids w i l)" and r: "dbstep\<^sup>*\<^sup>* (pg c) d"
    and v: "closeTx (pids w i l) now cutoff r d = (d', Inr v)"
  have "answered d (r # rs)" using answered_keep[OF tg ok r] .
  then have "\<And>x. requestRow d (ReqID r) = Some x \<Longrightarrow> Status x = StatusStreaming \<Longrightarrow> sameResponder r x"
    by (auto simp: answered_def)
  then show "dbstep\<^sup>*\<^sup>* d d' \<and> ptsIDs d' \<subseteq> ptsIDs d \<union> (\<lambda>l. pgNewID ''pts'' (pids w i l)) ` UNIV"
    using closeTx_step[OF _ s(2) v] closeTx_ids[OF v] s(1) by (auto simp: sound_def)
qed simp_all

lemma sweepAssigned_goes:
  assumes q: "steady w" and o: "sweepAssigned R w now cutoff xs i c = (k, c', ch)" and tg: "targets (pg c) xs"
  shows "goes w i c k c'"
  using o tg
proof (induction xs arbitrary: i c k ch)
  case (Cons p xs)
  show ?case
  proof (rule goes_if)
    assume ok: "sound w i (pg c)"
    obtain c1 y where t: "txn w i (revokeTx now cutoff p) c = (c1, y)" by fastforce
    have g1: "goes w i c (i + 4) c1" using goes_later[OF revoke_goes[OF q t Cons.prems(2) sound_rows[OF ok], of i]] by simp
    obtain c2 ch2 ch3 where rest: "sweepAssigned R w now cutoff xs (i + 4) c2 = (k, c', ch3)" and g2: "goes w i c (i + 4) c2"
      using Cons.prems(1) g1 q by (auto simp: t Let_def intro!: goes_effects split: prod.splits if_splits)
    have "dbstep\<^sup>*\<^sup>* (pg c) (pg c2)" using g2 ok by (simp add: goes_def)
    then have "targets (pg c2) xs" using targets_keep[OF _ sound_rows[OF ok]] Cons.prems(2) by (auto simp: targets_def)
    then show "goes w i c k c'" using goes_trans[OF g2 Cons.IH[OF rest]] by blast
  qed
qed simp

lemma sweepStreaming_goes:
  assumes q: "steady w" and o: "sweepStreaming R w now cutoff rs i c = (k, c', ch)" and tg: "answered (pg c) rs"
  shows "goes w i c k c'"
  using o tg
proof (induction rs arbitrary: i c k ch)
  case (Cons r rs)
  show ?case
  proof (rule goes_if)
    assume ok: "sound w i (pg c)"
    obtain c1 y where t: "txn w i (closeTx (pids w i 0) now cutoff r) c = (c1, y)" by fastforce
    have g1: "goes w i c (i + 4) c1" using goes_later[OF close_goes[OF q t Cons.prems(2) sound_rows[OF ok]]] by simp
    obtain c2 ch3 where rest: "sweepStreaming R w now cutoff rs (i + 4) c2 = (k, c', ch3)" and g2: "goes w i c (i + 4) c2"
      using Cons.prems(1) g1 goes_settle[OF q g1] by (auto simp: t Let_def split: prod.splits sum.splits)
    have "dbstep\<^sup>*\<^sup>* (pg c) (pg c2)" using g2 ok by (simp add: goes_def)
    then have "answered (pg c2) rs" using answered_keep[OF _ sound_rows[OF ok]] Cons.prems(2) by (auto simp: answered_def)
    then show "goes w i c k c'" using goes_trans[OF g2 Cons.IH[OF rest]] by blast
  qed
qed simp

lemma table_row: "rowsOK d \<Longrightarrow> r \<in> set (map (scanRequest \<circ> snd) (tRequests d)) \<Longrightarrow> requestRow d (ReqID r) = Some r"
  by (rule in_rows) (auto simp: rowsOK_def rowOK_def)

lemma stale_targets: "rowsOK d \<Longrightarrow> targets d (staleAssigned d cutoff)"
  using table_row[of d] by (auto simp: targets_def staleAssigned_def)

lemma stale_answered: "rowsOK d \<Longrightarrow> answered d (staleStreaming d cutoff)"
  using table_row[of d] by (auto simp: answered_def staleStreaming_def)

lemma sweep_first_goes:
  assumes q: "steady w" and d: "0 \<le> i"
    and o: "(if b then (case query w i (\<lambda>d. staleAssigned d cutoff) c of (c', Inl _) \<Rightarrow> (i + 1, c', [])
       | (c', Inr stale) \<Rightarrow> sweepAssigned R w now cutoff stale (i + 1) c') else (i, c, [])) = (k, c'', ch)"
  shows "goes w i c k c''"
proof (rule goes_if)
  assume ok: "sound w i (pg c)"
  obtain c1 y where s: "query w i (\<lambda>d. staleAssigned d cutoff) c = (c1, y)" by fastforce
  have g: "goes w i c (i + 1) c1" using goes_later[OF query_goes[OF q s]] by simp
  have "targets (pg c1) stale" if "y = Inr stale" for stale
    using query_reads[OF q s[unfolded that] ok] by (auto intro: stale_targets dest: sound_rows)
  then show ?thesis using o g sweepAssigned_goes[OF q] goes_trans[OF g] by (auto simp: s split: if_splits sum.splits)
qed

lemma sweep_second_goes:
  assumes q: "steady w"
    and o: "(if b then (case query w i (\<lambda>d. staleStreaming d cutoff) c of (c', Inl _) \<Rightarrow> (i + 1, c', [])
       | (c', Inr stale) \<Rightarrow> sweepStreaming R w now cutoff stale (i + 1) c') else (i, c, [])) = (k, c'', ch)"
  shows "goes w i c k c''"
proof (rule goes_if)
  assume ok: "sound w i (pg c)"
  obtain c1 y where s: "query w i (\<lambda>d. staleStreaming d cutoff) c = (c1, y)" by fastforce
  have g: "goes w i c (i + 1) c1" using goes_later[OF query_goes[OF q s]] by simp
  have "answered (pg c1) stale" if "y = Inr stale" for stale
    using query_reads[OF q s[unfolded that] ok] by (auto intro: stale_answered dest: sound_rows)
  then show ?thesis using o g sweepStreaming_goes[OF q] goes_trans[OF g] by (auto simp: s split: if_splits sum.splits)
qed

lemma pgSweepTimeouts_goes:
  assumes q: "steady w" and o: "pgSweepTimeouts R w n i now a b c = Returned (k, c', ch)"
  shows "goes w i c k c'"
proof -
  obtain i1 c1 ch1 where s1: "(if 0 < a then (case query w i (\<lambda>d. staleAssigned d (now - a)) c of (c', Inl _) \<Rightarrow> (i + 1, c', [])
       | (c', Inr stale) \<Rightarrow> sweepAssigned R w now (now - a) stale (i + 1) c') else (i, c, [])) = (i1, c1, ch1)" by (rule prod_cases3)
  obtain i2 c2 ch2 where s2: "(if 0 < b then (case query w i1 (\<lambda>d. staleStreaming d (now - b)) c1 of (c', Inl _) \<Rightarrow> (i1 + 1, c', [])
       | (c', Inr stale) \<Rightarrow> sweepStreaming R w now (now - b) stale (i1 + 1) c') else (i1, c1, [])) = (i2, c2, ch2)" by (rule prod_cases3)
  have g: "goes w i c i2 c2" using goes_trans[OF sweep_first_goes[OF q _ s1] sweep_second_goes[OF q s2]] by simp
  have "pgSweepTimeouts R w n i now a b c = (let changed = ch1 @ ch2 in
      if changed \<noteq> [] then thenDrain R w n i2 c2 changed else Returned (i2, c2, changed))"
    unfolding pgSweepTimeouts_def s1 Let_def prod.case s2 ..
  then have run: "Returned (k, c', ch) = (if ch1 @ ch2 \<noteq> [] then thenDrain R w n i2 c2 (ch1 @ ch2) else Returned (i2, c2, ch1 @ ch2))"
    using o by (simp add: Let_def)
  show ?thesis
  proof (cases "ch1 @ ch2 = []")
    case True
    then show ?thesis using run g by simp
  next
    case False
    then have "thenDrain R w n i2 c2 (ch1 @ ch2) = Returned (k, c', ch)" using run by (simp only: if_True simp_thms)
    then show ?thesis by (rule goes_drain[OF q _ g])
  qed
qed

lemma pgRunTimeoutSweeper_goes:
  assumes q: "steady w" and o: "pgRunTimeoutSweeper R w n ticks i c = Returned (k, c')"
  shows "goes w i c k c'"
  using o
proof (induction ticks arbitrary: i c)
  case (Cons now ticks)
  then obtain m c1 ch where s: "pgSweepTimeouts R w n i now AssignedTimeout StreamingInactivityTimeout c = Returned (m, c1, ch)"
    and rest: "pgRunTimeoutSweeper R w n ticks m c1 = Returned (k, c')" by (auto split: run.splits)
  show ?case using goes_trans[OF pgSweepTimeouts_goes[OF q s] Cons.IH[OF rest]] .
qed simp

lemma assignTicker_goes:
  assumes q: "steady w" and o: "assignTicker R w n ticks i c = Returned (k, c')"
  shows "goes w i c k c'"
  using o
proof (induction ticks arbitrary: i c)
  case (Suc ticks)
  then obtain m c1 where s: "drainAssignments R w n i c = Returned (m, c1)" and rest: "assignTicker R w n ticks m c1 = Returned (k, c')"
    by (auto split: run.splits)
  show ?case using goes_trans[OF drain_goes[OF q s] Suc.IH[OF rest]] .
qed simp

section \<open>Accounts and conversations\<close>

lemma authResult_goes: "steady w \<Longrightarrow> pgAuthResult w j sess c = (c', x) \<Longrightarrow> goes w i c i c'"
  unfolding pgAuthResult_def
  by (auto split: if_splits prod.splits sum.splits option.splits intro: query_goes goes_trans[OF query_goes pgBalance_goes])

lemma session_goes:
  assumes q: "steady w" and sess: "SesID sess \<noteq> []" "SesKind sess = KindAIPersona \<longrightarrow> Guest sess"
    and t: "txn w j (createSessionTx sess) c = (c', x)"
  shows "goes w i c i c'"
proof (rule txn_same_ids[OF q t])
  fix d d' v
  assume v: "createSessionTx sess d = (d', Inr v)"
  show "dbstep\<^sup>*\<^sup>* d d'" "ptsIDs d' = ptsIDs d"
    using dbstep.OpenSession[OF sess v] by (auto simp: ptsIDs_def createSessionTx_tables(1)[OF v])
qed

lemma pgCreateSession_goes:
  "steady w \<Longrightarrow> kind = KindAIPersona \<longrightarrow> guest \<Longrightarrow> pgCreateSession w j uid guest nick kind c = (c', x) \<Longrightarrow> goes w i c i c'"
  unfolding pgCreateSession_def Let_def by (erule session_goes[rotated 3]) simp_all

lemma openSession_goes: "steady w \<Longrightarrow> openSession w j dflt kind nick c = (c', x) \<Longrightarrow> goes w i c i c'"
  unfolding openSession_def
  by (auto split: prod.splits sum.splits intro: pgCreateSession_goes goes_trans[OF pgCreateSession_goes authResult_goes])

lemma pgLogin_goes:
  assumes q: "steady w" and o: "pgLogin cmp w j acc pass c = (c', x)"
  shows "goes w i c i c'"
proof -
  obtain c1 y where s: "query w j (\<lambda>d. find (\<lambda>u. AccountName u = TrimSpace acc) (tUsers d)) c = (c1, y)" by fastforce
  note g1 = query_goes[OF q s, of i]
  have h: "KindHuman = KindAIPersona \<longrightarrow> False" by (simp add: KindHuman_def KindAIPersona_def)
  show ?thesis
  proof (cases "\<exists>u. y = Inr (Some u) \<and> cmp (PasswordHash u) pass")
    case False
    then show ?thesis using o g1 unfolding pgLogin_def s by (auto split: sum.splits option.splits if_splits)
  next
    case True
    then obtain u where u: "y = Inr (Some u)" "cmp (PasswordHash u) pass" by blast
    obtain c2 z where n: "pgCreateSession w (j + 1) (UsrID u) False (UsrNickname u) KindHuman c1 = (c2, z)" by fastforce
    note g2 = goes_trans[OF g1 pgCreateSession_goes[OF q h n]]
    have "c' = c2 \<and> x = (case z of Inl e \<Rightarrow> Inl e | Inr _ \<Rightarrow> x) \<or> (\<exists>ses. pgAuthResult w (j + 2) ses c2 = (c', x))"
      using o u unfolding pgLogin_def s by (auto simp: n split: sum.splits)
    then show ?thesis using g2 goes_trans[OF g2 authResult_goes[OF q]] by blast
  qed
qed

lemma registerTx_goes:
  assumes q: "steady w" and k: "SesID sess \<noteq> []" "SesKind sess = KindHuman" "PtsKind grant = ''signup_grant''"
    and id: "PtsID grant = pgNewID ''pts'' (pids w i l)" and t: "txn w j (registerTx u grant sess) c = (c', x)"
  shows "goes w i c (i + 1) c'"
proof (rule txn_own_id[OF q t, where m = i])
  fix d d' v
  assume v: "registerTx u grant sess d = (d', Inr v)"
  show "dbstep\<^sup>*\<^sup>* d d' \<and> ptsIDs d' \<subseteq> ptsIDs d \<union> (\<lambda>l. pgNewID ''pts'' (pids w i l)) ` UNIV"
    using dbstep.Register[OF k v] by (auto simp: registerTx_tables(1)[OF v] ptsIDs_def id)
qed simp_all

lemma pgRegister_goes:
  assumes q: "steady w" and o: "pgRegister gen w i acc nick pass rep c = (c', x)"
  shows "goes w i c (i + 1) c'"
proof -
  have g: "goes w i c (i + 1) c1" if "txn w i (registerTx u
      \<lparr>PtsID = pgNewID ''pts'' (pids w i 1), PtsUserID = uid, PtsRequestID = [], PtsKind = ''signup_grant'', Delta = SignupGrant, PtsCreatedAt = now\<rparr>
      \<lparr>SesID = pgNewID ''ses'' b, Token = tok, SesUserID = uid, Guest = False, SesKind = KindHuman, SesNickname = nk, SesCreatedAt = now\<rparr>) c = (c1, y)"
    for u uid now b tok nk c1 y
    by (rule registerTx_goes[OF q _ _ _ _ that, where l = 1]) simp_all
  show ?thesis
    using o unfolding pgRegister_def Let_def
    by (auto split: if_splits option.splits prod.splits sum.splits intro: goes_stay g goes_trans[OF g authResult_goes[OF q]])
qed

definition onlyConversations :: "pgdb \<Rightarrow> pgdb \<Rightarrow> bool" where
  "onlyConversations d d' \<longleftrightarrow> d' = d\<lparr>tConversations := tConversations d', tMessages := tMessages d'\<rparr>"

lemma conversation_goes:
  assumes q: "steady w" and t: "txn w j body c = (c', x)"
    and b: "\<And>d d' v. body d = (d', Inr v) \<Longrightarrow> onlyConversations d d'"
  shows "goes w i c i c'"
proof (rule txn_same_ids[OF q t])
  fix d d' v
  assume "body d = (d', Inr v)"
  then have e: "d' = d\<lparr>tConversations := tConversations d', tMessages := tMessages d'\<rparr>" using b by (simp add: onlyConversations_def)
  show "dbstep\<^sup>*\<^sup>* d d'" by (subst e) (rule r_into_rtranclp, rule dbstep.Conversation)
  show "ptsIDs d' = ptsIDs d" by (subst e) (simp add: ptsIDs_def)
qed

lemma owned_goes: "steady w \<Longrightarrow> ownedConversation w j sess cid c = (c', x) \<Longrightarrow> goes w i c i c'"
  unfolding ownedConversation_def by (auto split: prod.splits sum.splits option.splits if_splits intro: query_goes)

lemma changeOwned_goes:
  assumes q: "steady w" and f: "\<And>d. onlyConversations d (f d)" and o: "changeOwned w j token cid f c = (c', x)"
  shows "goes w i c i c'"
proof -
  have t: "goes w i c2 i c3" if "txn w k (\<lambda>d. (f d, Inr ())) c2 = (c3, y)" for k c2 c3 y
    using f by (intro conversation_goes[OF q that]) auto
  show ?thesis using o q unfolding changeOwned_def
    by (auto split: prod.splits sum.splits intro: sessionByToken_goes goes_trans[OF sessionByToken_goes owned_goes]
        goes_trans[OF sessionByToken_goes goes_trans[OF owned_goes t]])
qed

lemma updateConversation_only [simp]: "onlyConversations d (updateConversation cid f d)"
  by (auto simp: onlyConversations_def updateConversation_def split: option.splits)

lemma pgRenameConversation_goes: "steady w \<Longrightarrow> pgRenameConversation w j token cid title c = (c', x) \<Longrightarrow> goes w i c i c'"
  unfolding pgRenameConversation_def by (erule changeOwned_goes[rotated 2]) simp_all

lemma pgSetConversationArchived_goes: "steady w \<Longrightarrow> pgSetConversationArchived w j token cid b c = (c', x) \<Longrightarrow> goes w i c i c'"
  unfolding pgSetConversationArchived_def by (erule changeOwned_goes[rotated 2]) simp_all

lemma pgDeleteConversation_goes: "steady w \<Longrightarrow> pgDeleteConversation w j token cid c = (c', x) \<Longrightarrow> goes w i c i c'"
  unfolding pgDeleteConversation_def by (erule changeOwned_goes[rotated 2]) (simp_all add: onlyConversations_def)

lemma pgCreateConversation_goes:
  assumes q: "steady w" and o: "pgCreateConversation w j token title c = (c', x)"
  shows "goes w i c i c'"
proof -
  have t: "goes w i c1 i c2" if "txn w (j + 1) (createConversationTx cv) c1 = (c2, y)" for cv c1 c2 y
    by (rule conversation_goes[OF q that]) (auto simp: createConversationTx_def onlyConversations_def split: if_splits)
  show ?thesis using o q unfolding pgCreateConversation_def Let_def
    by (auto split: prod.splits sum.splits intro: sessionByToken_goes goes_trans[OF sessionByToken_goes t])
qed

lemma appendTx_only: "appendTx b now sess cid role content kind rid d = (d', Inr v) \<Longrightarrow> onlyConversations d d'"
  by (auto simp: appendTx_def Let_def onlyConversations_def updateConversation_def split: option.splits if_splits)

lemma pgAppend_goes:
  "steady w \<Longrightarrow> pgAppendConversationMessage w j token cid role content kind rid c = (c', x) \<Longrightarrow> goes w i c i c'"
  unfolding pgAppendConversationMessage_def
  by (auto split: prod.splits sum.splits intro: sessionByToken_goes
      goes_trans[OF sessionByToken_goes conversation_goes[OF _ _ appendTx_only]])

declare One_nat_def [simp] add_2_eq_Suc [simp] add_2_eq_Suc' [simp]

end
