(* ===== verification/PgStream.thy ===== *)
theory PgStream
  imports PgRefine
begin

text \<open>
  The stream of an answer of the Postgres/Redis backend. Postgres is the source of truth: messages and the
  ticker only wake the goroutine up, and each round reads the fragments beyond the last ordinal sent.
\<close>

definition others :: "'r pgworld \<Rightarrow> bool" where
  "others w \<longleftrightarrow> (\<forall>i c. dbstep\<^sup>*\<^sup>* (pg c) (pg (pext w i c)))"

text \<open>The events of the first \<open>n\<close> fragments of a request.\<close>

definition eventsOf :: "pgdb \<Rightarrow> string \<Rightarrow> nat \<Rightarrow> StreamEvent list" where
  "eventsOf d rid n = map (\<lambda>(f, _). StreamEventFragment rid (FrgText f)) (take n (fragmentRows d rid))"

definition rowsNumbered :: "pgdb \<Rightarrow> string \<Rightarrow> bool" where
  "rowsNumbered d rid \<longleftrightarrow> map snd (fragmentRows d rid) = [1..<Suc (fragmentCount d rid)]"

lemma numbered: "rowsOK d \<Longrightarrow> requestRow d rid = Some r \<Longrightarrow> rowsNumbered d rid"
  by (auto simp: rowsNumbered_def dest!: rowsOK_row simp: rowOK_def rowAnswer_def)

lemma filter_numbered:
  "map snd xs = [m..<m + length xs] \<Longrightarrow> filter (\<lambda>x. snd x > a) xs = drop (Suc a - m) xs"
proof (induction xs arbitrary: m)
  case (Cons x xs)
  have e: "[m..<m + length (x # xs)] = m # [Suc m..<Suc m + length xs]" by (simp add: upt_conv_Cons del: upt_Suc)
  then have h: "snd x = m" and t: "map snd xs = [Suc m..<Suc m + length xs]" using Cons.prems by (simp_all del: upt_Suc)
  show ?case using Cons.IH[OF t] h by (cases "m \<le> a") (simp_all add: Suc_diff_le)
qed simp

lemma rowsAfter_drop:
  assumes "rowsNumbered d rid"
  shows "rowsAfter d rid a = map (\<lambda>(f, n). (n, FrgText f)) (drop a (fragmentRows d rid))"
proof -
  let ?xs = "fragmentRows d rid"
  have m: "map snd ?xs = [1..<1 + length ?xs]" using assms by (simp add: rowsNumbered_def fragmentCount_def)
  have f: "filter (\<lambda>(_, n). n > a) ?xs = drop a ?xs" using filter_numbered[OF m, of a] by (simp add: case_prod_unfold)
  have "map snd (drop a ?xs) = drop a [1..<1 + length ?xs]" by (simp add: drop_map[symmetric] m del: drop_upt)
  then have "sorted (map snd (drop a ?xs))" by (simp only: sorted_wrt_drop sorted_upt)
  then have "sort_key snd (drop a ?xs) = drop a ?xs" by (rule sort_key_id_if_sorted)
  then show ?thesis by (simp add: rowsAfter_def f)
qed


lemma eventsOf_all: "fragmentCount d rid \<le> n \<Longrightarrow> eventsOf d rid n = eventsOf d rid (fragmentCount d rid)"
  by (simp add: eventsOf_def fragmentCount_def)

lemma emitRows_spec:
  assumes "map snd xs = [Suc a..<Suc a + length xs]"
  shows "\<exists>m \<le> length xs. emitRows gone rid (map (\<lambda>(f, n). (n, FrgText f)) xs) a evs =
      (a + m, evs @ map (\<lambda>(f, _). StreamEventFragment rid (FrgText f)) (take m xs), m = length xs)"
  using assms
proof (induction xs arbitrary: a evs)
  case (Cons x xs)
  obtain f n where x: "x = (f, n)" by fastforce
  have e: "[Suc a..<Suc a + length (x # xs)] = Suc a # [Suc (Suc a)..<Suc (Suc a) + length xs]" by (simp add: upt_conv_Cons del: upt_Suc)
  have n: "n = Suc a" and t: "map snd xs = [Suc (Suc a)..<Suc (Suc a) + length xs]" using Cons.prems unfolding e by (simp_all add: x)
  show ?case
  proof (cases "gone (length evs)")
    case True
    then show ?thesis by (intro exI[of _ 0]) (simp add: x)
  next
    case False
    obtain m where m: "m \<le> length xs"
      "emitRows gone rid (map (\<lambda>(f, n). (n, FrgText f)) xs) (Suc a) (evs @ [StreamEventFragment rid (FrgText f)]) =
        (Suc a + m, (evs @ [StreamEventFragment rid (FrgText f)]) @ map (\<lambda>(f, _). StreamEventFragment rid (FrgText f)) (take m xs), m = length xs)"
      using Cons.IH[OF t] by blast
    then show ?thesis using False by (intro exI[of _ "Suc m"]) (simp add: x n)
  qed
qed simp

text \<open>
  One read of the loop: from the first \<open>a\<close> fragments to the first \<open>n\<close>; it reaches the end unless the query
  fails or the consumer leaves.
\<close>

definition seen :: "pgdb \<Rightarrow> string \<Rightarrow> nat \<Rightarrow> bool" where
  "seen d rid a \<longleftrightarrow> rowsOK d \<and> requestRow d rid \<noteq> None \<and> a \<le> fragmentCount d rid"

lemma seen_later:
  assumes "seen d rid a" and "dbstep\<^sup>*\<^sup>* d d'"
  shows "seen d' rid a" "eventsOf d' rid a = eventsOf d rid a"
proof -
  obtain r where r: "requestRow d rid = Some r" and ok: "rowsOK d" and a: "a \<le> fragmentCount d rid" using assms(1) by (auto simp: seen_def)
  obtain r' fs where r': "requestRow d' rid = Some r'" "fragmentRows d' rid = fragmentRows d rid @ fs"
    using grows_steps[OF assms(2) ok] r by (fastforce simp: grows_def rowGrows_def)
  show "seen d' rid a" using r' a rowsOK_steps[OF assms(2) ok] by (simp add: seen_def fragmentCount_def)
  show "eventsOf d' rid a = eventsOf d rid a" using r'(2) a by (simp add: eventsOf_def fragmentCount_def)
qed

lemma drain_spec:
  assumes o: "others w" and s: "seen (pg c) rid a"
    and q: "drainFragmentsAfter gone w i rid a (eventsOf (pg c) rid a) c = (c', n, evs, b)"
  shows "c' = pext w i c" "dbstep\<^sup>*\<^sup>* (pg c) (pg c')" "seen (pg c') rid n" "evs = eventsOf (pg c') rid n"
    "pfail w i = None \<Longrightarrow> b = (n = fragmentCount (pg c') rid)" "a \<le> n"
    "pfail w i = None \<Longrightarrow> gone = (\<lambda>_. False) \<Longrightarrow> b"
proof -
  let ?d = "pg (pext w i c)"
  have st: "dbstep\<^sup>*\<^sup>* (pg c) ?d" using o by (simp add: others_def)
  note l = seen_later[OF s st]
  have num: "rowsNumbered ?d rid" using l(1) numbered by (fastforce simp: seen_def)
  let ?xs = "drop a (fragmentRows ?d rid)"
  have "map snd ?xs = drop a [1..<Suc (fragmentCount ?d rid)]" using num by (simp add: rowsNumbered_def drop_map[symmetric] del: upt_Suc drop_upt)
  then have m: "map snd ?xs = [Suc a..<Suc a + length ?xs]" using l(1) by (simp add: seen_def fragmentCount_def del: upt_Suc)
  obtain k where k: "k \<le> length ?xs" "emitRows gone rid (rowsAfter ?d rid a) a (eventsOf (pg c) rid a) =
      (a + k, eventsOf (pg c) rid a @ map (\<lambda>(f, _). StreamEventFragment rid (FrgText f)) (take k ?xs), k = length ?xs)"
    using emitRows_spec[OF m, of gone rid "eventsOf (pg c) rid a"] unfolding rowsAfter_drop[OF num] by blast
  have ev: "eventsOf (pg c) rid a @ map (\<lambda>(f, _). StreamEventFragment rid (FrgText f)) (take k ?xs) = eventsOf ?d rid (a + k)"
    using l(2) by (simp add: eventsOf_def take_add)
  have res: "(c', n, evs, b) = (case pfail w i of None \<Rightarrow> (pext w i c, a + k, eventsOf ?d rid (a + k), k = length ?xs)
      | Some _ \<Rightarrow> (pext w i c, a, eventsOf ?d rid a, True))"
    using q k(2) ev l(2) by (auto simp: drainFragmentsAfter_def query_def Let_def split: option.splits)
  have len: "fragmentCount ?d rid = a + length ?xs" using l(1) by (simp add: seen_def fragmentCount_def)
  show "c' = pext w i c" "dbstep\<^sup>*\<^sup>* (pg c) (pg c')" "seen (pg c') rid n" "evs = eventsOf (pg c') rid n"
    "pfail w i = None \<Longrightarrow> b = (n = fragmentCount (pg c') rid)" "a \<le> n"
    using res st l k(1) len by (auto simp: seen_def split: option.splits)
  have "emitRows (\<lambda>_. False) rid ys a' e = (h, e', z) \<Longrightarrow> z" for ys a' e h e' z
    by (induction ys arbitrary: a' e) auto
  then show "pfail w i = None \<Longrightarrow> gone = (\<lambda>_. False) \<Longrightarrow> b" using res k(2) by auto
qed


declare One_nat_def [simp del] add_2_eq_Suc [simp del] add_2_eq_Suc' [simp del]

text \<open>The stream so far: a part of the answer, perhaps followed by the end mark of an ended request.\<close>

definition ended :: "pgdb \<Rightarrow> string \<Rightarrow> Request \<Rightarrow> bool" where
  "ended d rid r \<longleftrightarrow> requestRow d rid = Some r \<and> isTerminalStatus (Status r)"

lemma ended_later:
  assumes "ended d rid r" and "rowsOK d" and "dbstep\<^sup>*\<^sup>* d d'"
  shows "\<exists>r'. ended d' rid r' \<and> ReqFinish r' = ReqFinish r"
proof -
  have r: "requestRow d rid = Some r" "isTerminalStatus (Status r)" using assms(1) by (simp_all add: ended_def)
  obtain r' where "requestRow d' rid = Some r'" "rowGrows d d' rid r r'" using grows_steps[OF assms(3,2)] r(1) by (auto simp: grows_def)
  then show ?thesis using r(2) by (auto simp: ended_def rowGrows_def over_def isTerminalStatus_def)
qed

lemma terminalState_spec:
  assumes o: "others w" and s: "seen (pg c) rid n" and t: "terminalState w i rid c = (c', x)"
  shows "c' = pext w i c" "dbstep\<^sup>*\<^sup>* (pg c) (pg c')" "x = Some fin \<Longrightarrow> \<exists>r. ended (pg c') rid r \<and> ReqFinish r = fin"
    "pfail w i = None \<Longrightarrow> ended (pg c') rid r \<Longrightarrow> x = Some (ReqFinish r)"
  using o t by (auto simp: terminalState_def query_def ended_def others_def Let_def split: option.splits if_splits)

definition finished :: "pgdb \<Rightarrow> string \<Rightarrow> nat \<Rightarrow> StreamEvent list \<Rightarrow> bool" where
  "finished d rid n evs \<longleftrightarrow> (\<exists>r. ended d rid r \<and> evs = eventsOf d rid n @ [StreamEventDone rid (ReqFinish r)])"

lemma flush_spec:
  assumes o: "others w" and s: "seen (pg c) rid a"
    and f: "flush gone w i rid a (eventsOf (pg c) rid a) c = (c', n, evs, go)"
  shows "dbstep\<^sup>*\<^sup>* (pg c) (pg c')" "seen (pg c') rid n"
    "evs = eventsOf (pg c') rid n \<or> \<not> go \<and> finished (pg c') rid n evs \<and> (pfail w (i + 2) = None \<longrightarrow> n = fragmentCount (pg c') rid)"
    "ended (pg c) rid r \<Longrightarrow> gone = (\<lambda>_. False) \<Longrightarrow> \<forall>j \<in> {i, i + 1, i + 2}. pfail w j = None \<Longrightarrow> \<not> go \<and> finished (pg c') rid n evs"
proof -
  obtain c1 n1 e1 b1 where d1: "drainFragmentsAfter gone w i rid a (eventsOf (pg c) rid a) c = (c1, n1, e1, b1)" by (metis prod_cases4)
  note p1 = drain_spec[OF o s d1]
  obtain c2 x where t: "terminalState w (i + 1) rid c1 = (c2, x)" by fastforce
  note p2 = terminalState_spec[OF o p1(3) t]
  note l2 = seen_later[OF p1(3) p2(2)]
  obtain c3 n3 e3 b3 where d3: "drainFragmentsAfter gone w (i + 2) rid n1 (eventsOf (pg c2) rid n1) c2 = (c3, n3, e3, b3)" by (metis prod_cases4)
  note p3 = drain_spec[OF o l2(1) d3]
  have e1: "e1 = eventsOf (pg c2) rid n1" using p1(4) l2(2) by simp
  have res: "(c', n, evs, go) = (if \<not> b1 then (c1, n1, e1, False) else case x of None \<Rightarrow> (c2, n1, e1, True)
      | Some fin \<Rightarrow> (c3, n3, if b3 \<and> \<not> gone (length e3) then e3 @ [StreamEventDone rid fin] else e3, False))"
    using f unfolding flush_def d1 by (cases b1) (auto simp: t d3[folded e1] split: option.splits)
  have s2: "dbstep\<^sup>*\<^sup>* (pg c) (pg c2)" using p1(2) p2(2) by simp
  have s3: "dbstep\<^sup>*\<^sup>* (pg c) (pg c3)" using s2 p3(2) by simp
  have rows: "rowsOK (pg c2)" using l2(1) by (simp add: seen_def)
  have fin: "\<exists>r. ended (pg c3) rid r \<and> ReqFinish r = fin" if "x = Some fin" for fin
    using p2(3)[OF that] ended_later[OF _ rows p3(2)] by metis
  show "dbstep\<^sup>*\<^sup>* (pg c) (pg c')" "seen (pg c') rid n"
    using res p1(2,3) s2 s3 l2(1) p3(3) by (auto split: if_splits option.splits)
  show "evs = eventsOf (pg c') rid n \<or> \<not> go \<and> finished (pg c') rid n evs \<and> (pfail w (i + 2) = None \<longrightarrow> n = fragmentCount (pg c') rid)"
    using res p1(4) e1 p3(4,5) fin by (auto simp: finished_def split: if_splits option.splits)
  show "\<not> go \<and> finished (pg c') rid n evs"
    if e: "ended (pg c) rid r" and g: "gone = (\<lambda>_. False)" and ok: "\<forall>j \<in> {i, i + 1, i + 2}. pfail w j = None"
  proof -
    have "b1" "b3" using p1(7) p3(7) g ok by simp_all
    moreover have "rowsOK (pg c)" using s by (simp add: seen_def)
    then obtain r' where "ended (pg c2) rid r'" using ended_later[OF e _ s2] by blast
    then have "x = Some (ReqFinish r')" using p2(4) ok by simp
    ultimately show ?thesis using res fin p3(4) g by (auto simp: finished_def)
  qed
qed

lemma streamRounds_spec:
  assumes o: "others w" and s: "seen (pg c) rid a"
    and f: "streamRounds gone w rid rounds i a (eventsOf (pg c) rid a) c = (c', evs, go)"
  shows "\<exists>n. dbstep\<^sup>*\<^sup>* (pg c) (pg c') \<and> seen (pg c') rid n \<and>
    (evs = eventsOf (pg c') rid n \<or> \<not> go \<and> finished (pg c') rid n evs \<and> ((\<forall>j. pfail w j = None) \<longrightarrow> n = fragmentCount (pg c') rid))"
  using s f
proof (induction rounds arbitrary: i a c)
  case (Suc rounds)
  obtain c1 n e b where fl: "flush gone w i rid a (eventsOf (pg c) rid a) c = (c1, n, e, b)" by (metis prod_cases4)
  note p = flush_spec[OF o Suc.prems(1) fl]
  show ?case
  proof (cases b)
    case False
    then have "c' = c1" "evs = e" "go = b" using Suc.prems(2) by (simp_all add: fl)
    then show ?thesis using p(1-3) False by (intro exI[of _ n]) auto
  next
    case True
    then have e: "e = eventsOf (pg c1) rid n" using p(3) by simp
    have "streamRounds gone w rid rounds (i + 3) n (eventsOf (pg c1) rid n) c1 = (c', evs, go)"
      using Suc.prems(2) True by (simp add: fl e)
    from Suc.IH[OF p(2) this] show ?thesis using p(1) rtranclp_trans by (metis (no_types, lifting))
  qed
qed auto

declare One_nat_def [simp] add_2_eq_Suc [simp] add_2_eq_Suc' [simp]

end
