(* ===== verification/PgRunAll.thy ===== *)
theory PgRunAll
  imports PgRunOps PgStream
begin

text \<open>
  The operations of the Postgres/Redis backend as one relation, its runs from the empty database, and what
  every run keeps. An operation starts at call \<open>i\<close> of the world and ends before call \<open>k\<close>; a session that submits,
  finishes or skips has an identifier.
\<close>

inductive pgop :: "'r redis \<Rightarrow> 'r pgworld \<Rightarrow> nat \<Rightarrow> 'r cluster \<Rightarrow> nat \<Rightarrow> 'r cluster \<Rightarrow> bool" for R w i c where
  register: "pgRegister gen w i acc nick pw rep c = (c', au) \<Longrightarrow> pgop R w i c (i + 4) c'"
| login: "pgLogin cmp w i acc pw c = (c', au) \<Longrightarrow> pgop R w i c (i + 5) c'"
| guest: "pgGuestSession w i nick c = (c', a) \<Longrightarrow> pgop R w i c (i + 4) c'"
| persona: "pgPersonaSession w i nick c = (c', a) \<Longrightarrow> pgop R w i c (i + 4) c'"
| create: "pgCreateRequest R w n i tok model msgs lim allowed [] c = Returned (k, c', rq) \<Longrightarrow> pgop R w i c k c'"
| create_targeted: "pgCreateTargetedRequest R w n i tok model msgs lim pref c = Returned (k, c', rq) \<Longrightarrow> pgop R w i c k c'"
| submit: "sid \<noteq> [] \<Longrightarrow> pgSubmitFragment R w i sid sq t c = (k, c', fr) \<Longrightarrow> pgop R w i c k c'"
| finish: "sid \<noteq> [] \<Longrightarrow> pgFinish R w i sid c = (k, c', un) \<Longrightarrow> pgop R w i c k c'"
| skip: "sid \<noteq> [] \<Longrightarrow> pgSkip R w n i sid c = Returned (k, c', un) \<Longrightarrow> pgop R w i c k c'"
| acquire: "pgAcquireFallbackAssignment R w i rid c = (k, c', asg) \<Longrightarrow> pgop R w i c k c'"
| cancel: "pgCancelBeforeFirstFragment R w i rid c = (k, c', was) \<Longrightarrow> pgop R w i c k c'"
| react: "pgReact w i tok rid rx c = (k, c', bal) \<Longrightarrow> pgop R w i c k c'"
| register_responder: "pgRegisterResponder R w i tok c = (k, c', ses) \<Longrightarrow> pgop R w i c k c'"
| unregister: "pgUnregisterResponder R w n i sid c = Returned (k, c', u) \<Longrightarrow> pgop R w i c k c'"
| mark: "pgMarkResponderAvailable R w n i sid acc' c = Returned (k, c', un) \<Longrightarrow> pgop R w i c k c'"
| resume: "pgResumeResponder R w n i sid c = Returned (k, c', un) \<Longrightarrow> pgop R w i c k c'"
| sweep: "pgSweepTimeouts R w n i now a b c = Returned (k, c', ch) \<Longrightarrow> pgop R w i c k c'"
| sweeper: "pgRunTimeoutSweeper R w n ticks i c = Returned (k, c') \<Longrightarrow> pgop R w i c k c'"
| ticker: "assignTicker R w n m i c = Returned (k, c') \<Longrightarrow> pgop R w i c k c'"
| new_conversation: "pgCreateConversation w i tok title c = (c', cv) \<Longrightarrow> pgop R w i c (i + 2) c'"
| rename: "pgRenameConversation w i tok cid title c = (c', un) \<Longrightarrow> pgop R w i c (i + 3) c'"
| archive: "pgSetConversationArchived w i tok cid b c = (c', un) \<Longrightarrow> pgop R w i c (i + 3) c'"
| delete: "pgDeleteConversation w i tok cid c = (c', un) \<Longrightarrow> pgop R w i c (i + 3) c'"
| append: "pgAppendConversationMessage w i tok cid role content kind rid c = (c', mg) \<Longrightarrow> pgop R w i c (i + 2) c'"

text \<open>The other operations only read the tables; \<open>heartbeatLoop\<close>, \<open>Close\<close> and the lease touch none.\<close>

lemma pgop_goes: "pgop R w i c k c' \<Longrightarrow> steady w \<Longrightarrow> goes w i c k c'"
proof (induction rule: pgop.induct)
  case (register gen acc nick pw rep c' au)
  then show ?case by (auto intro: goes_later[OF pgRegister_goes])
next
  case (login cmp acc pw c' au)
  then show ?case by (auto intro: goes_later[OF pgLogin_goes])
next
  case (guest nick c' a)
  then show ?case by (auto simp: pgGuestSession_def intro: goes_later[OF openSession_goes])
next
  case (persona nick c' a)
  then show ?case by (auto simp: pgPersonaSession_def intro: goes_later[OF openSession_goes])
next
  case (new_conversation tok title c' cv)
  then show ?case by (auto intro: goes_later[OF pgCreateConversation_goes])
next
  case (rename tok cid title c' un)
  then show ?case by (auto intro: goes_later[OF pgRenameConversation_goes])
next
  case (archive tok cid b c' un)
  then show ?case by (auto intro: goes_later[OF pgSetConversationArchived_goes])
next
  case (delete tok cid c' un)
  then show ?case by (auto intro: goes_later[OF pgDeleteConversation_goes])
next
  case (append tok cid role content kind rid c' mg)
  then show ?case by (auto intro: goes_later[OF pgAppend_goes])
qed (blast intro: pgCreateRequest_goes pgCreateTargetedRequest_goes pgSubmitFragment_goes pgFinish_goes pgSkip_goes
    pgAcquire_goes pgCancel_goes pgReact_goes pgRegisterResponder_goes pgUnregisterResponder_goes
    pgMarkResponderAvailable_goes pgResumeResponder_goes pgSweepTimeouts_goes pgRunTimeoutSweeper_goes assignTicker_goes)+

inductive pgrun :: "'r redis \<Rightarrow> 'r pgworld \<Rightarrow> nat \<Rightarrow> 'r cluster \<Rightarrow> bool" for R w where
  start: "pg c = emptyDB \<Longrightarrow> pgrun R w 0 c"
| step: "pgrun R w i c \<Longrightarrow> pgop R w i c k c' \<Longrightarrow> pgrun R w k c'"

lemma sound_empty: "sound w 0 emptyDB"
  by (simp add: sound_def rowsOK_def keysOK_def unusedFrom_def ptsIDs_def requestRow_def emptyDB_def)

lemma pgrun_sound:
  assumes q: "steady w"
  shows "pgrun R w k c \<Longrightarrow> sound w k (pg c) \<and> dbreach (pg c)"
proof (induction rule: pgrun.induct)
  case (start c)
  then show ?case using sound_empty by (simp add: dbreach_def)
next
  case (step i c k c')
  then show ?case using pgop_goes[OF step(2) q] dbreach_step by (auto simp: goes_def)
qed

text \<open>The entries of the ledger for a request.\<close>

definition paidFor :: "pgdb \<Rightarrow> string \<Rightarrow> int" where
  "paidFor d rid = sum_list (map Delta (filter (\<lambda>e. PtsRequestID e = rid \<and> PtsKind e \<in> {''answer_reward'', ''reaction_adjustment''}) (tLedger d)))"

lemma paid_sum:
  "sum_list (map Delta (filter (\<lambda>e. PtsRequestID e = rid \<and> PtsKind e \<in> {''answer_reward'', ''reaction_adjustment''}) es)) =
     sum_list (map snd (entriesOf ''answer_reward'' rid es)) + sum_list (map snd (entriesOf ''reaction_adjustment'' rid es))"
  by (induction es) (auto simp: entriesOf_def)

lemma paidFor_split:
  "paidFor d rid = sum_list (map snd (entriesOf ''answer_reward'' rid (tLedger d))) +
     sum_list (map snd (entriesOf ''reaction_adjustment'' rid (tLedger d)))"
  unfolding paidFor_def by (rule paid_sum)

lemma paidFor_row:
  assumes "rowLedger (tLedger d) rid r"
  shows "paidFor d rid = (if rewarded r then pgRewardFor (ReqReaction r) else 0)"
proof (cases "rewarded r")
  case True
  then show ?thesis using assms by (simp add: paidFor_split rowLedger_def)
next
  case False
  then have "entriesOf ''reaction_adjustment'' rid (tLedger d) = []"
    using assms by (cases "entriesOf ''reaction_adjustment'' rid (tLedger d)") (auto simp: rowLedger_def)
  then show ?thesis using assms False by (simp add: paidFor_split rowLedger_def)
qed

end
