(* ===== verification/PgDemo.thy ===== *)
theory PgDemo
  imports PgRunAll
begin

text \<open>
  A concrete run of the Postgres/Redis backend on the store in memory, for the witnesses: an account asks,
  the fallback answers. Nobody interferes and no call fails.
\<close>

definition calm :: "memStore pgworld" where
  "calm = \<lparr>pext = \<lambda>i c. c, pfail = \<lambda>i. None, papplied = \<lambda>i. True,
     pids = \<lambda>i k. replicate i (CHR ''a'') @ CHR ''b'' # replicate k (CHR ''a''), pclk = \<lambda>i. 1\<rparr>"

lemma replicate_split:
  "x \<noteq> y \<Longrightarrow> replicate i x @ y # xs = replicate j x @ y # ys \<longleftrightarrow> i = j \<and> xs = ys"
proof (induction i arbitrary: j)
  case 0
  then show ?case by (cases j) auto
next
  case (Suc i)
  then show ?case by (cases j) auto
qed

lemma calm_ids [simp]: "pids calm i k = pids calm j l \<longleftrightarrow> i = j \<and> k = l"
  by (simp add: calm_def replicate_split)

lemma calm_sel [simp]: "pext calm i c = c" "pfail calm i = None" "papplied calm i" "pclk calm i = 1"
  by (simp_all add: calm_def)

lemma calm_steady: "steady calm"
  by (auto simp: steady_def)

definition noCluster :: "memStore cluster" where
  "noCluster = \<lparr>pg = emptyDB, kv = emptyStore, conns = [], wire = []\<rparr>"

definition annID :: string where "annID = pgNewID ''usr'' (pids calm 0 0)"
definition annToken :: string where "annToken = pgNewID ''tok'' (pids calm 0 3)"

definition annUser :: User where
  "annUser = \<lparr>UsrID = annID, AccountName = ''ann'', UsrNickname = ''Ann'', PasswordHash = ''pw'', UsrCreatedAt = 1\<rparr>"

definition annSession :: Session where
  "annSession = \<lparr>SesID = pgNewID ''ses'' (pids calm 0 2), Token = annToken, SesUserID = annID, Guest = False,
     SesKind = KindHuman, SesNickname = ''Ann'', SesCreatedAt = 1\<rparr>"

definition annGrant :: PointEntry where
  "annGrant = \<lparr>PtsID = pgNewID ''pts'' (pids calm 0 1), PtsUserID = annID, PtsRequestID = [], PtsKind = ''signup_grant'',
     Delta = SignupGrant, PtsCreatedAt = 1\<rparr>"

definition db1 :: pgdb where
  "db1 = emptyDB\<lparr>tUsers := [annUser], tSessions := [annSession], tLedger := [annGrant]\<rparr>"

definition cluster1 :: "memStore cluster" where "cluster1 = noCluster\<lparr>pg := db1\<rparr>"

lemmas call_defs = query_def txn_def command_def tell_def ask_def publish_def publishStream_def

lemma trims [simp]: "TrimSpace ''ann'' = ''ann''" "TrimSpace ''Ann'' = ''Ann''"
  by code_simp+

lemma registered: "\<exists>a. pgRegister Some calm 0 ''ann'' ''Ann'' ''pw'' ''pw'' noCluster = (cluster1, Inr a)"
  by (simp add: pgRegister_def registerTx_def insertUser_def insertLedger_def insertSession_def pgAuthResult_def
      pgBalance_def call_defs cluster1_def noCluster_def db1_def emptyDB_def annUser_def annSession_def annGrant_def
      annID_def annToken_def Let_def)

lemma run1: "pgrun memRedis calm 4 cluster1"
proof -
  obtain a where "pgRegister Some calm 0 ''ann'' ''Ann'' ''pw'' ''pw'' noCluster = (cluster1, Inr a)" using registered by blast
  from pgop.register[OF this, of memRedis] pgrun.start[of noCluster memRedis calm]
  show ?thesis using pgrun.step[of memRedis calm 0 noCluster 4 cluster1] by (simp add: noCluster_def)
qed

text \<open>Ann asks.\<close>

definition annQuestion :: Request where
  "annQuestion = pgNewRequest (pids calm 4 0) annSession ''m'' [] OutputLimitChars True [] QuestionCost 1"

definition db2 :: pgdb where
  "db2 = db1\<lparr>tRequests := [(ReqID annQuestion, annQuestion, QuestionCategory [])]\<rparr>"


text \<open>The pair script finds nobody, and the question waits.\<close>

lemma nobody:
  assumes "mget0 (mLists r) availKey = []"
  shows "assignNext memRedis now r = Some (r, None)"
  unfolding assignNext_def by (subst assignLoop.simps) (simp add: memRedis_def assignArgs_def assms)

definition kv2 :: memStore where
  "kv2 = enqueueRequest memRedis (ReqID annQuestion) (setRequestRouting memRedis (ReqID annQuestion) KindHuman True [] emptyStore)"

definition cluster2 :: "memStore cluster" where "cluster2 = noCluster\<lparr>pg := db2, kv := kv2\<rparr>"

lemma kv2_avail: "mget0 (mLists kv2) availKey = []"
  by (simp add: kv2_def enqueueRequest_def setRequestRouting_def memRedis_def setList_def emptyStore_def availKey_def
      queueKey_def key_def mget0_def mget_def mput_def)

lemma annQuestion_sel [simp]:
  "RequesterKind annQuestion = KindHuman" "Status annQuestion = StatusQueued" "FrozenPoints annQuestion = QuestionCost"
  "QuestionCharged annQuestion = False" "RequesterGuest annQuestion = False" "RequesterID annQuestion = annID"
  "AllowAIAnswers annQuestion" "PreferredResponderSessionID annQuestion = []" "OutputLimit annQuestion = OutputLimitChars"
  "Messages annQuestion = []" "CreatedAt annQuestion = 1"
  by (simp_all add: annQuestion_def pgNewRequest_def annSession_def KindOrHuman_def KindHuman_def)

lemma asked: "pgCreateRequest memRedis calm 1 4 annToken ''m'' [] 0 True [] cluster1 = Returned (12, cluster2, Inr annQuestion)"
proof -
  have s: "sessionByToken calm 4 annToken cluster1 = (cluster1, Inr annSession)"
    by (simp add: sessionByToken_def call_defs cluster1_def noCluster_def db1_def emptyDB_def annSession_def)
  have f: "freezePoints calm (4 + 1) annSession cluster1 = (cluster1, Inr QuestionCost)"
    by (simp add: freezePoints_def call_defs cluster1_def noCluster_def db1_def emptyDB_def annSession_def sqlTotal_def
        sqlHeld_def annGrant_def SignupGrant_def QuestionCost_def)
  have t: "txn calm (4 + 4) (createTx annQuestion) cluster1 = (noCluster\<lparr>pg := db2\<rparr>, Inr ())"
    by (simp add: call_defs createTx_def insertRequest_def cluster1_def noCluster_def db1_def db2_def emptyDB_def mget_def mput_def)
  have d: "thenDrain memRedis calm 1 (4 + 7) cluster2 (Inr annQuestion) = Returned (12, cluster2, Inr annQuestion)"
    by (simp add: thenDrain_def runAssign_def nobody kv2_avail cluster2_def noCluster_def eval_nat_numeral)
  have "noCluster\<lparr>pg := db2, kv := enqueueRequest memRedis (ReqID annQuestion)
      (setRequestRouting memRedis (ReqID annQuestion) KindHuman True [] (kv noCluster))\<rparr> = cluster2"
    by (simp add: cluster2_def kv2_def noCluster_def)
  then show ?thesis
    using s f t d unfolding pgCreateRequest_def
    by (simp add: Let_def annQuestion_def[symmetric] command_def InputLimitChars_def)
qed

lemma run2: "pgrun memRedis calm 12 cluster2"
  by (rule pgrun.step[OF run1 pgop.create[OF asked]])

text \<open>The fallback takes the question and answers it.\<close>

definition fallbackID :: string where "fallbackID = ''fallback_'' @ ReqID annQuestion"

definition heldQuestion :: Request where
  "heldQuestion = annQuestion\<lparr>Status := StatusAssigned, ResponderSessionID := fallbackID, ResponderUserID := [],
     ResponderGuest := True, ResponderKind := KindFallback, ResponderDisplay := fallbackDisplay, UpdatedAt := 1\<rparr>"

definition cluster3 :: "memStore cluster" where
  "cluster3 = cluster2\<lparr>pg := changed db2 (ReqID annQuestion) heldQuestion [] [], kv := removeQueued memRedis (ReqID annQuestion) kv2\<rparr>"

lemma db2_row: "requestRow db2 (ReqID annQuestion) = Some annQuestion"
  by (simp add: requestRow_def db2_def mget_def scanRequest_def)

lemma db2_fragments [simp]: "fragmentRows db2 rid = []"
  by (simp add: fragmentRows_def db2_def db1_def emptyDB_def)

lemma acquired: "\<exists>a. pgAcquireFallbackAssignment memRedis calm 12 (ReqID annQuestion) cluster2 = (14, cluster3, Some (fallbackID, a))"
proof -
  have "AsgRequestID \<lparr>AsgRequestID = ReqID annQuestion, AsgRequesterKind = KindHuman, AsgMessages = [], AsgCreatedAt = 1\<rparr> = ReqID annQuestion"
    by simp
  then show ?thesis
    by (simp add: pgAcquireFallbackAssignment_def acquireTx_def call_defs cluster2_def cluster3_def noCluster_def db2_row
        fragmentCount_def db2_fragments updateRequest_row[OF db2_row] heldQuestion_def fallbackID_def)
qed

lemma run3: "pgrun memRedis calm 14 cluster3"
  using acquired pgrun.step[OF run2 pgop.acquire] by blast


definition demoFragment :: Fragment where
  "demoFragment = pgFragment (pids calm 14 0) (ReqID annQuestion) fallbackID 1 ''because'' 1"

definition db4 :: pgdb where
  "db4 = changed db2 (ReqID annQuestion) (streamed 1 heldQuestion) [(demoFragment, 1)]
     [pgEntry (pids calm 14 1) annID (ReqID annQuestion) ''question_charge'' (- QuestionCost) 1]"

lemma because [simp]: "RuneCountInString ''because'' = 7"
  by code_simp

lemma held_sel [simp]:
  "ReqID heldQuestion = ReqID annQuestion" "Status heldQuestion = StatusAssigned" "ResponderSessionID heldQuestion = fallbackID"
  "QuestionCharged heldQuestion = False" "RequesterGuest heldQuestion = False" "RequesterID heldQuestion = annID"
  "OutputLimit heldQuestion = OutputLimitChars" "ResponderGuest heldQuestion"
  by (simp_all add: heldQuestion_def)

lemma fallbackID_nonempty [simp]: "fallbackID \<noteq> []"
  by (simp add: fallbackID_def)

lemma submitted: "\<exists>c. pgSubmitFragment memRedis calm 14 fallbackID 1 ''because'' cluster3 = (16, c, Inr (demoFragment, False)) \<and> pg c = db4"
proof -
  let ?d = "changed db2 (ReqID annQuestion) heldQuestion [] []"
  have rows: "map (scanRequest \<circ> snd) (tRequests ?d) = [heldQuestion]"
    by (simp add: changed_def db2_def mput_def mget_def scanRequest_def)
  have a: "activeRow ?d fallbackID = Some heldQuestion" unfolding activeRow_def rows by (simp add: notTerminalSQL_def)
  have f: "fragmentRows ?d rid = []" for rid by (simp add: db2_fragments)
  have n: "stored ?d (ReqID heldQuestion) fallbackID 1 = None" by (simp add: stored_def f)
  have z: "answerRunes ?d (ReqID annQuestion) = 0" "maxOrdinal ?d (ReqID annQuestion) = 0"
    by (simp_all add: answerRunes_def maxOrdinal_def f)
  have u: "uniqueFragment ?d (pgFragment (pids calm 14 0) (ReqID heldQuestion) fallbackID 1 ''because'' 1)
      (maxOrdinal ?d (ReqID heldQuestion) + 1)"
    by (simp add: uniqueFragment_def db2_def db1_def emptyDB_def)
  have fits: "int (answerRunes ?d (ReqID heldQuestion) + RuneCountInString ''because'') \<le> OutputLimit heldQuestion"
    by (simp add: z OutputLimitChars_def)
  have ch: "chargeOf (pids calm 14) 1 heldQuestion (tLedger db2) =
      [pgEntry (pids calm 14 1) annID (ReqID annQuestion) ''question_charge'' (- QuestionCost) 1]"
    by (simp add: chargeOf_def credit_def ledgerConflict_def db2_def db1_def emptyDB_def annGrant_def del: One_nat_def)
  have row: "requestRow ?d (ReqID heldQuestion) = Some heldQuestion" by simp
  note c = submitTx_commits[where b = "pids calm 14" and n = 1 and t = "''because''" and now = 1, OF a row n fits u]
  have tx: "submitTx (pids calm 14) 1 fallbackID 1 ''because'' ?d = (db4, Inr (demoFragment, False, ReqID annQuestion, 1, False))"
    unfolding c by (simp add: z ch[unfolded One_nat_def] db4_def demoFragment_def OutputLimitChars_def changed_again)
  show ?thesis
    by (simp add: pgSubmitFragment_def call_defs cluster3_def tx Let_def)
qed

lemma run4: "\<exists>c. pgrun memRedis calm 16 c \<and> pg c = db4"
  using submitted pgrun.step[OF run3 pgop.submit[OF fallbackID_nonempty]] by blast

lemma db4_row: "requestRow db4 (ReqID annQuestion) = Some (streamed 1 heldQuestion)"
  by (simp add: db4_def)

lemma db4_fragments: "fragmentRows db4 (ReqID annQuestion) = [(demoFragment, 1)]"
  by (simp add: db4_def db2_fragments demoFragment_def)


definition db5 :: pgdb where
  "db5 = changed db4 (ReqID annQuestion) (closed FinishStop 1 (streamed 1 heldQuestion)) [] []"

lemma finished_answer:
  assumes "pg c = db4"
  shows "\<exists>c'. pgFinish memRedis calm 16 fallbackID c = (20, c', Inr ()) \<and> pg c' = db5"
proof -
  have rows: "map (scanRequest \<circ> snd) (tRequests db4) = [streamed 1 heldQuestion]"
    by (simp add: db4_def changed_def db2_def mput_def mget_def scanRequest_def)
  have a: "activeRow db4 fallbackID = Some (streamed 1 heldQuestion)"
    unfolding activeRow_def rows by (simp add: notTerminalSQL_def)
  have row: "requestRow db4 (ReqID (streamed 1 heldQuestion)) = Some (streamed 1 heldQuestion)" by (simp add: db4_row)
  have "completeRequestTx b (streamed 1 heldQuestion) FinishStop 1 db4 = db5" for b
    by (simp add: completeRequestTx_row[OF row] notTerminalSQL_def db5_def closed_def[symmetric])
      (simp add: closed_def)
  then have "finishTx b 1 fallbackID db4 = (db5, Inr (ReqID annQuestion))" for b
    by (simp add: finishTx_def activeRequestTx_def a fragmentCount_def db4_fragments)
  then show ?thesis using assms by (simp add: pgFinish_def call_defs settle_def)
qed

lemma run5: "\<exists>c. pgrun memRedis calm 20 c \<and> pg c = db5"
proof -
  obtain c where c: "pgrun memRedis calm 16 c" "pg c = db4" using run4 by blast
  obtain c' where "pgFinish memRedis calm 16 fallbackID c = (20, c', Inr ())" "pg c' = db5" using finished_answer[OF c(2)] by blast
  then show ?thesis using pgrun.step[OF c(1) pgop.finish[OF fallbackID_nonempty]] by blast
qed

lemma db5_row: "requestRow db5 (ReqID annQuestion) = Some (closed FinishStop 1 (streamed 1 heldQuestion))"
  by (simp add: db5_def)

lemma db5_fragments: "fragmentRows db5 (ReqID annQuestion) = [(demoFragment, 1)]"
  by (simp add: db5_def db4_fragments)

end
