(* ===== verification/PgProps.thy ===== *)
theory PgProps
  imports PgDemo
begin

text \<open>
  The properties of the Postgres/Redis backend over its runs: any sequence of operations from the empty
  database, with other instances acting between any two calls and any call failing.
\<close>

section \<open>Operations are transactions\<close>

text \<open>
  C7: Every operation of the distributed backend, however it is interleaved with the other instances and
  whichever of its calls fail, with or without effect, changes the tables only by steps of the abstract
  database: moves of one request that its state allows, new requests, accounts, sessions and conversations.
  So the database stays one that such steps reach from the empty one.
\<close>

theorem pg_operations_are_transactions:
  assumes "steady w" and "pgrun R w i c" and "pgop R w i c k c'"
  shows "dbstep\<^sup>*\<^sup>* (pg c) (pg c') \<and> dbreach (pg c')"
  using pgop_goes[OF assms(3,1)] pgrun_sound[OF assms(1,2)] dbreach_step unfolding goes_def by blast

theorem pg_operations_are_transactions_witness:
  "\<exists>c :: memStore cluster. dbstep\<^sup>*\<^sup>* (pg cluster3) (pg c) \<and> dbreach (pg c) \<and> pg c \<noteq> pg cluster3"
proof -
  obtain c where c: "pgSubmitFragment memRedis calm 14 fallbackID 1 ''because'' cluster3 = (16, c, Inr (demoFragment, False))"
    "pg c = db4" using submitted by blast
  have "tFragments (pg c) \<noteq> tFragments (pg cluster3)"
    by (simp add: c(2) db4_def cluster3_def db2_def db1_def emptyDB_def)
  then have "pg c \<noteq> pg cluster3" by metis
  moreover have "dbstep\<^sup>*\<^sup>* (pg cluster3) (pg c) \<and> dbreach (pg c)"
    by (rule pg_operations_are_transactions[OF calm_steady run3 pgop.submit[OF fallbackID_nonempty c(1)]])
  ultimately show ?thesis by blast
qed

section \<open>The tables\<close>

text \<open>
  C18: The tables are well-formed in every run. The keys are unique: accounts by id and name, sessions by
  id and token, fragments by id, by request, session and client sequence number and by request and
  ordinal, ledger entries by id. Every fragment and every entry for a request refers to a request. The row
  of a request is stored under its id and in one of the states of the life cycle; its fragments are
  numbered from one without gaps, it is charged exactly if it has any, it is streaming or complete exactly
  then, and the answer keeps to the output limit.
\<close>

theorem pg_tables_well_formed:
  assumes "steady w" and "pgrun R w i c"
  shows "keysOK (pg c) \<and>
    (\<forall>x \<in> set (tFragments (pg c)). requestRow (pg c) (FrgRequestID (fst x)) \<noteq> None) \<and>
    (\<forall>e \<in> set (tLedger (pg c)). PtsKind e \<noteq> ''signup_grant'' \<longrightarrow> requestRow (pg c) (PtsRequestID e) \<noteq> None) \<and>
    (\<forall>rid r. requestRow (pg c) rid = Some r \<longrightarrow> ReqID r = rid \<and> rowStatus r \<and> rowAnswer (pg c) rid r)"
  using pgrun_sound[OF assms] by (auto simp: sound_def rowsOK_def rowOK_def)

theorem pg_tables_well_formed_witness:
  "\<exists>c. pgrun memRedis calm 16 c \<and> keysOK (pg c) \<and> rowAnswer (pg c) (ReqID annQuestion) (streamed 1 heldQuestion) \<and>
     fragmentCount (pg c) (ReqID annQuestion) = 1"
proof -
  obtain c where c: "pgrun memRedis calm 16 c" "pg c = db4" using run4 by blast
  then show ?thesis using pg_tables_well_formed[OF calm_steady c(1)] db4_row db4_fragments by (auto simp: fragmentCount_def)
qed

section \<open>Points\<close>

text \<open>
  C8: Points move exactly once. The points of a registered author are frozen exactly while the request
  waits without output, whichever instance handles it; from the first committed fragment on the ledger holds
  exactly one charge for the request, against its author. For a completed answer of a registered responder
  the entries of the request add up to the reward of the last reaction; for any other request nothing is paid.
\<close>

theorem pg_points_exact:
  assumes "steady w" and "pgrun R w i c" and "requestRow (pg c) rid = Some r"
  shows "FrozenPoints r = (if \<not> RequesterGuest r \<and> Status r \<in> {StatusQueued, StatusAssigned} then QuestionCost else 0) \<and>
    entriesOf ''question_charge'' rid (tLedger (pg c)) =
      (if \<not> RequesterGuest r \<and> fragmentRows (pg c) rid \<noteq> [] then [(RequesterID r, - QuestionCost)] else []) \<and>
    paidFor (pg c) rid =
      (if Status r \<in> {StatusCompleted, StatusTimeoutCompleted} \<and> \<not> ResponderGuest r \<and> ResponderUserID r \<noteq> []
       then pgRewardFor (ReqReaction r) else 0)"
proof -
  have "rowOK (pg c) rid r" using pgrun_sound[OF assms(1,2)] assms(3) by (simp add: sound_def rowsOK_def)
  then have r: "rowStatus r" "rowAnswer (pg c) rid r" "rowLedger (tLedger (pg c)) rid r" by (simp_all add: rowOK_def)
  then show ?thesis using paidFor_row[OF r(3)] by (simp add: rowStatus_def rowAnswer_def rowLedger_def rewarded_def)
qed

theorem pg_points_exact_witness:
  "\<exists>c. pgrun memRedis calm 16 c \<and>
     entriesOf ''question_charge'' (ReqID annQuestion) (tLedger (pg c)) = [(annID, - QuestionCost)] \<and> paidFor (pg c) (ReqID annQuestion) = 0"
proof -
  obtain c where c: "pgrun memRedis calm 16 c" "pg c = db4" using run4 by blast
  have "requestRow (pg c) (ReqID annQuestion) = Some (streamed 1 heldQuestion)" by (simp add: c(2) db4_row)
  from pg_points_exact[OF calm_steady c(1) this] show ?thesis using c by (auto simp: db4_fragments)
qed

section \<open>History\<close>

text \<open>
  C9: What has been committed stays. Whatever an operation does, and whatever the other instances do
  meanwhile, a request keeps its author, messages, limit and reservation; the fragments of its answer only
  grow at the end; once it has output the responder stays the same and it never goes back to the queue; once
  it is over its status, finish reason and answer are final. The ledger only grows at the end.
\<close>

theorem pg_history_append_only:
  assumes "steady w" and "pgrun R w i c" and "pgop R w i c k c'" and "requestRow (pg c) rid = Some r"
  shows "\<exists>r' fs es. requestRow (pg c') rid = Some r' \<and> sameQuestion r r' \<and>
    fragmentRows (pg c') rid = fragmentRows (pg c) rid @ fs \<and> tLedger (pg c') = tLedger (pg c) @ es \<and>
    (Status r = StatusStreaming \<longrightarrow> Status r' \<in> {StatusStreaming, StatusCompleted, StatusTimeoutCompleted} \<and>
       ResponderSessionID r' = ResponderSessionID r \<and> ResponderUserID r' = ResponderUserID r) \<and>
    (isTerminalStatus (Status r) \<longrightarrow> fs = [] \<and> Status r' = Status r \<and> ReqFinish r' = ReqFinish r \<and> CompletedAt r' = CompletedAt r)"
proof -
  have s: "sound w i (pg c)" using pgrun_sound[OF assms(1,2)] by blast
  have "dbstep\<^sup>*\<^sup>* (pg c) (pg c')" using pgop_goes[OF assms(3,1)] s by (simp add: goes_def)
  then have g: "grows (pg c) (pg c')" using grows_steps s by (simp add: sound_def)
  obtain r' where "requestRow (pg c') rid = Some r'" "rowGrows (pg c) (pg c') rid r r'" using g assms(4) by (auto simp: grows_def)
  moreover obtain es where "tLedger (pg c') = tLedger (pg c) @ es" using g by (auto simp: grows_def)
  ultimately show ?thesis by (auto simp: rowGrows_def keeps_defs)
qed

theorem pg_history_append_only_witness:
  "\<exists>c c' r'. pg c = db4 \<and> pgop memRedis calm 16 c 20 c' \<and> requestRow (pg c') (ReqID annQuestion) = Some r' \<and>
     sameQuestion (streamed 1 heldQuestion) r' \<and> ResponderSessionID r' = fallbackID"
proof -
  obtain c where c: "pgrun memRedis calm 16 c" "pg c = db4" using run4 by blast
  obtain c' where f: "pgFinish memRedis calm 16 fallbackID c = (20, c', Inr ())" using finished_answer[OF c(2)] by blast
  note o = pgop.finish[OF fallbackID_nonempty f]
  have "requestRow (pg c) (ReqID annQuestion) = Some (streamed 1 heldQuestion)" by (simp add: c(2) db4_row)
  from pg_history_append_only[OF calm_steady c(1) o this] show ?thesis using c(2) o by auto
qed

section \<open>The stream\<close>

text \<open>
  C10: The stream of an answer is contiguous. Whatever messages are lost, whichever queries fail, whatever the
  instances commit meanwhile and whenever the consumer leaves, the events sent are the first fragments of the
  committed answer, in order, each once; an end mark comes only for a request that is over, with its finish
  reason, and after it nothing. If no query fails, the end mark comes after the whole answer.
\<close>

theorem pg_stream_contiguous:
  assumes "others w" and "dbreach (pg c)" and "pgSubscribe gone w rounds i rid c = (c', Inr (evs, goesOn))"
  shows "\<exists>n \<le> fragmentCount (pg c') rid. evs = eventsOf (pg c') rid n \<or>
    \<not> goesOn \<and> ((\<forall>j. pfail w j = None) \<longrightarrow> n = fragmentCount (pg c') rid) \<and>
    (\<exists>r. requestRow (pg c') rid = Some r \<and> isTerminalStatus (Status r) \<and>
       evs = eventsOf (pg c') rid n @ [StreamEventDone rid (ReqFinish r)])"
proof -
  obtain c1 r where q: "query w i (\<lambda>d. requestRow d rid) c = (c1, Inr (Some r))"
    and s: "streamRounds gone w rid rounds (i + 1) 0 [] c1 = (c', evs, goesOn)"
    using assms(3) by (auto simp: pgSubscribe_def split: prod.splits sum.splits option.splits)
  have c1: "c1 = pext w i c" "requestRow (pg c1) rid = Some r"
    using q by (auto simp: query_def Let_def split: option.splits)
  have "rowsOK (pg c1)" using assms(1,2) rowsOK_reach dbreach_step unfolding c1(1) others_def by blast
  then have "seen (pg c1) rid 0" using c1(2) by (simp add: seen_def)
  moreover have "streamRounds gone w rid rounds (i + 1) 0 (eventsOf (pg c1) rid 0) c1 = (c', evs, goesOn)"
    using s by (simp add: eventsOf_def)
  ultimately obtain n where n: "seen (pg c') rid n" "evs = eventsOf (pg c') rid n \<or> \<not> goesOn \<and> finished (pg c') rid n evs \<and>
      ((\<forall>j. pfail w j = None) \<longrightarrow> n = fragmentCount (pg c') rid)"
    using streamRounds_spec[OF assms(1)] by blast
  have "n \<le> fragmentCount (pg c') rid" using n(1) by (simp add: seen_def)
  then show ?thesis using n(2) unfolding finished_def ended_def by blast
qed

lemma calm_others: "others calm"
  by (simp add: others_def)

lemma demo_flush:
  assumes "pg c = db5"
  shows "flush (\<lambda>_. False) calm j (ReqID annQuestion) 0 [] c =
    (c, 1, [StreamEventFragment (ReqID annQuestion) ''because'', StreamEventDone (ReqID annQuestion) FinishStop], False)"
proof -
  have "rowsAfter (pg c) (ReqID annQuestion) 0 = [(1, ''because'')]" "rowsAfter (pg c) (ReqID annQuestion) 1 = []"
    by (simp_all add: rowsAfter_def assms db5_fragments demoFragment_def)
  then show ?thesis
    by (simp add: flush_def drainFragmentsAfter_def terminalState_def query_def assms db5_row isTerminalStatus_def)
qed

lemma demo_stream:
  assumes "pg c = db5"
  shows "pgSubscribe (\<lambda>_. False) calm 1 20 (ReqID annQuestion) c =
    (c, Inr ([StreamEventFragment (ReqID annQuestion) ''because'', StreamEventDone (ReqID annQuestion) FinishStop], False))"
  by (simp add: pgSubscribe_def query_def assms db5_row demo_flush[OF assms])

lemma eventsOf_no_end: "StreamEventDone rid x \<notin> set (eventsOf d rid n)"
  by (auto simp: eventsOf_def)

theorem pg_stream_contiguous_witness:
  "\<exists>c evs n r. pg c = db5 \<and> pgSubscribe (\<lambda>_. False) calm 1 20 (ReqID annQuestion) c = (c, Inr (evs, False)) \<and>
     n = fragmentCount (pg c) (ReqID annQuestion) \<and> requestRow (pg c) (ReqID annQuestion) = Some r \<and>
     evs = eventsOf (pg c) (ReqID annQuestion) n @ [StreamEventDone (ReqID annQuestion) (ReqFinish r)]"
proof -
  let ?evs = "[StreamEventFragment (ReqID annQuestion) ''because'', StreamEventDone (ReqID annQuestion) FinishStop]"
  obtain c where c: "pgrun memRedis calm 20 c" "pg c = db5" using run5 by blast
  have "dbreach (pg c)" using pgrun_sound[OF calm_steady c(1)] by blast
  note t = pg_stream_contiguous[OF calm_others this demo_stream[OF c(2)]]
  have "?evs \<noteq> eventsOf (pg c) (ReqID annQuestion) n" for n
    using eventsOf_no_end[of "ReqID annQuestion" FinishStop "pg c" n] by (metis list.set_intros)
  then obtain r where "requestRow (pg c) (ReqID annQuestion) = Some r" "?evs = eventsOf (pg c) (ReqID annQuestion) (fragmentCount (pg c) (ReqID annQuestion)) @
      [StreamEventDone (ReqID annQuestion) (ReqFinish r)]" using t by auto
  then show ?thesis using c(2) demo_stream[OF c(2)] by (intro exI[of _ c] exI[of _ ?evs] exI[of _ r] exI conjI) (rule refl | assumption)+
qed

text \<open>
  C11: The stream is delivered. When a request is over at the time of a subscription, the queries succeed
  and the consumer stays, the first round sends every fragment of the answer and the end mark, whatever
  messages were published or lost, and the stream ends.
\<close>

theorem pg_stream_delivers:
  assumes "others w" and "dbreach (pg c)" and "requestRow (pg c) rid = Some r" and "isTerminalStatus (Status r)"
    and "\<forall>j. pfail w j = None" and "rounds > 0"
  shows "\<exists>c' evs r'. pgSubscribe (\<lambda>_. False) w rounds i rid c = (c', Inr (evs, False)) \<and>
    requestRow (pg c') rid = Some r' \<and>
    evs = eventsOf (pg c') rid (fragmentCount (pg c') rid) @ [StreamEventDone rid (ReqFinish r')]"
proof -
  obtain m where m: "rounds = Suc m" using assms(6) gr0_conv_Suc by blast
  let ?c1 = "pext w i c"
  have st: "dbstep\<^sup>*\<^sup>* (pg c) (pg ?c1)" using assms(1) by (simp add: others_def)
  have ok: "rowsOK (pg c)" "rowsOK (pg ?c1)" using assms(2) rowsOK_reach dbreach_step[OF _ st] by blast+
  obtain r1 where r1: "ended (pg ?c1) rid r1" using ended_later[OF _ ok(1) st] assms(3,4) by (auto simp: ended_def)
  then have s: "seen (pg ?c1) rid 0" using ok(2) by (simp add: seen_def ended_def)
  obtain c2 n evs go where f: "flush (\<lambda>_. False) w (i + 1) rid 0 (eventsOf (pg ?c1) rid 0) ?c1 = (c2, n, evs, go)" by (metis prod_cases4)
  note p = flush_spec[OF assms(1) s f]
  have go: "\<not> go \<and> finished (pg c2) rid n evs" by (rule p(4)[OF r1 refl]) (simp add: assms(5))
  then obtain r' where r': "requestRow (pg c2) rid = Some r'" "evs = eventsOf (pg c2) rid n @ [StreamEventDone rid (ReqFinish r')]"
    by (auto simp: finished_def ended_def)
  have "evs \<noteq> eventsOf (pg c2) rid n" using r'(2) by simp
  then have n: "n = fragmentCount (pg c2) rid" using p(3) assms(5) by simp
  have "pgSubscribe (\<lambda>_. False) w rounds i rid c = (c2, Inr (evs, False))"
    using r1 f go assms(5) by (auto simp: pgSubscribe_def query_def ended_def eventsOf_def m Let_def)
  then show ?thesis using r' n by blast
qed

theorem pg_stream_delivers_witness:
  "\<exists>(c :: memStore cluster) c' evs r'. pg c = db5 \<and> pgSubscribe (\<lambda>_. False) calm 1 20 (ReqID annQuestion) c = (c', Inr (evs, False)) \<and>
     requestRow (pg c') (ReqID annQuestion) = Some r' \<and>
     evs = eventsOf (pg c') (ReqID annQuestion) (fragmentCount (pg c') (ReqID annQuestion)) @ [StreamEventDone (ReqID annQuestion) (ReqFinish r')]"
proof -
  obtain c where c: "pgrun memRedis calm 20 c" "pg c = db5" using run5 by blast
  have r: "requestRow (pg c) (ReqID annQuestion) = Some (closed FinishStop 1 (streamed 1 heldQuestion))" by (simp add: c(2) db5_row)
  have o: "isTerminalStatus (Status (closed FinishStop 1 (streamed 1 heldQuestion)))" by (simp add: isTerminalStatus_def)
  have d: "dbreach (pg c)" using pgrun_sound[OF calm_steady c(1)] by blast
  have n: "\<forall>j. pfail calm j = None" by simp
  from pg_stream_delivers[OF calm_others d r o n zero_less_one, of 20] show ?thesis using c(2) by (auto intro: exI[of _ c])
qed

end
