(* ===== verification/PgFindings.thy ===== *)
theory PgFindings
  imports PgDemo
begin

text \<open>
  Three runs of the Postgres/Redis backend that show what its transactions do not guard: a request that is
  stored but never queued, a responder that gives up an answer another has taken over meanwhile, and a
  balance read at two times.
\<close>

text \<open>
  The command that stores the routing of a new request fails: the author is told so, the request stays in
  the tables as queued with its points frozen, and the queue does not have it.
\<close>

definition refusing :: "memStore pgworld" where
  "refusing = calm\<lparr>pfail := (\<lambda>i. if i = 9 then Some DbFailure else None), papplied := (\<lambda>i. False)\<rparr>"

lemma refusing_sel [simp]:
  "pext refusing i c = c" "pfail refusing i = (if i = 9 then Some DbFailure else None)" "\<not> papplied refusing i"
  "pclk refusing i = 1" "pids refusing = pids calm"
  by (simp_all add: refusing_def)

theorem failed_question_keeps_points:
  "\<exists>c. pgCreateRequest memRedis refusing 1 4 annToken ''m'' [] 0 True [] cluster1 = Returned (10, c, Inl DbFailure) \<and>
     requestRow (pg c) (ReqID annQuestion) = Some annQuestion \<and> Status annQuestion = StatusQueued \<and>
     sqlHeld annID (pg c) = QuestionCost \<and> kv c = emptyStore"
proof -
  have s: "sessionByToken refusing 4 annToken cluster1 = (cluster1, Inr annSession)"
    by (simp add: sessionByToken_def call_defs cluster1_def noCluster_def db1_def emptyDB_def annSession_def)
  have f: "freezePoints refusing (4 + 1) annSession cluster1 = (cluster1, Inr QuestionCost)"
    by (simp add: freezePoints_def call_defs cluster1_def noCluster_def db1_def emptyDB_def annSession_def sqlTotal_def
        sqlHeld_def annGrant_def SignupGrant_def QuestionCost_def)
  have t: "txn refusing (4 + 4) (createTx annQuestion) cluster1 = (noCluster\<lparr>pg := db2\<rparr>, Inr ())"
    by (simp add: call_defs createTx_def insertRequest_def cluster1_def noCluster_def db1_def db2_def emptyDB_def mget_def mput_def)
  have "pgCreateRequest memRedis refusing 1 4 annToken ''m'' [] 0 True [] cluster1 =
      Returned (10, noCluster\<lparr>pg := db2\<rparr>, Inl DbFailure)"
    using s f t unfolding pgCreateRequest_def
    by (simp add: Let_def annQuestion_def[symmetric] command_def InputLimitChars_def)
  then show ?thesis
    by (simp add: requestRow_def db2_def mget_def scanRequest_def sqlHeld_def notTerminalSQL_def noCluster_def QuestionCost_def)
qed

text \<open>
  The transaction of a leaving responder looks at the request it read before, not at who answers it now.
\<close>

theorem leaving_takes_from_successor:
  assumes "requestRow d rid = Some r" and "Status r = StatusAssigned" and "PreferredResponderSessionID r = []"
    and "fragmentCount d rid = 0" and "leaveTx bytes now rid d = (d', x)"
  shows "x = Inr LeftRequeued \<and> (\<exists>r'. requestRow d' rid = Some r' \<and> Status r' = StatusQueued \<and> ResponderSessionID r' = [])"
  using assms
  by (auto simp: leaveTx_def isTerminalStatus_def requeueRequestTx_def updateRequest_def requestRow_def notTerminalSQL_def
      scanRequest_def clearResponder_def mget_def mput_def update_conv' split: option.splits)

text \<open>
  The two sums behind a new question are read one after the other. When another instance charges a
  question between them, it is in neither: an account with nothing available may ask.
\<close>

definition spentGrant :: PointEntry where
  "spentGrant = annGrant\<lparr>Delta := 2 * QuestionCost\<rparr>"

definition frozenDB :: pgdb where
  "frozenDB = db1\<lparr>tLedger := [spentGrant],
     tRequests := [(''q1'', annQuestion, []), (''q2'', annQuestion, [])]\<rparr>"

definition chargedDB :: pgdb where
  "chargedDB = db1\<lparr>tLedger := [spentGrant, spentGrant\<lparr>PtsKind := ''question_charge'', Delta := - QuestionCost\<rparr>],
     tRequests := [(''q1'', annQuestion\<lparr>FrozenPoints := 0, QuestionCharged := True, Status := StatusStreaming\<rparr>, []),
       (''q2'', annQuestion, [])]\<rparr>"

definition charging :: "memStore pgworld" where
  "charging = calm\<lparr>pext := (\<lambda>i c. if i = 2 then c\<lparr>pg := chargedDB\<rparr> else c)\<rparr>"

theorem balance_read_twice:
  "sqlTotal annID frozenDB - sqlHeld annID frozenDB = 0 \<and> sqlTotal annID chargedDB - sqlHeld annID chargedDB = 0 \<and>
   snd (freezePoints charging 0 annSession (noCluster\<lparr>pg := frozenDB\<rparr>)) = Inr QuestionCost"
  by (simp add: frozenDB_def chargedDB_def charging_def freezePoints_def query_def sqlTotal_def sqlHeld_def spentGrant_def
      annGrant_def annSession_def db1_def emptyDB_def noCluster_def notTerminalSQL_def scanRequest_def QuestionCost_def calm_def Let_def)

end
