(* ===== verification/Engines.thy ===== *)
theory Engines
  imports PgProps CoreProps
begin

text \<open>
  One contract for the two engines behind \<open>core.Backend\<close> (\<open>internal/core/backend.go\<close>): what a reader of
  questions and answers may rely on is the abstract store below; the in-memory service and the
  Postgres/Redis backend both refine it, and what holds of a reader is proved once.
\<close>

section \<open>The abstract store\<close>

text \<open>A question, as a reader sees it: its author, the committed pieces of the answer, whether it is over.\<close>

record ticket =
  tkAuthor :: string
  tkTexts :: "string list"
  tkOver :: bool

type_synonym store = "string \<Rightarrow> ticket option"

inductive specStep :: "store \<Rightarrow> store \<Rightarrow> bool" where
  asks: "B rid = None \<Longrightarrow> specStep B (B(rid \<mapsto> \<lparr>tkAuthor = who, tkTexts = [], tkOver = False\<rparr>))"
| says: "B rid = Some t \<Longrightarrow> \<not> tkOver t \<Longrightarrow> specStep B (B(rid \<mapsto> t\<lparr>tkTexts := tkTexts t @ [x]\<rparr>))"
| ends: "B rid = Some t \<Longrightarrow> specStep B (B(rid \<mapsto> t\<lparr>tkOver := True\<rparr>))"

definition ticket_le :: "ticket \<Rightarrow> ticket \<Rightarrow> bool" where
  "ticket_le t t' \<longleftrightarrow> tkAuthor t' = tkAuthor t \<and> prefix (tkTexts t) (tkTexts t') \<and> (tkOver t \<longrightarrow> t' = t)"

definition advances :: "store \<Rightarrow> store \<Rightarrow> bool" where
  "advances B B' \<longleftrightarrow> (\<forall>rid t. B rid = Some t \<longrightarrow> (\<exists>t'. B' rid = Some t' \<and> ticket_le t t'))"

lemma ticket_le_trans: "ticket_le a b \<Longrightarrow> ticket_le b c \<Longrightarrow> ticket_le a c"
  by (auto simp: ticket_le_def intro: prefix_order.trans)

lemma advances_refl [simp]: "advances B B"
  by (simp add: advances_def ticket_le_def)

lemma advances_trans: "advances A B \<Longrightarrow> advances B C \<Longrightarrow> advances A C"
  unfolding advances_def using ticket_le_trans by meson

lemma spec_then: "specStep\<^sup>*\<^sup>* A B \<Longrightarrow> specStep B C \<Longrightarrow> specStep\<^sup>*\<^sup>* A C"
  by (rule rtranclp.rtrancl_into_rtrancl)

lemma spec_says: "B rid = Some t \<Longrightarrow> \<not> tkOver t \<Longrightarrow> specStep\<^sup>*\<^sup>* B (B(rid \<mapsto> t\<lparr>tkTexts := tkTexts t @ xs\<rparr>))"
proof (induction xs rule: rev_induct)
  case Nil
  have "B(rid \<mapsto> t) = B" using Nil by (simp add: fun_upd_idem)
  then show ?case by simp
next
  case (snoc x xs)
  let ?t = "t\<lparr>tkTexts := tkTexts t @ xs\<rparr>"
  have "specStep (B(rid \<mapsto> ?t)) ((B(rid \<mapsto> ?t))(rid \<mapsto> ?t\<lparr>tkTexts := tkTexts ?t @ [x]\<rparr>))"
    by (rule says) (use snoc.prems in simp_all)
  then have "specStep (B(rid \<mapsto> ?t)) (B(rid \<mapsto> t\<lparr>tkTexts := tkTexts t @ xs @ [x]\<rparr>))" by simp
  with snoc.IH[OF snoc.prems] show ?case using spec_then by blast
qed

lemma spec_ticket:
  assumes "B rid = Some t" and "ticket_le t t'"
  shows "specStep\<^sup>*\<^sup>* B (B(rid \<mapsto> t'))"
proof (cases "tkOver t")
  case True
  then have "B(rid \<mapsto> t') = B" using assms by (simp add: ticket_le_def fun_upd_idem)
  then show ?thesis by simp
next
  case False
  obtain xs where xs: "tkTexts t' = tkTexts t @ xs" using assms(2) by (auto simp: ticket_le_def prefix_def)
  let ?t = "t\<lparr>tkTexts := tkTexts t @ xs\<rparr>"
  have a: "specStep\<^sup>*\<^sup>* B (B(rid \<mapsto> ?t))" by (rule spec_says) (rule assms(1), rule False)
  show ?thesis
  proof (cases "tkOver t'")
    case True
    then have "t' = ?t\<lparr>tkOver := True\<rparr>" using assms(2) xs by (simp add: ticket_le_def)
    then have "specStep (B(rid \<mapsto> ?t)) (B(rid \<mapsto> t'))" using ends[of "B(rid \<mapsto> ?t)" rid ?t] by simp
    then show ?thesis using a by simp
  next
    case o: False
    then have "t' = ?t" using assms(2) xs False by (simp add: ticket_le_def)
    then show ?thesis using a by simp
  qed
qed

lemma spec_new: "B rid = None \<Longrightarrow> specStep\<^sup>*\<^sup>* B (B(rid \<mapsto> t))"
proof -
  let ?t = "\<lparr>tkAuthor = tkAuthor t, tkTexts = [], tkOver = False\<rparr>"
  assume "B rid = None"
  then have "specStep B (B(rid \<mapsto> ?t))" by (rule asks)
  moreover have "specStep\<^sup>*\<^sup>* (B(rid \<mapsto> ?t)) ((B(rid \<mapsto> ?t))(rid \<mapsto> t))" 
    using spec_ticket[where B = "B(rid \<mapsto> ?t)" and rid = rid and t = ?t and t' = t] by (simp add: ticket_le_def)
  ultimately show ?thesis by simp
qed

text \<open>A store that is ahead of another is reached from it by steps of the specification.\<close>

lemma advances_spec:
  assumes "advances B B'" and "finite (dom B')"
  shows "specStep\<^sup>*\<^sup>* B B'"
proof -
  have "specStep\<^sup>*\<^sup>* B (\<lambda>x. if x \<in> S then B' x else B x)" if "finite S" "S \<subseteq> dom B'" for S
    using that
  proof (induction S)
    case (insert rid S)
    let ?C = "\<lambda>x. if x \<in> S then B' x else B x"
    obtain t' where t': "B' rid = Some t'" using insert.prems by auto
    have "specStep\<^sup>*\<^sup>* ?C (?C(rid \<mapsto> t'))"
    proof (cases "B rid")
      case None
      then show ?thesis using insert.hyps by (simp add: spec_new)
    next
      case (Some t)
      then have "\<exists>u. B' rid = Some u \<and> ticket_le t u" using assms(1) by (simp add: advances_def)
      then have "ticket_le t t'" using t' by simp
      then show ?thesis using insert.hyps Some by (simp add: spec_ticket)
    qed
    moreover have "?C(rid \<mapsto> t') = (\<lambda>x. if x \<in> insert rid S then B' x else B x)" using t' by auto
    ultimately show ?case using insert by simp
  qed simp
  from this[OF assms(2) subset_refl] have "specStep\<^sup>*\<^sup>* B (\<lambda>x. if x \<in> dom B' then B' x else B x)" .
  moreover have "(\<lambda>x. if x \<in> dom B' then B' x else B x) = B'"
  proof
    fix x show "(if x \<in> dom B' then B' x else B x) = B' x"
      using assms(1) by (cases "B x"; cases "B' x") (auto simp: advances_def)
  qed
  ultimately show ?thesis by simp
qed

section \<open>Engines\<close>

text \<open>
  An engine: its states, steps, and what a reader sees. A reader that polls has sent \<open>sent\<close> and sends what
  it finds beyond it.
\<close>

definition textsAt :: "store \<Rightarrow> string \<Rightarrow> string list" where
  "textsAt B rid = (case B rid of None \<Rightarrow> [] | Some t \<Rightarrow> tkTexts t)"

definition poll :: "string \<Rightarrow> store \<Rightarrow> string list \<Rightarrow> string list" where
  "poll rid B sent = sent @ drop (length sent) (textsAt B rid)"

locale answer_engine =
  fixes start :: 's
    and step :: "'s \<Rightarrow> 's \<Rightarrow> bool"
    and view :: "'s \<Rightarrow> store"
  assumes start_empty: "view start = Map.empty"
    and view_finite: "finite (dom (view s))"
    and step_advances: "step\<^sup>*\<^sup>* start s \<Longrightarrow> step s s' \<Longrightarrow> advances (view s) (view s')"
begin

lemma steps_advance: "step\<^sup>*\<^sup>* s s' \<Longrightarrow> step\<^sup>*\<^sup>* start s \<Longrightarrow> advances (view s) (view s')"
proof (induction rule: rtranclp_induct)
  case (step y z)
  then show ?case using step_advances[OF rtranclp_trans[OF step.prems step(1)] step(2)] advances_trans by blast
qed simp

lemma refines: "step\<^sup>*\<^sup>* start s \<Longrightarrow> step\<^sup>*\<^sup>* s s' \<Longrightarrow> specStep\<^sup>*\<^sup>* (view s) (view s')"
  using steps_advance advances_spec view_finite by blast

lemma refines_start: "step\<^sup>*\<^sup>* start s \<Longrightarrow> specStep\<^sup>*\<^sup>* Map.empty (view s)"
  using refines[of start s] start_empty by simp

lemma texts_grow: "step\<^sup>*\<^sup>* start s \<Longrightarrow> step\<^sup>*\<^sup>* s s' \<Longrightarrow> prefix (textsAt (view s) rid) (textsAt (view s') rid)"
  using steps_advance[of s s'] unfolding advances_def textsAt_def ticket_le_def
  by (cases "view s rid") (simp, fastforce)

text \<open>Whatever the states are at which a reader polls, it has always sent exactly the answer it saw last.\<close>

lemma polling:
  assumes "successively step\<^sup>*\<^sup>* (s # ss)" and "step\<^sup>*\<^sup>* start s"
  shows "fold (poll rid) (map view (s # ss)) [] = textsAt (view (last (s # ss))) rid"
proof -
  have "fold (poll rid) (map view ss) (textsAt (view s) rid) = textsAt (view (last (s # ss))) rid"
    using assms
  proof (induction ss arbitrary: s)
    case (Cons t ss)
    have st: "step\<^sup>*\<^sup>* s t" "step\<^sup>*\<^sup>* start t" using Cons.prems by auto
    have "poll rid (view t) (textsAt (view s) rid) = textsAt (view t) rid"
      using texts_grow[OF Cons.prems(2) st(1), of rid] by (auto simp: poll_def prefix_def)
    then show ?case using Cons.IH[of t] Cons.prems st(2) by simp
  qed simp
  then show ?thesis by (simp add: poll_def)
qed

end

section \<open>The two engines\<close>

definition svcView :: "service \<Rightarrow> store" where
  "svcView s rid = map_option (\<lambda>r. \<lparr>tkAuthor = RequesterSessionID r,
     tkTexts = map FrgText (mget0 (fragments s) rid), tkOver = isTerminal (Status r)\<rparr>) (mget (requests s) rid)"

definition pgView :: "pgdb \<Rightarrow> store" where
  "pgView d rid = map_option (\<lambda>r. \<lparr>tkAuthor = RequesterSessionID r,
     tkTexts = map (FrgText \<circ> fst) (fragmentRows d rid), tkOver = isTerminalStatus (Status r)\<rparr>) (requestRow d rid)"

lemma extends_advances: "extends s s' \<Longrightarrow> advances (svcView s) (svcView s')"
  unfolding advances_def
proof (intro allI impI)
  fix rid t assume e: "extends s s'" and "svcView s rid = Some t"
  then obtain r where r: "mget (requests s) rid = Some r" "t = \<lparr>tkAuthor = RequesterSessionID r,
     tkTexts = map FrgText (mget0 (fragments s) rid), tkOver = isTerminal (Status r)\<rparr>" by (auto simp: svcView_def)
  obtain r' where r': "mget (requests s') rid = Some r'" "req_le r r'"
      "isTerminal (Status r) \<longrightarrow> mget0 (fragments s') rid = mget0 (fragments s) rid"
    using e r(1) unfolding extends_def by blast
  have "prefix (map FrgText (mget0 (fragments s) rid)) (map FrgText (mget0 (fragments s') rid))"
    using e by (auto simp: extends_def intro: map_mono_prefix)
  then show "\<exists>t'. svcView s' rid = Some t' \<and> ticket_le t t'"
    using r r' can_become_terminal[of "Status r" "Status r'"]
    by (simp add: svcView_def ticket_le_def req_le_def same_question_def)
qed

lemma grows_advances: "grows d d' \<Longrightarrow> advances (pgView d) (pgView d')"
  by (fastforce simp: advances_def pgView_def grows_def rowGrows_def ticket_le_def sameQuestion_def over_def)

interpretation memory: answer_engine NewService svc_step svcView
proof
  show "svcView NewService = Map.empty" by (rule ext) (simp add: svcView_def NewService_def mget_def)
  show "finite (dom (svcView s))" for s
    by (rule finite_subset[of _ "dom (mget (requests s))"]) (auto simp: svcView_def mget_def[abs_def] finite_dom_map_of)
  show "advances (svcView s) (svcView s')" if "svc_step\<^sup>*\<^sup>* NewService s" "svc_step s s'" for s s'
    using extends_advances reachable_extends[of s s'] that by (simp add: reachable_def r_into_rtranclp)
qed

interpretation tables: answer_engine emptyDB dbstep pgView
proof
  show "pgView emptyDB = Map.empty" by (rule ext) (simp add: pgView_def emptyDB_def requestRow_def mget_def)
  show "finite (dom (pgView d))" for d
    by (rule finite_subset[of _ "dom (mget (tRequests d))"])
      (auto simp: pgView_def requestRow_def mget_def[abs_def] finite_dom_map_of)
  show "advances (pgView d) (pgView d')" if "dbstep\<^sup>*\<^sup>* emptyDB d" "dbstep d d'" for d d'
    using that rowsOK_reach by (auto simp: dbreach_def intro: grows_advances grows_step)
qed

section \<open>Properties\<close>



end
