(* ===== verification/ServerMain.thy ===== *)
theory ServerMain
  imports Fallback Persona HttpApi
begin

text \<open>
  The server process (\<open>cmd/server/main.go\<close>) and the reading of its settings
  (\<open>DefaultFallbackConfigFromEnv\<close> in \<open>internal/httpapi/server.go\<close>, \<open>parseFallbackDelay\<close> and
  \<open>parseFallbackMaxChunkRunes\<close> in \<open>internal/httpapi/fallback.go\<close>). The environment is a function
  \<open>env\<close>, empty for a variable that is not set, as \<open>os.Getenv\<close> has it. Whether \<open>pgredis.New\<close> connects
  is the parameter \<open>connect\<close>, the readiness check of the backend it returns the parameter \<open>ping\<close>.
\<close>

section \<open>Durations\<close>

text \<open>
  \<open>time.ParseDuration\<close>. Integers are kept below \<open>2 ^ 63 + 1\<close> by the checks of the code; only the sum
  of the parts can wrap, when both are \<open>2 ^ 63\<close>. The product of a fraction with its unit is computed in
  \<open>float64\<close> by the library and exactly here; the truncated results differ by at most a nanosecond.
\<close>

fun leadingInt :: "nat \<Rightarrow> string \<Rightarrow> nat option" where
  "leadingInt x [] = Some x"
| "leadingInt x (c # cs) =
     (if x > 2 ^ 63 div 10 then None
      else let y = x * 10 + (byte c - 48) in if y > 2 ^ 63 then None else leadingInt y cs)"

fun leadingFraction :: "nat \<Rightarrow> nat \<Rightarrow> string \<Rightarrow> nat \<times> nat" where
  "leadingFraction x scale [] = (x, scale)"
| "leadingFraction x scale (c # cs) =
     (if x > (2 ^ 63 - 1) div 10 then (x, scale)
      else let y = x * 10 + (byte c - 48) in
        if y > 2 ^ 63 then (x, scale) else leadingFraction y (scale * 10) cs)"

definition unitMap :: "string \<Rightarrow> nat option" where
  "unitMap = map_of
     [(''ns'', 1), (''us'', 10 ^ 3), ([char_of (0xC2 :: nat), char_of (0xB5 :: nat), CHR ''s''], 10 ^ 3),
      ([char_of (0xCE :: nat), char_of (0xBC :: nat), CHR ''s''], 10 ^ 3), (''ms'', 10 ^ 6), (''s'', 10 ^ 9),
      (''m'', 60 * 10 ^ 9), (''h'', 3600 * 10 ^ 9)]"

definition unitByte :: "char \<Rightarrow> bool" where
  "unitByte c \<longleftrightarrow> c \<noteq> CHR ''.'' \<and> \<not> isDigit c"

text \<open>One number with its unit: the nanoseconds and the rest of the text.\<close>

definition durationPart :: "string \<Rightarrow> (nat \<times> string) option" where
  "durationPart s =
     (if \<not> (hd s = CHR ''.'' \<or> isDigit (hd s)) then None
      else case leadingInt 0 (takeWhile isDigit s) of
        None \<Rightarrow> None
      | Some v \<Rightarrow>
          let s1 = dropWhile isDigit s;
              point = HasPrefix s1 ''.'';
              ds = (if point then takeWhile isDigit (drop 1 s1) else []);
              s2 = (if point then dropWhile isDigit (drop 1 s1) else s1);
              (f, scale) = leadingFraction 0 1 ds
          in if takeWhile isDigit s = [] \<and> ds = [] then None
             else if takeWhile unitByte s2 = [] then None
             else case unitMap (takeWhile unitByte s2) of
               None \<Rightarrow> None
             | Some unit \<Rightarrow>
                 if v > 2 ^ 63 div unit then None
                 else let v1 = v * unit + (if f > 0 then f * unit div scale else 0) in
                   if f > 0 \<and> v1 > 2 ^ 63 then None else Some (v1, dropWhile unitByte s2))"

lemma durationPart_shorter:
  assumes "durationPart s = Some (v, rest)" and "s \<noteq> []"
  shows "length rest < length s"
proof -
  define s1 where "s1 = dropWhile isDigit s"
  define s2 where "s2 = (if HasPrefix s1 ''.'' then dropWhile isDigit (drop 1 s1) else s1)"
  have "length s2 \<le> length s1" using length_dropWhile_le[of isDigit "drop 1 s1"] by (auto simp: s2_def)
  also have "\<dots> \<le> length s" by (simp add: s1_def length_dropWhile_le)
  finally have l: "length s2 \<le> length s" .
  have r: "takeWhile unitByte s2 \<noteq> []" "rest = dropWhile unitByte s2"
    using assms(1) unfolding durationPart_def Let_def s1_def[symmetric] s2_def[symmetric]
    by (auto split: if_splits option.splits prod.splits)
  have "length (takeWhile unitByte s2) + length rest = length s2"
    using takeWhile_dropWhile_id[of unitByte s2] unfolding r(2) by (metis length_append)
  then show ?thesis using l r(1) by (cases "takeWhile unitByte s2") auto
qed

function durationLoop :: "nat \<Rightarrow> string \<Rightarrow> nat option" where
  "durationLoop d s =
     (if s = [] then Some d
      else case durationPart s of
        None \<Rightarrow> None
      | Some (v, rest) \<Rightarrow>
          let d1 = (d + v) mod 2 ^ 64 in if d1 > 2 ^ 63 then None else durationLoop d1 rest)"
  by pat_completeness auto
termination by (relation "measure (\<lambda>(d, s). length s)") (auto dest: durationPart_shorter)

declare durationLoop.simps [simp del]

definition ParseDuration :: "string \<Rightarrow> duration option" where
  "ParseDuration orig =
     (let neg = HasPrefix orig ''-'';
          s = (if neg \<or> HasPrefix orig ''+'' then drop 1 orig else orig)
      in if s = ''0'' then Some 0
         else if s = [] then None
         else case durationLoop 0 s of
           None \<Rightarrow> None
         | Some d \<Rightarrow> if neg then Some (- int d) else if d > 2 ^ 63 - 1 then None else Some (int d))"

section \<open>The settings of the fallback\<close>

definition parseFallbackDelay :: "string \<Rightarrow> duration" where
  "parseFallbackDelay v =
     (if TrimSpace v = [] then 0 else case ParseDuration v of None \<Rightarrow> 0 | Some delay \<Rightarrow> delay)"

definition parseFallbackMaxChunkRunes :: "string \<Rightarrow> int" where
  "parseFallbackMaxChunkRunes v =
     (if TrimSpace v = [] then 0
      else case Atoi v of None \<Rightarrow> 0 | Some count \<Rightarrow> if count \<le> 0 then 0 else count)"

type_synonym environment = "string \<Rightarrow> string"

definition DefaultFallbackConfigFromEnv :: "environment \<Rightarrow> FallbackConfig" where
  "DefaultFallbackConfigFromEnv env =
     \<lparr>FEnabled = (env ''DEEPERSEEK_FALLBACK_API_KEY'' \<noteq> []),
      FBaseURL = env ''DEEPERSEEK_FALLBACK_BASE_URL'',
      FAPIKey = env ''DEEPERSEEK_FALLBACK_API_KEY'',
      FModel = env ''DEEPERSEEK_FALLBACK_MODEL'',
      FDelay = parseFallbackDelay (env ''DEEPERSEEK_FALLBACK_DELAY''),
      FChunkDelay = parseFallbackDelay (env ''DEEPERSEEK_FALLBACK_CHUNK_DELAY''),
      FMaxChunkRunes = parseFallbackMaxChunkRunes (env ''DEEPERSEEK_FALLBACK_MAX_CHUNK_RUNES''),
      FMaxAnswerRunes = parseFallbackMaxChunkRunes (env ''DEEPERSEEK_FALLBACK_MAX_ANSWER_RUNES'')\<rparr>"

section \<open>The process\<close>

definition envBool :: "environment \<Rightarrow> string \<Rightarrow> bool \<Rightarrow> bool" where
  "envBool env var def =
     (let v = ToLower (env var) in
      if v = [] then def else v \<in> {''1'', ''true'', ''yes'', ''on''})"

definition envInt :: "environment \<Rightarrow> string \<Rightarrow> int \<Rightarrow> int" where
  "envInt env var def =
     (if env var \<noteq> [] then (case Atoi (env var) of Some n \<Rightarrow> n | None \<Rightarrow> def) else def)"

text \<open>\<open>log.Fatalf\<close> ends the process.\<close>

datatype engine = PgRedisEngine string string | MemoryEngine

datatype fatal = BackendError string string | SetTogether bool bool

definition buildBackend :: "(string \<Rightarrow> string \<Rightarrow> bool) \<Rightarrow> environment \<Rightarrow> fatal + engine" where
  "buildBackend connect env =
     (let dbURL = env ''DATABASE_URL''; redisURL = env ''REDIS_URL'' in
      if dbURL \<noteq> [] \<and> redisURL \<noteq> [] then
        (if connect dbURL redisURL then Inr (PgRedisEngine dbURL redisURL) else Inl (BackendError dbURL redisURL))
      else if dbURL = [] \<and> redisURL = [] then Inr MemoryEngine
      else Inl (SetTogether (dbURL \<noteq> []) (redisURL \<noteq> [])))"

text \<open>The configuration the manager is started with, \<open>None\<close> when it is not started.\<close>

definition startPersonas :: "environment \<Rightarrow> personaConfig option" where
  "startPersonas env =
     (let cfg0 = DefaultConfig\<lparr>PEnabled := envBool env ''DEEPERSEEK_PERSONA_ENABLED'' True\<rparr>;
          n1 = envInt env ''DEEPERSEEK_PERSONA_MAX_RESPONDERS'' 0;
          cfg1 = (if n1 > 0 then cfg0\<lparr>MaxResponders := n1\<rparr> else cfg0);
          n2 = envInt env ''DEEPERSEEK_PERSONA_TARGET_QUEUE'' (- 1);
          cfg2 = (if n2 \<ge> 0 then cfg1\<lparr>TargetQueue := n2\<rparr> else cfg1);
          cfg3 = cfg2\<lparr>PLLM :=
            \<lparr>BaseURL = env ''DEEPERSEEK_FALLBACK_BASE_URL'', APIKey = env ''DEEPERSEEK_FALLBACK_API_KEY'',
             LModel = env ''DEEPERSEEK_FALLBACK_MODEL'', MaxTokens = AnswerRunes cfg2\<rparr>\<rparr>
      in if \<not> PEnabled cfg3 \<or> \<not> Enabled (PLLM cfg3) then None else Some cfg3)"

definition serverOptions :: "environment \<Rightarrow> ServerOptions" where
  "serverOptions env =
     \<lparr>optFallback = DefaultFallbackConfigFromEnv env,
      optStaticDir = env ''STATIC_DIR'',
      optRatePerMin = envInt env ''DEEPERSEEK_RATE_PER_MIN'' 0,
      optRateBurst = envInt env ''DEEPERSEEK_RATE_BURST'' 40,
      optTrustedProxies = envInt env ''DEEPERSEEK_TRUSTED_PROXIES'' 1\<rparr>"

record process =
  procAddr :: string
  procEngine :: engine
  procServer :: Server
  procSweep :: duration
  procPersonas :: "personaConfig option"

definition serverMain ::
  "(string \<Rightarrow> string \<Rightarrow> bool) \<Rightarrow> (nat \<Rightarrow> string option) \<Rightarrow> environment \<Rightarrow> fatal + process"
where
  "serverMain connect ping env =
     (case buildBackend connect env of
        Inl f \<Rightarrow> Inl f
      | Inr engine \<Rightarrow> Inr
          \<lparr>procAddr = (if env ''ADDR'' = [] then '':8080'' else env ''ADDR''),
           procEngine = engine,
           procServer = NewServerWithOptions
             (case engine of PgRedisEngine _ _ \<Rightarrow> Some ping | MemoryEngine \<Rightarrow> None) (serverOptions env),
           procSweep = second,
           procPersonas = startPersonas env\<rparr>)"

section \<open>What the settings are\<close>

lemma durationLoop_Nil [simp]: "durationLoop d [] = Some d"
  by (subst durationLoop.simps) simp

lemma durationLoop_step:
  "durationPart s = Some (v, rest) \<Longrightarrow> s \<noteq> [] \<Longrightarrow>
   durationLoop d s = (if (d + v) mod 2 ^ 64 > 2 ^ 63 then None else durationLoop ((d + v) mod 2 ^ 64) rest)"
  by (subst durationLoop.simps) (simp add: Let_def)

lemma durationLoop_bound: "durationLoop d s = Some d' \<Longrightarrow> d \<le> 2 ^ 63 \<Longrightarrow> d' \<le> 2 ^ 63"
proof (induction d s rule: durationLoop.induct)
  case (1 d s)
  show ?case
  proof (cases "s = [] \<or> durationPart s = None")
    case True
    then show ?thesis using "1.prems" by (subst (asm) durationLoop.simps) (auto split: if_splits)
  next
    case False
    then obtain v rest where p: "s \<noteq> []" "durationPart s = Some (v, rest)" by auto
    then show ?thesis using "1.prems"(1) "1.IH"[OF p(1,2) refl refl]
      by (simp add: durationLoop_step split: if_splits)
  qed
qed

lemma ParseDuration_range:
  assumes "ParseDuration s = Some d" shows "minDuration \<le> d \<and> d \<le> maxDuration"
  using assms durationLoop_bound[of 0]
  by (fastforce simp: ParseDuration_def Let_def minDuration_def maxDuration_def split: if_splits option.splits)

lemma parseFallbackDelay_range: "parseFallbackDelay v \<le> maxDuration"
  using ParseDuration_range by (auto simp: parseFallbackDelay_def maxDuration_def split: option.split)

text \<open>
  The fallback has a default upstream, the personas have none: with the API key alone the fallback is on
  and the personas are off.
\<close>

definition keyOnly :: environment where
  "keyOnly = (\<lambda>var. if var = ''DEEPERSEEK_FALLBACK_API_KEY'' then ''k'' else [])"

lemma personas_need_their_own_upstream:
  "FEnabled (withDefaults (DefaultFallbackConfigFromEnv keyOnly)) \<and> startPersonas keyOnly = None"
  by (simp add: keyOnly_def withDefaults_def DefaultFallbackConfigFromEnv_def startPersonas_def Enabled_def Let_def envInt_def)

lemma ParseDuration_samples:
  "ParseDuration ''1.5s'' = Some (1500 * millisecond)"
  "ParseDuration ''-2m30s'' = Some (- (150 * second))"
  "ParseDuration ''10'' = None"
  "ParseDuration ''9223372036854775808ns'' = None"
  by code_simp+

lemma withDefaults_usable:
  assumes "c = withDefaults (DefaultFallbackConfigFromEnv env)"
  shows "(FEnabled c \<longleftrightarrow> env ''DEEPERSEEK_FALLBACK_API_KEY'' \<noteq> []) \<and> Enabled (fallbackLlmConfig c) = FEnabled c \<and>
    0 < FDelay c \<and> FDelay c \<le> maxDuration \<and> 0 < FChunkDelay c \<and> FChunkDelay c \<le> maxDuration \<and>
    0 < FMaxChunkRunes c \<and> 0 < FMaxAnswerRunes c \<and> FMaxAnswerRunes c \<le> OutputLimitChars"
  using parseFallbackDelay_range unfolding assms
  by (auto simp: withDefaults_def DefaultFallbackConfigFromEnv_def fallbackLlmConfig_def Enabled_def
      defaultFallbackBaseURL_def defaultFallbackModel_def defaultFallbackDelay_def defaultFallbackChunkDelay_def
      defaultFallbackMaxAnswerRunes_def defaultFallbackMaxChunkRunes_def OutputLimitChars_def
      second_def millisecond_def maxDuration_def not_le)

lemma startPersonas_usable:
  "startPersonas env = Some c \<Longrightarrow> PEnabled c \<and> Enabled (PLLM c) \<and> 0 < MaxResponders c \<and> 0 \<le> TargetQueue c \<and>
     MaxTokens (PLLM c) = AnswerRunes DefaultConfig"
  by (auto simp: startPersonas_def Let_def DefaultConfig_def split: if_splits)



end
