(* ===== verification/Simload.thy ===== *)
theory Simload
  imports HttpStreams
begin

text \<open>
  The load simulator (\<open>cmd/simload\<close>): the client side of a chat completion with its event stream
  (\<open>actors.go\<close>), the simulated responder on its socket, the checker of the collected
  observations (\<open>invariants.go\<close>), the table of scenarios and the exit code (\<open>main.go\<close>). Floating
  point probabilities are rationals; random draws, the clock and the outcome of a write are arguments.
  A goroutine's pause between two tries and the random choice of questions are not modelled.
\<close>

section \<open>Scenarios and observations\<close>

record scenario =
  scName :: string
  scRequesters :: nat
  scResponders :: nat
  scDuration :: duration
  scCancelProb :: rat
  scSkipProb :: rat
  scDropProb :: rat
  scChurnProb :: rat
  scBlockingRatio :: rat
  scUseFallback :: bool
  scSlowReaderMode :: bool

definition plainScenario :: "string \<Rightarrow> nat \<Rightarrow> nat \<Rightarrow> int \<Rightarrow> scenario" where
  "plainScenario name n m secs =
     \<lparr>scName = name, scRequesters = n, scResponders = m, scDuration = secs * second, scCancelProb = 0,
      scSkipProb = 0, scDropProb = 0, scChurnProb = 0, scBlockingRatio = 0, scUseFallback = False,
      scSlowReaderMode = False\<rparr>"

definition scenarios :: "(string \<times> scenario) list" where
  "scenarios =
     [(''a'', plainScenario ''a-balanced'' 30 10 30),
      (''b'', (plainScenario ''b-queue-pressure'' 50 5 40)\<lparr>scBlockingRatio := 1 / 10\<rparr>),
      (''c'', plainScenario ''c-idle-responders'' 10 20 25),
      (''d'', (plainScenario ''d-heavy-churn'' 40 12 45)
        \<lparr>scCancelProb := 12 / 100, scSkipProb := 15 / 100, scDropProb := 15 / 100, scChurnProb := 35 / 100\<rparr>),
      (''e'', (plainScenario ''e-fallback-only'' 12 0 30)\<lparr>scUseFallback := True\<rparr>),
      (''f'', (plainScenario ''f-slow-reader-probe'' 1 1 30)\<lparr>scSlowReaderMode := True\<rparr>)]"

record ackedFrag =
  fgSession :: string
  fgText :: string
  fgAt :: time

record requesterResult =
  rqID :: string
  rqQuestion :: string
  rqContent :: string
  rqDeltaRunes :: "int list"
  rqDone :: bool
  rqFinish :: string
  rqCancelled :: bool
  rqStalled :: bool
  rqErr :: string
  rqCreated :: time
  rqFirst :: time
  rqMaxGap :: duration
  rqBlocking :: bool

definition newResult :: "string \<Rightarrow> time \<Rightarrow> bool \<Rightarrow> requesterResult" where
  "newResult question now blocking =
     \<lparr>rqID = [], rqQuestion = question, rqContent = [], rqDeltaRunes = [], rqDone = False, rqFinish = [],
      rqCancelled = False, rqStalled = False, rqErr = [], rqCreated = now, rqFirst = 0, rqMaxGap = 0,
      rqBlocking = blocking\<rparr>"

record simWorld =
  swAcked :: "(string, ackedFrag list) gomap"
  swResults :: "requesterResult list"
  swAckErrors :: "(string, int) gomap"
  swAssignments :: int

definition newWorld :: simWorld where
  "newWorld = \<lparr>swAcked = [], swResults = [], swAckErrors = [], swAssignments = 0\<rparr>"

definition recordResult :: "requesterResult \<Rightarrow> simWorld \<Rightarrow> simWorld" where
  "recordResult res w = w\<lparr>swResults := swResults w @ [res]\<rparr>"

definition countError :: "string \<Rightarrow> simWorld \<Rightarrow> simWorld" where
  "countError msg w = w\<lparr>swAckErrors := mput msg
     ((case mget (swAckErrors w) msg of None \<Rightarrow> 0 | Some n \<Rightarrow> n) + 1) (swAckErrors w)\<rparr>"

section \<open>The requester\<close>

text \<open>What the client decodes from a chunk of the stream.\<close>

record simChoice =
  chDelta :: string
  chFinish :: "string option"

record simChunk =
  ckID :: string
  ckChoices :: "simChoice list"

definition simChoiceStore :: "simChoice storer" where
  "simChoiceStore n v c =
     (if n = ''delta'' then (case deltaContent v of None \<Rightarrow> None | Some t \<Rightarrow> Some (c\<lparr>chDelta := t\<rparr>))
      else storeStringPtr v (\<lambda>t c. c\<lparr>chFinish := t\<rparr>) c)"

definition decodeSimChoice :: "json \<Rightarrow> simChoice \<times> bool" where
  "decodeSimChoice v =
     decodeStruct False [''delta'', ''finish_reason''] simChoiceStore v \<lparr>chDelta = [], chFinish = None\<rparr>"

definition simChunkStore :: "simChunk storer" where
  "simChunkStore n v k =
     (if n = ''id'' then storeString v (\<lambda>t k. k\<lparr>ckID := t\<rparr>) k
      else case v of
        JNull \<Rightarrow> Some (k\<lparr>ckChoices := []\<rparr>)
      | JArray vs \<Rightarrow>
          if list_ex (\<lambda>u. snd (decodeSimChoice u)) vs then None
          else Some (k\<lparr>ckChoices := map (\<lambda>u. fst (decodeSimChoice u)) vs\<rparr>)
      | _ \<Rightarrow> None)"

definition unmarshalSimChunk :: "(string \<Rightarrow> json option) \<Rightarrow> string \<Rightarrow> simChunk option" where
  "unmarshalSimChunk parse payload =
     (let (k, err) = Decode False [''id'', ''choices''] simChunkStore (parse payload) \<lparr>ckID = [], ckChoices = []\<rparr>
      in if err then None else Some k)"

text \<open>The result being filled, the time of the last delta, and how often the clock was read.\<close>

record simReader =
  rdResult :: requesterResult
  rdLast :: time
  rdReads :: nat

definition simDelta :: "(nat \<Rightarrow> time) \<Rightarrow> string \<Rightarrow> simReader \<Rightarrow> simReader" where
  "simDelta timeAt delta r =
     (let now = timeAt (rdReads r); res = rdResult r; gap = time_sub now (rdLast r);
          res1 = (if is_zero_time (rqFirst res) then res\<lparr>rqFirst := now\<rparr>
            else if gap > rqMaxGap res then res\<lparr>rqMaxGap := gap\<rparr> else res)
      in \<lparr>rdResult = res1\<lparr>rqContent := rqContent res1 @ delta,
            rqDeltaRunes := rqDeltaRunes res1 @ [int (length (runes delta))]\<rparr>,
          rdLast = now, rdReads = Suc (rdReads r)\<rparr>)"

definition simTakeChoice :: "(nat \<Rightarrow> time) \<Rightarrow> simReader \<Rightarrow> simChoice \<Rightarrow> simReader" where
  "simTakeChoice timeAt r choice =
     (let r1 = (if chDelta choice \<noteq> [] then simDelta timeAt (chDelta choice) r else r)
      in case chFinish choice of None \<Rightarrow> r1
         | Some reason \<Rightarrow> r1\<lparr>rdResult := (rdResult r1)\<lparr>rqFinish := reason\<rparr>\<rparr>)"

definition simTakeChunk :: "(nat \<Rightarrow> time) \<Rightarrow> simChunk \<Rightarrow> simReader \<Rightarrow> simReader" where
  "simTakeChunk timeAt chunk r =
     (let res = rdResult r;
          res1 = (if rqID res = [] then res\<lparr>rqID := TrimPrefix (ckID chunk) ''chatcmpl_''\<rparr> else res)
      in foldl (simTakeChoice timeAt) (r\<lparr>rdResult := res1\<rparr>) (ckChoices chunk))"

text \<open>\<open>overdue\<close>: the context ended by its deadline. The first result is the text of the error.\<close>

definition classifyAbort :: "bool \<Rightarrow> string \<Rightarrow> requesterResult \<Rightarrow> string \<times> requesterResult" where
  "classifyAbort overdue err res =
     (if rqCancelled res then ([], res)
      else if overdue then (''deadline'', res\<lparr>rqStalled := True\<rparr>)
      else (err, res))"

text \<open>
  The lines of the body, between which the timer of a client that gives up while queued may fire.
  \<open>scanErr\<close> is the error the scanner ends with, \<open>jsonErr\<close> the error text of a payload.
\<close>

datatype simEvent = Line string | TimerFires

definition timerFires :: "requesterResult \<Rightarrow> requesterResult" where
  "timerFires res = (if is_zero_time (rqFirst res) then res\<lparr>rqCancelled := True\<rparr> else res)"

definition simStreamEnds :: "string option \<Rightarrow> bool \<Rightarrow> requesterResult \<Rightarrow> requesterResult" where
  "simStreamEnds scanErr overdue res =
     (let res1 = (case scanErr of
            Some err \<Rightarrow> (let (t, res') = classifyAbort overdue err res in res'\<lparr>rqErr := t\<rparr>)
          | None \<Rightarrow> if \<not> rqDone res then res\<lparr>rqErr := ''stream ended without [DONE]''\<rparr> else res)
      in if overdue \<and> \<not> rqCancelled res1 then res1\<lparr>rqStalled := True\<rparr> else res1)"

fun simReadSSE ::
  "(string \<Rightarrow> json option) \<Rightarrow> (string \<Rightarrow> string) \<Rightarrow> (nat \<Rightarrow> time) \<Rightarrow> string option \<Rightarrow> bool
   \<Rightarrow> simEvent list \<Rightarrow> simReader \<Rightarrow> requesterResult"
where
  "simReadSSE parse jsonErr timeAt scanErr overdue [] r = simStreamEnds scanErr overdue (rdResult r)"
| "simReadSSE parse jsonErr timeAt scanErr overdue (TimerFires # evs) r =
     simReadSSE parse jsonErr timeAt scanErr overdue evs (r\<lparr>rdResult := timerFires (rdResult r)\<rparr>)"
| "simReadSSE parse jsonErr timeAt scanErr overdue (Line raw # evs) r =
     (let line = TrimSpace raw in
      if \<not> HasPrefix line ''data:'' then simReadSSE parse jsonErr timeAt scanErr overdue evs r
      else let payload = TrimSpace (TrimPrefix line ''data:'') in
        if payload = ''[DONE]'' then (rdResult r)\<lparr>rqDone := True\<rparr>
        else case unmarshalSimChunk parse payload of
          None \<Rightarrow> (rdResult r)\<lparr>rqErr := ''bad chunk: '' @ jsonErr payload\<rparr>
        | Some chunk \<Rightarrow> simReadSSE parse jsonErr timeAt scanErr overdue evs (simTakeChunk timeAt chunk r))"

text \<open>The blocking answer: one document.\<close>

record simBody =
  sbID :: string
  sbChoices :: "(string option \<times> string option) list"

definition blockMessageStore :: "string storer" where
  "blockMessageStore n v t = storeString v (\<lambda>x t. x) t"

definition blockChoiceStore :: "(string option \<times> string option) storer" where
  "blockChoiceStore n v c =
     (if n = ''message'' then
        (case v of
           JNull \<Rightarrow> Some (None, snd c)
         | _ \<Rightarrow> (let (t, err) = decodeStruct False [''Content''] blockMessageStore v [] in
                 if err then None else Some (Some t, snd c)))
      else storeStringPtr v (\<lambda>t c. (fst c, t)) c)"

definition decodeBlockChoice :: "json \<Rightarrow> (string option \<times> string option) \<times> bool" where
  "decodeBlockChoice v = decodeStruct False [''message'', ''finish_reason''] blockChoiceStore v (None, None)"

definition simBodyStore :: "simBody storer" where
  "simBodyStore n v b =
     (if n = ''id'' then storeString v (\<lambda>t b. b\<lparr>sbID := t\<rparr>) b
      else case v of
        JNull \<Rightarrow> Some (b\<lparr>sbChoices := []\<rparr>)
      | JArray vs \<Rightarrow>
          if list_ex (\<lambda>u. snd (decodeBlockChoice u)) vs then None
          else Some (b\<lparr>sbChoices := map (\<lambda>u. fst (decodeBlockChoice u)) vs\<rparr>)
      | _ \<Rightarrow> None)"

definition simReadBody :: "json option \<Rightarrow> string \<Rightarrow> bool \<Rightarrow> requesterResult \<Rightarrow> requesterResult" where
  "simReadBody document err overdue res =
     (let (b, bad) = Decode False [''id'', ''choices''] simBodyStore document \<lparr>sbID = [], sbChoices = []\<rparr> in
      if bad then (let (t, res') = classifyAbort overdue err res in res'\<lparr>rqErr := t\<rparr>)
      else
        let res1 = res\<lparr>rqID := TrimPrefix (sbID b) ''chatcmpl_''\<rparr> in
        case sbChoices b of
          (Some content, finish) # _ \<Rightarrow>
            res1\<lparr>rqContent := content, rqDone := True,
              rqFinish := (case finish of None \<Rightarrow> rqFinish res1 | Some reason \<Rightarrow> reason)\<rparr>
        | _ \<Rightarrow> res1)"

text \<open>
  \<open>askOnce\<close>: \<open>client.Do\<close> fails, or gives a status and a body, of which a blocking client reads the
  document (\<open>readErr\<close> is the error text if it does not decode) and a streaming one the lines. The timer
  is only set by a client that drew to give up.
\<close>

datatype simResponse =
  DoFailed string
| DoResponse int "json option" string "simEvent list" "string option"

definition askOnce ::
  "(string \<Rightarrow> json option) \<Rightarrow> (string \<Rightarrow> string) \<Rightarrow> (nat \<Rightarrow> time) \<Rightarrow> scenario \<Rightarrow> rat \<Rightarrow> simResponse \<Rightarrow> bool
   \<Rightarrow> string \<Rightarrow> time \<Rightarrow> bool \<Rightarrow> requesterResult"
where
  "askOnce parse jsonErr timeAt sc roll resp overdue question now blocking =
     (let res = newResult question now blocking in
      case resp of
        DoFailed err \<Rightarrow> (let (t, res') = classifyAbort overdue err res in res'\<lparr>rqErr := t\<rparr>)
      | DoResponse status document readErr evs scanErr \<Rightarrow>
          if status \<noteq> 200 then res\<lparr>rqErr := ''http '' @ itoa status\<rparr>
          else if blocking then simReadBody document readErr overdue res
          else simReadSSE parse jsonErr timeAt scanErr overdue
            (if roll < scCancelProb sc then evs else List.filter (\<lambda>e. e \<noteq> TimerFires) evs)
            \<lparr>rdResult = res, rdLast = 0, rdReads = 0\<rparr>)"

text \<open>The probe with a reader that stalls: the raw response, header included.\<close>

fun afterFirst :: "string \<Rightarrow> string \<Rightarrow> string option" where
  "afterFirst sep [] = (if sep = [] then Some [] else None)"
| "afterFirst sep (c # cs) =
     (if HasPrefix (c # cs) sep then Some (drop (length sep) (c # cs)) else afterFirst sep cs)"

fun splitLines :: "string \<Rightarrow> string list" where
  "splitLines [] = [[]]"
| "splitLines (c # cs) =
     (if c = CHR 0x0A then [] # splitLines cs
      else case splitLines cs of [] \<Rightarrow> [[c]] | l # ls \<Rightarrow> (c # l) # ls)"

definition decodeProbeChoice :: "json \<Rightarrow> string \<times> bool" where
  "decodeProbeChoice v = decodeStruct False [''delta''] choiceStore v []"

definition probeChunkStore :: "(string \<times> string list) storer" where
  "probeChunkStore n v k =
     (if n = ''id'' then storeString v (\<lambda>t k. (t, snd k)) k
      else case v of
        JNull \<Rightarrow> Some (fst k, [])
      | JArray vs \<Rightarrow>
          if list_ex (\<lambda>u. snd (decodeProbeChoice u)) vs then None
          else Some (fst k, map (\<lambda>u. fst (decodeProbeChoice u)) vs)
      | _ \<Rightarrow> None)"

definition unmarshalProbeChunk :: "(string \<Rightarrow> json option) \<Rightarrow> string \<Rightarrow> (string \<times> string list) option" where
  "unmarshalProbeChunk parse payload =
     (let (k, err) = Decode False [''id'', ''choices''] probeChunkStore (parse payload) ([], [])
      in if err then None else Some k)"

fun probeLines :: "(string \<Rightarrow> json option) \<Rightarrow> string list \<Rightarrow> requesterResult \<Rightarrow> requesterResult" where
  "probeLines parse [] res = res"
| "probeLines parse (raw # ls) res =
     (let line = TrimSpace raw in
      if \<not> HasPrefix line ''data:'' then probeLines parse ls res
      else let payload = TrimSpace (TrimPrefix line ''data:'') in
        if payload = ''[DONE]'' then res\<lparr>rqDone := True\<rparr>
        else case unmarshalProbeChunk parse payload of
          None \<Rightarrow> probeLines parse ls res
        | Some (ident, contents) \<Rightarrow>
            let res1 = (if rqID res = [] then res\<lparr>rqID := TrimPrefix ident ''chatcmpl_''\<rparr> else res)
            in probeLines parse ls (res1\<lparr>rqContent := rqContent res1 @ concat contents\<rparr>))"

definition readProbe :: "(string \<Rightarrow> json option) \<Rightarrow> time \<Rightarrow> string \<Rightarrow> requesterResult \<Rightarrow> requesterResult" where
  "readProbe parse now raw res =
     (let body = (case afterFirst [CHR 0x0D, CHR 0x0A, CHR 0x0D, CHR 0x0A] raw of None \<Rightarrow> raw | Some b \<Rightarrow> b);
          res1 = probeLines parse (splitLines body) res
      in if is_zero_time (rqFirst res1) \<and> rqContent res1 \<noteq> [] then res1\<lparr>rqFirst := now\<rparr> else res1)"

end
