(* ===== verification/SimActors.thy ===== *)
theory SimActors
  imports Simload
begin

text \<open>
  The simulated responder (\<open>serveConnection\<close> and what it calls in \<open>cmd/simload/actors.go\<close>). What its
  \<open>select\<close>s receive is a list of inputs; \<open>None\<close> is an actor that still waits when the list ends. The
  connections of a responder are bounded by the inputs they consume.
\<close>

section \<open>The connection\<close>

record wsServerMsg =
  svType :: string
  svRequestID :: string
  svFragment :: string
  svClientSeq :: int
  svMessage :: string

datatype simInput = SimCtxDone | SimDeadline | SimClosed | SimElapsed | SimMsg wsServerMsg

datatype simSend = SendAvailable | SendSkip | SendFinish | SendFragment int string

text \<open>
  The inputs to come, the shared world, the sequence number, what has been sent, and the number of draws.
  \<open>writes\<close> says whether the \<open>i\<close>-th write succeeds, \<open>draw\<close> is the \<open>i\<close>-th random number below one and
  \<open>pick\<close> the \<open>i\<close>-th random integer.
\<close>

record simActor =
  acInputs :: "simInput list"
  acWorld :: simWorld
  acSeq :: int
  acSent :: "simSend list"
  acDraws :: nat

record simChance =
  writes :: "nat \<Rightarrow> bool"
  draw :: "nat \<Rightarrow> rat"
  pick :: "nat \<Rightarrow> nat"

definition sendMsg :: "simChance \<Rightarrow> simSend \<Rightarrow> simActor \<Rightarrow> simActor \<times> bool" where
  "sendMsg e m a = (a\<lparr>acSent := acSent a @ [m]\<rparr>, writes e (length (acSent a)))"

definition drawn :: "simActor \<Rightarrow> simActor" where
  "drawn a = a\<lparr>acDraws := Suc (acDraws a)\<rparr>"

definition inWorld :: "(simWorld \<Rightarrow> simWorld) \<Rightarrow> simActor \<Rightarrow> simActor" where
  "inWorld f a = a\<lparr>acWorld := f (acWorld a)\<rparr>"

text \<open>An input that is no branch of a \<open>select\<close> does not wake it.\<close>

fun awaitIn :: "string \<Rightarrow> simInput list \<Rightarrow> simActor \<Rightarrow> (simActor \<times> wsServerMsg option) option" where
  "awaitIn wanted [] a = None"
| "awaitIn wanted (SimCtxDone # ins) a = Some (a\<lparr>acInputs := ins\<rparr>, None)"
| "awaitIn wanted (SimClosed # ins) a = Some (a\<lparr>acInputs := ins\<rparr>, None)"
| "awaitIn wanted (SimMsg m # ins) a =
     (if svType m = wanted then Some (a\<lparr>acInputs := ins\<rparr>, Some m)
      else awaitIn wanted ins (if svType m = ''error'' then inWorld (countError (svMessage m)) a else a))"
| "awaitIn wanted (_ # ins) a = awaitIn wanted ins a"

definition await :: "string \<Rightarrow> simActor \<Rightarrow> (simActor \<times> wsServerMsg option) option" where
  "await wanted a = awaitIn wanted (acInputs a) a"

definition ackFragment :: "string \<Rightarrow> string \<Rightarrow> string \<Rightarrow> time \<Rightarrow> simWorld \<Rightarrow> simWorld" where
  "ackFragment session requestID fragment now w =
     w\<lparr>swAcked := mput requestID (mget0 (swAcked w) requestID @
         [\<lparr>fgSession = session, fgText = fragment, fgAt = now\<rparr>]) (swAcked w)\<rparr>"

definition seqMismatch :: "int \<Rightarrow> int \<Rightarrow> string" where
  "seqMismatch wanted got = ''ack seq mismatch want '' @ itoa wanted @ '' got '' @ itoa got"

text \<open>The result: acknowledged, and the connection alive.\<close>

fun awaitAckIn ::
  "time \<Rightarrow> string \<Rightarrow> string \<Rightarrow> int \<Rightarrow> simInput list \<Rightarrow> simActor \<Rightarrow> (simActor \<times> bool \<times> bool) option"
where
  "awaitAckIn now session requestID seq [] a = None"
| "awaitAckIn now session requestID seq (SimCtxDone # ins) a = Some (a\<lparr>acInputs := ins\<rparr>, False, False)"
| "awaitAckIn now session requestID seq (SimDeadline # ins) a =
     Some (inWorld (countError ''ack timeout'') a\<lparr>acInputs := ins\<rparr>, False, False)"
| "awaitAckIn now session requestID seq (SimClosed # ins) a = Some (a\<lparr>acInputs := ins\<rparr>, False, False)"
| "awaitAckIn now session requestID seq (SimElapsed # ins) a = awaitAckIn now session requestID seq ins a"
| "awaitAckIn now session requestID seq (SimMsg m # ins) a =
     (if svType m = ''fragment_ack'' then
        (let a1 = (if svClientSeq m \<noteq> seq then inWorld (countError (seqMismatch seq (svClientSeq m))) a else a)
         in Some (inWorld (ackFragment session requestID (svFragment m) now) a1\<lparr>acInputs := ins\<rparr>, True, True))
      else if svType m = ''error'' then
        Some (inWorld (countError (svMessage m)) a\<lparr>acInputs := ins\<rparr>, False, True)
      else awaitAckIn now session requestID seq ins a)"

definition awaitAck ::
  "time \<Rightarrow> string \<Rightarrow> string \<Rightarrow> int \<Rightarrow> simActor \<Rightarrow> (simActor \<times> bool \<times> bool) option"
where
  "awaitAck now session requestID seq a = awaitAckIn now session requestID seq (acInputs a) a"

text \<open>The pause between two fragments: over, or cut short by the context.\<close>

fun pauseIn :: "simInput list \<Rightarrow> simActor \<Rightarrow> (simActor \<times> bool) option" where
  "pauseIn [] a = None"
| "pauseIn (SimCtxDone # ins) a = Some (a\<lparr>acInputs := ins\<rparr>, False)"
| "pauseIn (SimElapsed # ins) a = Some (a\<lparr>acInputs := ins\<rparr>, True)"
| "pauseIn (SimDeadline # ins) a = pauseIn ins a"
| "pauseIn (SimClosed # ins) a = map_option (\<lambda>(b, x). (b\<lparr>acInputs := SimClosed # acInputs b\<rparr>, x)) (pauseIn ins a)"
| "pauseIn (SimMsg m # ins) a = map_option (\<lambda>(b, x). (b\<lparr>acInputs := SimMsg m # acInputs b\<rparr>, x)) (pauseIn ins a)"

section \<open>Answering\<close>

definition phrases :: "string list" where
  "phrases =
     [string_of_runes [0x8FD9, 0x9898, 0x6211, 0x719F, 0xFF0C],
      string_of_runes [0x8BA9, 0x6211, 0x6390, 0x6307, 0x4E00, 0x7B97, 0xFF0C],
      string_of_runes [0x6839, 0x636E, 0x4E0D, 0x5B58, 0x5728, 0x7684, 0x8BBA, 0x6587, 0xFF0C],
      string_of_runes [0x7B54, 0x6848, 0x663E, 0x7136, 0x662F],
      string_of_runes [0x518D, 0x8865, 0x5145, 0x4E00, 0x70B9, 0x7384, 0x5B66, 0xFF0C],
      string_of_runes [0x603B, 0x4E4B, 0x4FE1, 0x6211, 0x3002]]"

text \<open>\<open>%03d\<close> of a number that is not negative.\<close>

definition pad3 :: "int \<Rightarrow> string" where
  "pad3 n = replicate (3 - length (itoa n)) CHR ''0'' @ itoa n"

definition fragmentText :: "scenario \<Rightarrow> nat \<Rightarrow> string \<Rightarrow> int \<Rightarrow> string" where
  "fragmentText sc n requestID seq =
     (let tail = (if length requestID > 6 then drop (length requestID - 6) requestID else requestID) in
      if scSlowReaderMode sc
      then ''R'' @ tail @ ''#'' @ pad3 seq @ '':'' @ replicate 990 CHR ''x'' @ [CHR 0x0A]
      else ''R'' @ tail @ ''#'' @ itoa seq @ '':'' @ phrases ! (n mod length phrases))"

text \<open>The loop of \<open>typeAnswer\<close> with \<open>n\<close> fragments to go.\<close>

fun typeFragments ::
  "simChance \<Rightarrow> scenario \<Rightarrow> time \<Rightarrow> string \<Rightarrow> string \<Rightarrow> nat \<Rightarrow> simActor \<Rightarrow> (simActor \<times> bool) option"
where
  "typeFragments e sc now session requestID 0 a =
     (case sendMsg e SendFinish a of
        (a1, False) \<Rightarrow> Some (a1, False)
      | (a1, True) \<Rightarrow> map_option (\<lambda>(a2, m). (a2, m \<noteq> None)) (await ''finish_ack'' a1))"
| "typeFragments e sc now session requestID (Suc n) a =
     (let t = fragmentText sc (pick e (acDraws a)) requestID (acSeq a) in
      case sendMsg e (SendFragment (acSeq a) t) (drawn a) of
        (a1, False) \<Rightarrow> Some (a1, False)
      | (a1, True) \<Rightarrow>
          (case awaitAck now session requestID (acSeq a1) a1 of
             None \<Rightarrow> None
           | Some (a2, _, False) \<Rightarrow> Some (a2, False)
           | Some (a2, False, True) \<Rightarrow> Some (sendMsg e SendAvailable a2)
           | Some (a2, True, True) \<Rightarrow>
               (case pauseIn (acInputs a2) (a2\<lparr>acSeq := acSeq a2 + 1\<rparr>) of
                  None \<Rightarrow> None
                | Some (a3, False) \<Rightarrow> Some (a3, False)
                | Some (a3, True) \<Rightarrow> typeFragments e sc now session requestID n a3)))"

definition typeAnswer ::
  "simChance \<Rightarrow> scenario \<Rightarrow> time \<Rightarrow> string \<Rightarrow> string \<Rightarrow> simActor \<Rightarrow> (simActor \<times> bool) option"
where
  "typeAnswer e sc now session requestID a =
     typeFragments e sc now session requestID
       (if scSlowReaderMode sc then 120 else 1 + pick e (acDraws a) mod 5) (drawn a)"

text \<open>
  One assignment: whether the responder asks for another. \<open>dropAnswer\<close> is the branch that disconnects,
  half the time after a fragment.
\<close>

definition skipTask :: "simChance \<Rightarrow> simActor \<Rightarrow> (simActor \<times> bool) option" where
  "skipTask e a =
     (case sendMsg e SendSkip a of
        (a1, False) \<Rightarrow> Some (a1, False)
      | (a1, True) \<Rightarrow> map_option (\<lambda>(a2, m). (a2, m \<noteq> None)) (await ''skip_ack'' a1))"

definition dropAnswer ::
  "simChance \<Rightarrow> scenario \<Rightarrow> time \<Rightarrow> string \<Rightarrow> string \<Rightarrow> simActor \<Rightarrow> (simActor \<times> bool) option"
where
  "dropAnswer e sc now session requestID a =
     (if draw e (acDraws a) < 1 / 2 then
        let a0 = drawn a; t = fragmentText sc (pick e (acDraws a0)) requestID (acSeq a0) in
        case sendMsg e (SendFragment (acSeq a0) t) (drawn a0) of
          (a1, False) \<Rightarrow> Some (a1, False)
        | (a1, True) \<Rightarrow> map_option
            (\<lambda>(a2, acked, alive). (if acked \<and> alive then a2\<lparr>acSeq := acSeq a2 + 1\<rparr> else a2, False))
            (awaitAck now session requestID (acSeq a1) a1)
      else Some (drawn a, False))"

definition serveTask ::
  "simChance \<Rightarrow> scenario \<Rightarrow> time \<Rightarrow> string \<Rightarrow> string \<Rightarrow> simActor \<Rightarrow> (simActor \<times> bool) option"
where
  "serveTask e sc now session requestID a =
     (let roll = draw e (acDraws a); a0 = drawn a in
      if roll < scSkipProb sc then skipTask e a0
      else if roll < scSkipProb sc + scDropProb sc then dropAnswer e sc now session requestID a0
      else typeAnswer e sc now session requestID a0)"

fun serveLoop :: "simChance \<Rightarrow> scenario \<Rightarrow> time \<Rightarrow> string \<Rightarrow> nat \<Rightarrow> simActor \<Rightarrow> simActor option" where
  "serveLoop e sc now session 0 a = None"
| "serveLoop e sc now session (Suc rounds) a =
     (case await ''assigned'' a of
        None \<Rightarrow> None
      | Some (a1, None) \<Rightarrow> Some a1
      | Some (a1, Some m) \<Rightarrow>
          (case serveTask e sc now session (svRequestID m)
                  (inWorld (\<lambda>w. w\<lparr>swAssignments := swAssignments w + 1\<rparr>) a1) of
             None \<Rightarrow> None
           | Some (a2, False) \<Rightarrow> Some a2
           | Some (a2, True) \<Rightarrow>
               (let churns = scChurnProb sc > 0 \<and> draw e (acDraws a2) < scChurnProb sc;
                    a3 = (if scChurnProb sc > 0 then drawn a2 else a2)
                in if churns then Some a3
                   else case sendMsg e SendAvailable a3 of
                     (a4, False) \<Rightarrow> Some a4
                   | (a4, True) \<Rightarrow> serveLoop e sc now session rounds a4)))"

definition serveConnection ::
  "simChance \<Rightarrow> scenario \<Rightarrow> time \<Rightarrow> nat \<Rightarrow> nat \<Rightarrow> simActor \<Rightarrow> simActor option"
where
  "serveConnection e sc now idx rounds a =
     (case sendMsg e SendAvailable a of
        (a1, False) \<Rightarrow> Some a1
      | (a1, True) \<Rightarrow> serveLoop e sc now (''res'' @ itoa (int idx)) rounds (a1\<lparr>acSeq := 1\<rparr>))"

section \<open>What a responder leaves behind\<close>

text \<open>
  The acknowledged fragments of every answer only grow, by fragments of this responder: so the committers the
  checker sees are those of the connections, in the order of the acknowledgements.
\<close>

definition acksGrow :: "string \<Rightarrow> simActor \<Rightarrow> simActor \<Rightarrow> bool" where
  "acksGrow session a b \<longleftrightarrow> (\<forall>rid. \<exists>fs. mget0 (swAcked (acWorld b)) rid = mget0 (swAcked (acWorld a)) rid @ fs \<and>
     (\<forall>f \<in> set fs. fgSession f = session))"

lemma acksGrow_refl [simp]: "acksGrow session a a"
  by (simp add: acksGrow_def)

lemma acksGrow_same: "swAcked (acWorld b) = swAcked (acWorld a) \<Longrightarrow> acksGrow session a b"
  by (simp add: acksGrow_def)

lemma acksGrow_trans [trans]: "acksGrow session a b \<Longrightarrow> acksGrow session b c \<Longrightarrow> acksGrow session a c"
  unfolding acksGrow_def
proof (intro allI)
  fix rid
  assume ab: "\<forall>rid. \<exists>fs. mget0 (swAcked (acWorld b)) rid = mget0 (swAcked (acWorld a)) rid @ fs \<and> (\<forall>f \<in> set fs. fgSession f = session)"
    and bc: "\<forall>rid. \<exists>fs. mget0 (swAcked (acWorld c)) rid = mget0 (swAcked (acWorld b)) rid @ fs \<and> (\<forall>f \<in> set fs. fgSession f = session)"
  obtain fs where fs: "mget0 (swAcked (acWorld b)) rid = mget0 (swAcked (acWorld a)) rid @ fs" "\<forall>f \<in> set fs. fgSession f = session"
    using ab by blast
  obtain gs where gs: "mget0 (swAcked (acWorld c)) rid = mget0 (swAcked (acWorld b)) rid @ gs" "\<forall>f \<in> set gs. fgSession f = session"
    using bc by blast
  show "\<exists>fs. mget0 (swAcked (acWorld c)) rid = mget0 (swAcked (acWorld a)) rid @ fs \<and> (\<forall>f \<in> set fs. fgSession f = session)"
    by (rule exI[of _ "fs @ gs"]) (use fs gs in auto)
qed

lemma acked_unchanged [simp]:
  "swAcked (acWorld (fst (sendMsg e m a))) = swAcked (acWorld a)" "swAcked (acWorld (drawn a)) = swAcked (acWorld a)"
  "swAcked (acWorld (inWorld (countError msg) a)) = swAcked (acWorld a)"
  by (simp_all add: sendMsg_def drawn_def inWorld_def countError_def)

lemma sendMsg_acked: "sendMsg e m a = (b, x) \<Longrightarrow> swAcked (acWorld b) = swAcked (acWorld a)"
  using acked_unchanged(1)[of e m a] by simp

lemma await_acked: "await wanted a = Some (b, m) \<Longrightarrow> swAcked (acWorld b) = swAcked (acWorld a)"
proof -
  have "awaitIn wanted ins a = Some (b, m) \<Longrightarrow> swAcked (acWorld b) = swAcked (acWorld a)" for ins a
    by (induction wanted ins a rule: awaitIn.induct) (auto split: if_splits)
  then show "await wanted a = Some (b, m) \<Longrightarrow> swAcked (acWorld b) = swAcked (acWorld a)" by (simp add: await_def)
qed

lemma pauseIn_acked: "pauseIn ins a = Some (b, x) \<Longrightarrow> swAcked (acWorld b) = swAcked (acWorld a)"
  by (induction ins a arbitrary: b rule: pauseIn.induct) auto

lemma ackFragment_grows: "acksGrow session a (inWorld (ackFragment session rid t now) a)"
  by (auto simp: acksGrow_def inWorld_def ackFragment_def mget0_def mget_def mput_def update_conv')

lemma awaitAck_grows: "awaitAck now session rid seq a = Some (b, x) \<Longrightarrow> acksGrow session a b"
proof -
  have "awaitAckIn now session rid seq ins a = Some (b, x) \<Longrightarrow> acksGrow session a b" for ins a
  proof (induction now session rid seq ins a rule: awaitAckIn.induct)
    case (6 now session rid seq m ins a)
    have "acksGrow session a (inWorld (ackFragment session rid (svFragment m) now) a1\<lparr>acInputs := ins\<rparr>)"
      if "swAcked (acWorld a1) = swAcked (acWorld a)" for a1
      using ackFragment_grows[of session a1 rid "svFragment m" now] that by (simp add: acksGrow_def)
    then show ?case using 6 by (auto simp: Let_def acksGrow_same split: if_splits)
  qed (auto simp: acksGrow_same)
  then show "awaitAck now session rid seq a = Some (b, x) \<Longrightarrow> acksGrow session a b" by (simp add: awaitAck_def)
qed

lemma typeFragments_grows: "typeFragments e sc now session rid n a = Some (b, x) \<Longrightarrow> acksGrow session a b"
proof (induction n arbitrary: a)
  case 0
  then show ?case by (auto intro!: acksGrow_same simp: sendMsg_def dest!: await_acked split: prod.splits bool.splits)
next
  case (Suc n)
  obtain a1 sent where s: "sendMsg e (SendFragment (acSeq a) (fragmentText sc (pick e (acDraws a)) rid (acSeq a))) (drawn a) = (a1, sent)"
    by fastforce
  have g1: "acksGrow session a a1" using sendMsg_acked[OF s] by (simp add: acksGrow_same)
  show ?case
  proof (cases sent)
    case True
    then obtain a2 acked alive where k: "awaitAck now session rid (acSeq a1) a1 = Some (a2, acked, alive)"
      using Suc.prems s by (auto simp: Let_def split: option.splits)
    have g2: "acksGrow session a a2" using g1 awaitAck_grows[OF k] acksGrow_trans by blast
    show ?thesis
    proof (cases "alive \<and> acked")
      case True
      then obtain a3 go where p: "pauseIn (acInputs a2) (a2\<lparr>acSeq := acSeq a2 + 1\<rparr>) = Some (a3, go)"
        using Suc.prems s k \<open>sent\<close> by (auto simp: Let_def split: option.splits)
      have "swAcked (acWorld a3) = swAcked (acWorld a2)" using pauseIn_acked[OF p] by simp
      then have g3: "acksGrow session a a3" using g2 by (simp add: acksGrow_def)
      show ?thesis using Suc.prems Suc.IH[of a3] s k p g3 True \<open>sent\<close> acksGrow_trans
        by (cases go) (auto simp: Let_def)
    next
      case False
      then show ?thesis using Suc.prems s k g2 \<open>sent\<close> sendMsg_acked[of e SendAvailable a2]
        by (cases alive; cases acked) (auto simp: Let_def acksGrow_def)
    qed
  qed (use Suc.prems s g1 in \<open>auto simp: Let_def\<close>)
qed

lemma serveTask_grows: "serveTask e sc now session rid a = Some (b, x) \<Longrightarrow> acksGrow session a b"
proof -
  assume t: "serveTask e sc now session rid a = Some (b, x)"
  have start: "acksGrow session (drawn a) b \<Longrightarrow> acksGrow session a b" by (simp add: acksGrow_def)
  have skip: "skipTask e a0 = Some (b, x) \<Longrightarrow> acksGrow session a0 b" for a0
    by (auto simp: skipTask_def acksGrow_same dest!: sendMsg_acked await_acked split: prod.splits bool.splits)
  have "dropAnswer e sc now session rid a0 = Some (b, x) \<Longrightarrow> acksGrow session a0 b" for a0
    by (auto simp: dropAnswer_def Let_def acksGrow_def split: if_splits prod.splits bool.splits
        dest!: sendMsg_acked awaitAck_grows)
  moreover have "typeAnswer e sc now session rid a0 = Some (b, x) \<Longrightarrow> acksGrow session a0 b" for a0
    using typeFragments_grows[of e sc now session rid _ "drawn a0" b x] by (auto simp: typeAnswer_def acksGrow_def)
  ultimately show ?thesis using t start skip by (auto simp: serveTask_def Let_def split: if_splits)
qed

lemma serveLoop_grows: "serveLoop e sc now session rounds a = Some b \<Longrightarrow> acksGrow session a b"
proof (induction rounds arbitrary: a)
  case (Suc rounds)
  then obtain a1 m where w: "await ''assigned'' a = Some (a1, m)" by (auto split: option.splits)
  have g1: "acksGrow session a a1" using await_acked[OF w] by (simp add: acksGrow_same)
  show ?case
  proof (cases m)
    case None
    then show ?thesis using Suc.prems w g1 by simp
  next
    case (Some msg)
    let ?a2 = "inWorld (\<lambda>w. w\<lparr>swAssignments := swAssignments w + 1\<rparr>) a1"
    have g2: "acksGrow session a ?a2" using g1 by (simp add: acksGrow_def inWorld_def)
    obtain a3 go where t: "serveTask e sc now session (svRequestID msg) ?a2 = Some (a3, go)"
      using Suc.prems w Some by (auto split: option.splits)
    have g3: "acksGrow session a a3" using g2 serveTask_grows[OF t] acksGrow_trans by blast
    have g4: "acksGrow session a (if scChurnProb sc > 0 then drawn a3 else a3)" using g3 by (simp add: acksGrow_def)
    show ?thesis
    proof (cases "go \<and> \<not> (scChurnProb sc > 0 \<and> draw e (acDraws a3) < scChurnProb sc)")
      case True
      obtain a5 sent where s: "sendMsg e SendAvailable (if scChurnProb sc > 0 then drawn a3 else a3) = (a5, sent)" by fastforce
      have g5: "acksGrow session a a5" using g4 sendMsg_acked[OF s] by (simp add: acksGrow_def)
      show ?thesis using Suc.prems Suc.IH[of a5] w Some t True s g5 acksGrow_trans
        by (cases sent) (auto simp: Let_def split: if_splits)
    next
      case False
      then show ?thesis using Suc.prems w Some t g3 g4 by (cases go) (auto simp: Let_def split: if_splits)
    qed
  qed
qed simp

theorem connection_acks:
  assumes "serveConnection e sc now idx rounds a = Some b"
  shows "\<exists>fs. mget0 (swAcked (acWorld b)) rid = mget0 (swAcked (acWorld a)) rid @ fs \<and>
    (\<forall>f \<in> set fs. fgSession f = ''res'' @ itoa (int idx))"
proof -
  obtain a1 sent where s: "sendMsg e SendAvailable a = (a1, sent)" by fastforce
  have "acksGrow (''res'' @ itoa (int idx)) a b"
    using assms s serveLoop_grows[of e sc now "''res'' @ itoa (int idx)" rounds "a1\<lparr>acSeq := 1\<rparr>" b] sendMsg_acked[OF s]
    by (cases sent) (auto simp: serveConnection_def acksGrow_def)
  then show ?thesis unfolding acksGrow_def by blast
qed

end
