(* ===== verification/SimCheck.thy ===== *)
theory SimCheck
  imports SimActors
begin

text \<open>
  The checker of the load simulator (\<open>cmd/simload/invariants.go\<close>) and the exit code of its \<open>main\<close>.
  A violation and a probe are kept as what their texts print.
\<close>

section \<open>The report\<close>

type_synonym mismatch = "nat \<times> nat \<times> nat"

datatype violation =
  TransportViolation string string
| NoRequestID string
| FallbackEmpty string
| FallbackPacing int string
| UnackedContent string
| ContentMismatch string mismatch
| StalledAnswer string
| InterleavedCommitters string "string list"

datatype probe = SlowReaderDrop string mismatch | NoDropsObserved

record report =
  rpScenario :: string
  rpRequests :: nat
  rpCompleted :: nat
  rpCancelled :: nat
  rpStalled :: "string list"
  rpMismatches :: "string list"
  rpOverlaps :: "string list"
  rpViolations :: "violation list"
  rpProbes :: "probe list"
  rpFirstDelta :: "duration list"
  rpMaxGap :: duration
  rpAckErrors :: "(string, int) gomap"
  rpAssignments :: int

definition newReport :: "scenario \<Rightarrow> simWorld \<Rightarrow> report" where
  "newReport sc w =
     \<lparr>rpScenario = scName sc, rpRequests = 0, rpCompleted = 0, rpCancelled = 0, rpStalled = [],
      rpMismatches = [], rpOverlaps = [], rpViolations = [], rpProbes = [], rpFirstDelta = [], rpMaxGap = 0,
      rpAckErrors = swAckErrors w, rpAssignments = swAssignments w\<rparr>"

definition violated :: "violation \<Rightarrow> report \<Rightarrow> report" where
  "violated v r = r\<lparr>rpViolations := rpViolations r @ [v]\<rparr>"

definition probed :: "probe \<Rightarrow> report \<Rightarrow> report" where
  "probed p r = r\<lparr>rpProbes := rpProbes r @ [p]\<rparr>"

section \<open>Texts\<close>

definition joinAcked :: "ackedFrag list \<Rightarrow> string" where
  "joinAcked frags = concat (map fgText frags)"

fun firstDivergence :: "string \<Rightarrow> string \<Rightarrow> nat" where
  "firstDivergence (a # as) (b # bs) = (if a = b then Suc (firstDivergence as bs) else 0)"
| "firstDivergence _ _ = 0"

definition describeMismatch :: "string \<Rightarrow> string \<Rightarrow> mismatch" where
  "describeMismatch expected got =
     (RuneCountInString expected, RuneCountInString got, firstDivergence expected got)"

section \<open>One answer\<close>

definition checkFallback :: "requesterResult \<Rightarrow> report \<Rightarrow> report" where
  "checkFallback res r =
     (let r1 = (if rqContent res = [] then violated (FallbackEmpty (rqQuestion res)) r else r)
      in case find (\<lambda>n. n > 5) (rqDeltaRunes res) of
           None \<Rightarrow> r1 | Some n \<Rightarrow> violated (FallbackPacing n (rqID res)) r1)"

definition checkContent :: "scenario \<Rightarrow> simWorld \<Rightarrow> requesterResult \<Rightarrow> report \<Rightarrow> report" where
  "checkContent sc w res r =
     (let expected = joinAcked (mget0 (swAcked w) (rqID res)) in
      if expected = [] \<and> rqContent res \<noteq> [] then violated (UnackedContent (rqID res)) r
      else if rqContent res \<noteq> expected then
        (let detail = describeMismatch expected (rqContent res) in
         if scSlowReaderMode sc then probed (SlowReaderDrop (rqID res) detail) r
         else violated (ContentMismatch (rqID res) detail) (r\<lparr>rpMismatches := rpMismatches r @ [rqID res]\<rparr>))
      else if scSlowReaderMode sc then probed NoDropsObserved r
      else r)"

definition checkCompleted :: "scenario \<Rightarrow> simWorld \<Rightarrow> requesterResult \<Rightarrow> report \<Rightarrow> report" where
  "checkCompleted sc w res r0 =
     (let r1 = r0\<lparr>rpCompleted := rpCompleted r0 + 1\<rparr>;
          r2 = (if \<not> rqBlocking res \<and> \<not> is_zero_time (rqFirst res)
                then r1\<lparr>rpFirstDelta := rpFirstDelta r1 @ [time_sub (rqFirst res) (rqCreated res)]\<rparr> else r1);
          r3 = (if rqMaxGap res > rpMaxGap r2 then r2\<lparr>rpMaxGap := rqMaxGap res\<rparr> else r2)
      in if rqID res = [] then violated (NoRequestID (rqQuestion res)) r3
         else if scUseFallback sc then checkFallback res r3
         else checkContent sc w res r3)"

definition checkResult :: "scenario \<Rightarrow> simWorld \<Rightarrow> requesterResult \<Rightarrow> report \<Rightarrow> report" where
  "checkResult sc w res r0 =
     (let r = r0\<lparr>rpRequests := rpRequests r0 + 1\<rparr> in
      if rqCancelled res then r\<lparr>rpCancelled := rpCancelled r + 1\<rparr>
      else if rqStalled res then r\<lparr>rpStalled := rpStalled r @ [rqQuestion res]\<rparr>
      else if \<not> rqDone res then
        (if rqErr res \<noteq> [] then violated (TransportViolation (rqQuestion res) (rqErr res)) r else r)
      else checkCompleted sc w res r)"

section \<open>The committers of an answer\<close>

fun committers :: "ackedFrag list \<Rightarrow> string list \<Rightarrow> string list" where
  "committers [] order = order"
| "committers (f # fs) order =
     committers fs (if order = [] \<or> last order \<noteq> fgSession f then order @ [fgSession f] else order)"

text \<open>The scan of the order: \<open>seen\<close> holds the sessions before the previous one.\<close>

fun interleaved :: "string list \<Rightarrow> string option \<Rightarrow> string list \<Rightarrow> bool" where
  "interleaved seen prev [] = False"
| "interleaved seen prev (s # ss) =
     (s \<in> set seen \<or> interleaved (case prev of None \<Rightarrow> seen | Some p \<Rightarrow> p # seen) (Some s) ss)"

definition checkCommitters :: "string \<times> ackedFrag list \<Rightarrow> report \<Rightarrow> report" where
  "checkCommitters e r =
     (let order = committers (snd e) [] in
      if interleaved [] None order
      then violated (InterleavedCommitters (fst e) order) (r\<lparr>rpOverlaps := rpOverlaps r @ [fst e]\<rparr>)
      else r)"

definition check :: "scenario \<Rightarrow> simWorld \<Rightarrow> report" where
  "check sc w =
     (let r1 = fold (checkResult sc w) (swResults w) (newReport sc w);
          r2 = fold (\<lambda>question. violated (StalledAnswer question)) (rpStalled r1) r1
      in fold checkCommitters (swAcked w) r2)"

section \<open>The exit code\<close>

fun splitComma :: "string \<Rightarrow> string list" where
  "splitComma [] = [[]]"
| "splitComma (c # cs) =
     (if c = CHR '','' then [] # splitComma cs
      else case splitComma cs of [] \<Rightarrow> [[c]] | p # ps \<Rightarrow> (c # p) # ps)"

definition scenarioKeys :: "string \<Rightarrow> string list" where
  "scenarioKeys which = (if which \<noteq> ''all'' then splitComma which else [''a'', ''b'', ''c'', ''d'', ''e'', ''f''])"

text \<open>\<open>run\<close> gives the observations of a scenario, \<open>override\<close> the duration flag.\<close>

fun runScenarios ::
  "(scenario \<Rightarrow> simWorld) \<Rightarrow> duration \<Rightarrow> string list \<Rightarrow> report list \<Rightarrow> int \<times> report list"
where
  "runScenarios run override [] reports =
     (if sum_list (map (length \<circ> rpViolations) reports) > 0 then 1 else 0, reports)"
| "runScenarios run override (k # ks) reports =
     (case map_of scenarios (TrimSpace k) of
        None \<Rightarrow> (2, reports)
      | Some sc0 \<Rightarrow>
          let sc = (if override > 0 then sc0\<lparr>scDuration := override\<rparr> else sc0)
          in runScenarios run override ks (reports @ [check sc (run sc)]))"

definition simloadMain :: "(scenario \<Rightarrow> simWorld) \<Rightarrow> string \<Rightarrow> duration \<Rightarrow> int \<times> report list" where
  "simloadMain run which override = runScenarios run override (scenarioKeys which) []"

section \<open>What the checker finds\<close>

lemma report_sel [simp]:
  "rpViolations (violated v r) = rpViolations r @ [v]" "rpStalled (violated v r) = rpStalled r"
  "rpViolations (probed p r) = rpViolations r" "rpStalled (probed p r) = rpStalled r"
  by (simp_all add: violated_def probed_def)

text \<open>What is wrong with an answer, as far as its content goes.\<close>

definition contentOK :: "simWorld \<Rightarrow> requesterResult \<Rightarrow> bool" where
  "contentOK w res \<longleftrightarrow>
     (if rqDone res then rqID res \<noteq> [] \<and> rqContent res = joinAcked (mget0 (swAcked w) (rqID res))
      else rqErr res = [])"

lemma checkContent_ok:
  "\<not> scSlowReaderMode sc \<Longrightarrow> rpViolations (checkContent sc w res r) = [] \<longleftrightarrow>
     rpViolations r = [] \<and> rqContent res = joinAcked (mget0 (swAcked w) (rqID res))"
  by (auto simp: checkContent_def Let_def)

lemma checkContent_stalled [simp]: "rpStalled (checkContent sc w res r) = rpStalled r"
  by (simp add: checkContent_def Let_def)

lemma checkResult_ok:
  assumes "\<not> scUseFallback sc" "\<not> scSlowReaderMode sc"
  shows "rpViolations (checkResult sc w res r) = [] \<longleftrightarrow>
      rpViolations r = [] \<and> (rqCancelled res \<or> rqStalled res \<or> contentOK w res)"
    and "rpStalled (checkResult sc w res r) =
      rpStalled r @ (if \<not> rqCancelled res \<and> rqStalled res then [rqQuestion res] else [])"
  using assms by (auto simp: checkResult_def checkCompleted_def contentOK_def Let_def checkContent_ok)

lemma fold_checkResult:
  assumes "\<not> scUseFallback sc" "\<not> scSlowReaderMode sc"
  shows "rpViolations (fold (checkResult sc w) results r) = [] \<longleftrightarrow>
      rpViolations r = [] \<and> (\<forall>res \<in> set results. rqCancelled res \<or> rqStalled res \<or> contentOK w res)"
    and "rpStalled (fold (checkResult sc w) results r) = [] \<longleftrightarrow>
      rpStalled r = [] \<and> (\<forall>res \<in> set results. rqCancelled res \<or> \<not> rqStalled res)"
  by (induction results arbitrary: r) (auto simp: checkResult_ok[OF assms])

lemma fold_violated: "rpViolations (fold (\<lambda>q. violated (StalledAnswer q)) qs r) = rpViolations r @ map StalledAnswer qs"
  by (induction qs arbitrary: r) auto

text \<open>The order of the committers is the list of sessions without repetitions in a row.\<close>

lemma committers_adj:
  "committers fs order = (case map fgSession fs of [] \<Rightarrow> order | s # ss \<Rightarrow>
     (if order \<noteq> [] \<and> last order = s then butlast order @ remdups_adj (s # ss) else order @ remdups_adj (s # ss)))"
proof (induction fs arbitrary: order)
  case (Cons f fs)
  show ?case
  proof (cases "order \<noteq> [] \<and> last order = fgSession f")
    case True
    then have "butlast order @ [fgSession f] = order" using append_butlast_last_id by metis
    then show ?thesis using Cons.IH[of order] True
      by (cases fs) (auto simp flip: append_assoc split: list.splits)
  next
    case False
    then show ?thesis using Cons.IH[of "order @ [fgSession f]"] by (cases fs) auto
  qed
qed simp

lemma committers_order: "committers fs [] = remdups_adj (map fgSession fs)"
  by (simp add: committers_adj split: list.split)

lemma interleaved_after:
  "distinct_adj (p # ss) \<Longrightarrow> interleaved seen (Some p) ss \<longleftrightarrow> set seen \<inter> set ss \<noteq> {} \<or> \<not> distinct (p # ss)"
  by (induction ss arbitrary: p seen) auto

lemma interleaved_distinct: "interleaved [] None (committers fs []) \<longleftrightarrow> \<not> distinct (remdups_adj (map fgSession fs))"
proof (cases "remdups_adj (map fgSession fs)")
  case (Cons s ss)
  then have "distinct_adj (s # ss)" by (metis distinct_adj_remdups_adj)
  then show ?thesis using Cons by (simp add: committers_order interleaved_after)
qed (simp add: committers_order)

text \<open>No session commits again after another one has.\<close>

definition contiguous :: "'a list \<Rightarrow> bool" where
  "contiguous ss \<longleftrightarrow> (\<forall>i j k. i < j \<and> j < k \<and> k < length ss \<and> ss ! i = ss ! k \<longrightarrow> ss ! j = ss ! i)"

lemma contiguous_tail: "contiguous (x # ss) \<Longrightarrow> contiguous ss"
  unfolding contiguous_def by (metis Suc_mono length_Cons nth_Cons_Suc)

lemma contiguous_same: "contiguous (x # x # ss) \<longleftrightarrow> contiguous (x # ss)"
proof
  assume c: "contiguous (x # ss)"
  show "contiguous (x # x # ss)"
    unfolding contiguous_def
  proof (intro allI impI)
    fix i j k assume a: "i < j \<and> j < k \<and> k < length (x # x # ss) \<and> (x # x # ss) ! i = (x # x # ss) ! k"
    have n: "(x # x # ss) ! m = (x # ss) ! (m - 1)" for m by (cases m) auto
    show "(x # x # ss) ! j = (x # x # ss) ! i"
    proof (cases "i - 1 < j - 1")
      case True
      moreover have "j - 1 < k - 1" "k - 1 < length (x # ss)" using a by auto
      moreover have "(x # ss) ! (i - 1) = (x # ss) ! (k - 1)" using a by (simp add: n)
      ultimately show ?thesis using c unfolding contiguous_def n by blast
    next
      case False
      then have "i - 1 = j - 1" using a by auto
      then show ?thesis by (simp add: n)
    qed
  qed
qed (rule contiguous_tail)

lemma contiguous_other:
  assumes "x \<noteq> y"
  shows "contiguous (x # y # ss) \<longleftrightarrow> x \<notin> set (y # ss) \<and> contiguous (y # ss)"
proof
  assume c: "contiguous (x # y # ss)"
  have "x \<notin> set ss"
  proof
    assume "x \<in> set ss"
    then obtain k where "k < length ss" "ss ! k = x" by (auto simp: in_set_conv_nth)
    then have "(x # y # ss) ! 1 = (x # y # ss) ! 0"
      using c[unfolded contiguous_def, rule_format, of 0 1 "Suc (Suc k)"] by simp
    then show False using assms by simp
  qed
  then show "x \<notin> set (y # ss) \<and> contiguous (y # ss)" using assms contiguous_tail[OF c] by simp
next
  assume c: "x \<notin> set (y # ss) \<and> contiguous (y # ss)"
  show "contiguous (x # y # ss)"
    unfolding contiguous_def
  proof (intro allI impI)
    fix i j k assume a: "i < j \<and> j < k \<and> k < length (x # y # ss) \<and> (x # y # ss) ! i = (x # y # ss) ! k"
    then obtain j' k' where jk: "j = Suc j'" "k = Suc k'" "k' < length (y # ss)" "j' < k'" by (cases j; cases k) auto
    show "(x # y # ss) ! j = (x # y # ss) ! i"
    proof (cases i)
      case 0
      then have "(y # ss) ! k' = x" using a jk by simp
      then have "x \<in> set (y # ss)" using nth_mem[OF jk(3)] by simp
      then show ?thesis using c by simp
    next
      case (Suc i')
      then show ?thesis using c a jk unfolding contiguous_def by (metis Suc_less_eq nth_Cons_Suc)
    qed
  qed
qed

lemma contiguous_iff: "contiguous ss \<longleftrightarrow> distinct (remdups_adj ss)"
proof (induction ss rule: remdups_adj.induct)
  case (3 x y ss)
  then show ?case
    by (cases "x = y") (simp_all add: contiguous_same contiguous_other del: set_simps)
qed (simp_all add: contiguous_def)

lemma fold_checkCommitters:
  "rpViolations (fold checkCommitters acked r) = [] \<longleftrightarrow>
     rpViolations r = [] \<and> (\<forall>(rid, frags) \<in> set acked. contiguous (map fgSession frags))"
  by (induction acked arbitrary: r) (auto simp: checkCommitters_def Let_def interleaved_distinct contiguous_iff)

text \<open>
  C38: The checker is exact. In a scenario without the fallback and without the stalled reader it reports
  no violation exactly if no client that stayed was left without its answer, every answer that was
  completed has an id and is the concatenation of the fragments its responders had acknowledged, no
  other answer failed in transport, and of no answer did a responder commit again after another one had.
\<close>

theorem checker_exact:
  assumes "\<not> scUseFallback sc" and "\<not> scSlowReaderMode sc"
  shows "rpViolations (check sc w) = [] \<longleftrightarrow>
    (\<forall>res \<in> set (swResults w). rqCancelled res \<or> \<not> rqStalled res \<and>
       (if rqDone res then rqID res \<noteq> [] \<and> rqContent res = joinAcked (mget0 (swAcked w) (rqID res)) else rqErr res = [])) \<and>
    (\<forall>(rid, frags) \<in> set (swAcked w). \<forall>i j k. i < j \<and> j < k \<and> k < length frags \<and>
       fgSession (frags ! i) = fgSession (frags ! k) \<longrightarrow> fgSession (frags ! j) = fgSession (frags ! i))"
proof -
  have c: "contiguous (map fgSession frags) \<longleftrightarrow> (\<forall>i j k. i < j \<and> j < k \<and> k < length frags \<and>
      fgSession (frags ! i) = fgSession (frags ! k) \<longrightarrow> fgSession (frags ! j) = fgSession (frags ! i))" for frags
    by (simp add: contiguous_def cong: conj_cong)
  have "rpViolations (check sc w) = [] \<longleftrightarrow>
      (\<forall>res \<in> set (swResults w). rqCancelled res \<or> \<not> rqStalled res \<and> contentOK w res) \<and>
      (\<forall>(rid, frags) \<in> set (swAcked w). contiguous (map fgSession frags))"
    unfolding check_def Let_def fold_checkCommitters fold_violated append_is_Nil_conv map_is_Nil_conv fold_checkResult[OF assms]
    by (simp add: newReport_def) blast
  then show ?thesis unfolding contentOK_def c .
qed

text \<open>A run that found one interleaved answer.\<close>

definition demoFrag :: "string \<Rightarrow> string \<Rightarrow> ackedFrag" where
  "demoFrag session t = \<lparr>fgSession = session, fgText = t, fgAt = 1\<rparr>"

definition demoRun :: simWorld where
  "demoRun = newWorld\<lparr>swAcked := [(''q'', [demoFrag ''res0'' ''a'', demoFrag ''res1'' ''b'', demoFrag ''res0'' ''c''])]\<rparr>"

theorem checker_exact_witness:
  "rpViolations (check (plainScenario ''a'' 1 2 30) demoRun) \<noteq> [] \<and>
   rpViolations (check (plainScenario ''a'' 1 2 30) newWorld) = []"
proof -
  have p: "\<not> scUseFallback (plainScenario ''a'' 1 2 30)" "\<not> scSlowReaderMode (plainScenario ''a'' 1 2 30)"
    by (simp_all add: plainScenario_def)
  have "rpViolations (check (plainScenario ''a'' 1 2 30) newWorld) = []"
    unfolding checker_exact[OF p] by (simp add: newWorld_def)
  moreover have "rpViolations (check (plainScenario ''a'' 1 2 30) demoRun) \<noteq> []"
  proof
    assume "rpViolations (check (plainScenario ''a'' 1 2 30) demoRun) = []"
    then have "\<forall>(rid, frags) \<in> set (swAcked demoRun). \<forall>i j k. i < j \<and> j < k \<and> k < length frags \<and>
       fgSession (frags ! i) = fgSession (frags ! k) \<longrightarrow> fgSession (frags ! j) = fgSession (frags ! i)"
      unfolding checker_exact[OF p] by (rule conjunct2)
    from bspec[OF this, of "(''q'', [demoFrag ''res0'' ''a'', demoFrag ''res1'' ''b'', demoFrag ''res0'' ''c''])"]
    have "''res1'' = ''res0''"
      by (simp add: demoRun_def demoFrag_def) (drule spec[of _ 0], drule spec[of _ 1], drule spec[of _ 2], simp)
    then show False by simp
  qed
  ultimately show ?thesis by simp
qed

end
