(* ===== verification/SimStream.thy ===== *)
theory SimStream
  imports Simload
begin

text \<open>
  From the server to the client: the bytes \<open>streamChatCompletion\<close> writes (\<open>writeSSEData\<close> in
  \<open>internal/httpapi/openai.go\<close>) are what the client of the simulator reads. \<open>render\<close> is
  \<open>json.Marshal\<close> of a chunk and \<open>parse\<close> the parser; the document a chunk stands for is written out.
\<close>

section \<open>The document of a chunk\<close>

text \<open>\<open>encoding/json\<close> writes the replacement character for what is not UTF-8.\<close>

definition jsonText :: "string \<Rightarrow> string" where
  "jsonText t = string_of_runes (runes t)"

fun finishText :: "FinishReason \<Rightarrow> string" where
  "finishText FinishUnset = []"
| "finishText FinishStop = ''stop''"
| "finishText FinishLength = ''length''"
| "finishText FinishPartial = ''partial''"

definition messageJSON :: "Message \<Rightarrow> json" where
  "messageJSON m = JObject [(''role'', JString (jsonText (Role m))), (''content'', JString (jsonText (Content m)))]"

definition choiceJSON :: "chatCompletionChoice \<Rightarrow> json" where
  "choiceJSON ch = JObject
     ([(''index'', JNumber (itoa (ChIndex ch)))]
      @ (case ChMessage ch of None \<Rightarrow> [] | Some m \<Rightarrow> [(''message'', messageJSON m)])
      @ (if ChDelta ch = [] then [] else [(''delta'', JObject (map (\<lambda>(k, t). (k, JString (jsonText t))) (ChDelta ch)))])
      @ [(''finish_reason'', case ChFinish ch of None \<Rightarrow> JNull | Some reason \<Rightarrow> JString (finishText reason))])"

definition chunkJSON :: "chatCompletionResponse \<Rightarrow> json" where
  "chunkJSON c = JObject
     ([(''id'', JString (jsonText (RspID c))), (''object'', JString (jsonText (RspObject c))),
       (''created'', JNumber (itoa (RspCreated c))), (''model'', JString (jsonText (RspModel c))),
       (''choices'', JArray (map choiceJSON (RspChoices c)))]
      @ (if RspResponderKind c = [] then [] else [(''responder_kind'', JString (jsonText (RspResponderKind c)))]))"

text \<open>The lines of what the handler writes, as the scanner of a client delivers them.\<close>

fun writeSSEData :: "(chatCompletionResponse \<Rightarrow> string) \<Rightarrow> sse \<Rightarrow> simEvent list" where
  "writeSSEData render (Comment c) = [Line c, Line []]"
| "writeSSEData render (Chunk c) = [Line (''data: '' @ render c), Line []]"
| "writeSSEData render DoneMark = [Line ''data: [DONE]'', Line []]"

text \<open>
  What is relied on for a chunk: its text is an object on one line without space around it, and parses to
  its document.
\<close>

definition framed :: "(string \<Rightarrow> json option) \<Rightarrow> (chatCompletionResponse \<Rightarrow> string) \<Rightarrow> chatCompletionResponse \<Rightarrow> bool" where
  "framed parse render c \<longleftrightarrow>
     TrimSpace (''data: '' @ render c) = ''data: '' @ render c \<and> TrimSpace ('' '' @ render c) = render c \<and>
     render c \<noteq> ''[DONE]'' \<and> parse (render c) = Some (chunkJSON c)"

section \<open>What the server writes\<close>

definition contentChunk :: "Request \<Rightarrow> string \<Rightarrow> chatCompletionResponse \<Rightarrow> bool" where
  "contentChunk req t c \<longleftrightarrow> (\<exists>now kind. c = (streamChunk now req [(''content'', t)] None)\<lparr>RspResponderKind := kind\<rparr>)"

definition lastChunk :: "Request \<Rightarrow> FinishReason \<Rightarrow> chatCompletionResponse \<Rightarrow> bool" where
  "lastChunk req reason c \<longleftrightarrow> (\<exists>now kind. c = (streamChunk now req [] (Some reason))\<lparr>RspResponderKind := kind\<rparr>)"

definition partOf :: "Request \<Rightarrow> sse \<Rightarrow> bool" where
  "partOf req e \<longleftrightarrow> e = Comment '': waiting'' \<or> (\<exists>t c. e = Chunk c \<and> contentChunk req t c)"

definition whole :: "Request \<Rightarrow> sse list \<Rightarrow> bool" where
  "whole req out \<longleftrightarrow> (\<exists>front c reason. out = front @ [Chunk c, DoneMark] \<and> list_all (partOf req) front \<and> lastChunk req reason c)"

lemma stampKind_kind: "\<exists>kind. stampKind rid s c = c\<lparr>RspResponderKind := kind\<rparr>"
proof (cases "RequestSnapshot rid s")
  case (Inl e)
  then have "stampKind rid s c = c\<lparr>RspResponderKind := RspResponderKind c\<rparr>" by (simp add: stampKind_def)
  then show ?thesis by blast
next
  case (Inr p)
  then show ?thesis by (cases p) (auto simp: stampKind_def)
qed

lemma left_reply: "leaveStream w i rid ch s rep = Returned (s', rep') \<Longrightarrow> rep' = rep"
  by (auto simp: leaveStream_def split: option.splits)

lemma streamLoop_out:
  assumes "streamLoop w req convID token ch wakes i out0 s = Returned (s', EventStream out)"
    and "list_all (partOf req) out0"
  shows "list_all (partOf req) out \<or> whole req out"
  using assms
proof (induction w req convID token ch wakes i out0 s rule: streamLoop.induct)
  case (2 w req convID token ch wakes i out0 s)
  then show ?case by (auto split: option.splits dest!: left_reply)
next
  case (3 w req convID token ch wakes i out0 s)
  then show ?case by (simp add: partOf_def)
next
  case (4 w req convID token ch wakes i out0 s)
  obtain s1 x where x: "recvEvent ch (ext w i s) = (s1, x)" by (cases "recvEvent ch (ext w i s)")
  show ?case
  proof (cases x)
    case Blocked
    then show ?thesis using 4 x by simp
  next
    case Closed
    then show ?thesis using 4 x by (auto dest!: left_reply)
  next
    case (Got ev)
    show ?thesis
    proof (cases ev)
      case (StreamEventFragment rid t)
      let ?c = "stampKind (ReqID req) (ext w (i + 1) s1) (streamChunk (clk w (i + 1) 0) req [(''content'', t)] None)"
      have "partOf req (Chunk ?c)" using stampKind_kind unfolding partOf_def contentChunk_def by blast
      then show ?thesis using 4 x Got StreamEventFragment by (simp add: Let_def)
    next
      case (StreamEventDone rid reason)
      let ?c = "stampKind (ReqID req) (ext w (i + 1) s1) (streamChunk (clk w (i + 1) 0) req [] (Some reason))"
      have "lastChunk req reason ?c" using stampKind_kind unfolding lastChunk_def by blast
      moreover have "out = out0 @ [Chunk ?c, DoneMark]"
        using 4 x Got StreamEventDone by (auto simp: Let_def dest!: left_reply)
      ultimately show ?thesis using 4 unfolding whole_def by blast
    qed
  qed
qed simp

section \<open>What the client reads\<close>

lemma names_unknown:
  "fieldFor [''delta'', ''finish_reason''] ''index'' = None"
  "fieldFor [''id'', ''choices''] ''object'' = None" "fieldFor [''id'', ''choices''] ''created'' = None"
  "fieldFor [''id'', ''choices''] ''model'' = None" "fieldFor [''id'', ''choices''] ''responder_kind'' = None"
  by code_simp+

lemma names_known:
  "fieldFor [''delta'', ''finish_reason''] ''delta'' = Some ''delta''"
  "fieldFor [''delta'', ''finish_reason''] ''finish_reason'' = Some ''finish_reason''"
  "fieldFor [''id'', ''choices''] ''id'' = Some ''id''" "fieldFor [''id'', ''choices''] ''choices'' = Some ''choices''"
  by (simp_all add: fieldFor_def)

lemma decode_choice:
  "decodeSimChoice (choiceJSON \<lparr>ChIndex = 0, ChMessage = None, ChDelta = [(''content'', t)], ChFinish = None\<rparr>) =
     (\<lparr>chDelta = jsonText t, chFinish = None\<rparr>, False)"
  "decodeSimChoice (choiceJSON \<lparr>ChIndex = 0, ChMessage = None, ChDelta = [], ChFinish = Some reason\<rparr>) =
     (\<lparr>chDelta = [], chFinish = Some (finishText reason)\<rparr>, False)"
  by (simp_all add: decodeSimChoice_def choiceJSON_def decodeStruct_def names_unknown names_known simChoiceStore_def
      deltaContent_def storeStringPtr_def)

lemma unmarshal_chunk:
  assumes "parse p = Some (chunkJSON c)" and "RspChoices c = [ch]" and "decodeSimChoice (choiceJSON ch) = (x, False)"
  shows "unmarshalSimChunk parse p = Some \<lparr>ckID = jsonText (RspID c), ckChoices = [x]\<rparr>"
  using assms by (simp add: unmarshalSimChunk_def Decode_def chunkJSON_def decodeStruct_def names_unknown names_known
      simChunkStore_def storeString_def)

text \<open>One more line of the client: a payload it parses, a line it skips, the end mark.\<close>

lemma read_payload:
  assumes "framed parse render c" and "unmarshalSimChunk parse (render c) = Some chunk"
  shows "simReadSSE parse jsonErr timeAt scanErr overdue (Line (''data: '' @ render c) # evs) r =
    simReadSSE parse jsonErr timeAt scanErr overdue evs (simTakeChunk timeAt chunk r)"
  using assms by (simp add: framed_def HasPrefix_def TrimPrefix_def)

lemma trim_marks: "TrimSpace '': waiting'' = '': waiting''" "TrimSpace ''data: [DONE]'' = ''data: [DONE]''"
  "TrimSpace '' [DONE]'' = ''[DONE]''"
  by code_simp+

lemma read_skips:
  "simReadSSE parse jsonErr timeAt scanErr overdue (Line [] # evs) r = simReadSSE parse jsonErr timeAt scanErr overdue evs r"
  "simReadSSE parse jsonErr timeAt scanErr overdue (Line '': waiting'' # evs) r = simReadSSE parse jsonErr timeAt scanErr overdue evs r"
  "simReadSSE parse jsonErr timeAt scanErr overdue (Line ''data: [DONE]'' # evs) r = (rdResult r)\<lparr>rqDone := True\<rparr>"
  by (simp_all add: trim_marks HasPrefix_def TrimPrefix_def)

definition sentText :: "sse \<Rightarrow> string" where
  "sentText e = (case e of Chunk c \<Rightarrow> concat (map (\<lambda>ch. concat (map snd (ChDelta ch))) (RspChoices c)) | _ \<Rightarrow> [])"

text \<open>What a reader has read of the answer of a request.\<close>

definition hasRead :: "Request \<Rightarrow> string \<Rightarrow> requesterResult \<Rightarrow> bool" where
  "hasRead req t res \<longleftrightarrow> rqContent res = t \<and> rqID res \<in> {[], jsonText (ReqID req)} \<and> rqErr res = [] \<and>
     \<not> rqCancelled res \<and> \<not> rqStalled res"

lemma take_chunk:
  assumes "hasRead req t (rdResult r)" and "jsonText (''chatcmpl_'' @ ReqID req) = ''chatcmpl_'' @ jsonText (ReqID req)"
  shows "hasRead req (t @ u) (rdResult (simTakeChunk timeAt
      \<lparr>ckID = jsonText (''chatcmpl_'' @ ReqID req), ckChoices = [\<lparr>chDelta = u, chFinish = fin\<rparr>]\<rparr> r))"
    and "rqID (rdResult (simTakeChunk timeAt
      \<lparr>ckID = jsonText (''chatcmpl_'' @ ReqID req), ckChoices = [\<lparr>chDelta = u, chFinish = fin\<rparr>]\<rparr> r)) = jsonText (ReqID req)"
    and "\<forall>reason. fin = Some reason \<longrightarrow> rqFinish (rdResult (simTakeChunk timeAt
      \<lparr>ckID = jsonText (''chatcmpl_'' @ ReqID req), ckChoices = [\<lparr>chDelta = u, chFinish = fin\<rparr>]\<rparr> r)) = reason"
  using assms
  by (auto simp: hasRead_def simTakeChunk_def simTakeChoice_def simDelta_def TrimPrefix_def HasPrefix_def Let_def
      split: option.splits)

lemma jsonText_valid: "valid_utf8 t \<Longrightarrow> jsonText t = t"
  by (simp add: jsonText_def string_of_runes_runes)

lemma jsonText_Nil: "jsonText [] = []"
  by (simp add: jsonText_valid)

lemma chatcmpl_valid: "valid_utf8 ''chatcmpl_''"
  by code_simp

lemma read_content:
  assumes "contentChunk req t c" and "framed parse render c" and "hasRead req u (rdResult r)" and "valid_utf8 (ReqID req)"
  shows "\<exists>r'. simReadSSE parse jsonErr timeAt scanErr overdue (writeSSEData render (Chunk c) @ evs) r =
      simReadSSE parse jsonErr timeAt scanErr overdue evs r' \<and> hasRead req (u @ jsonText t) (rdResult r')"
proof -
  let ?k = "\<lparr>ckID = jsonText (''chatcmpl_'' @ ReqID req), ckChoices = [\<lparr>chDelta = jsonText t, chFinish = None\<rparr>]\<rparr>"
  have c: "RspChoices c = [\<lparr>ChIndex = 0, ChMessage = None, ChDelta = [(''content'', t)], ChFinish = None\<rparr>]"
      "RspID c = ''chatcmpl_'' @ ReqID req"
    using assms(1) by (auto simp: contentChunk_def streamChunk_def)
  have v: "jsonText (''chatcmpl_'' @ ReqID req) = ''chatcmpl_'' @ jsonText (ReqID req)"
    using jsonText_valid valid_utf8_append[OF chatcmpl_valid assms(4)] assms(4) by simp
  have p: "parse (render c) = Some (chunkJSON c)" using assms(2) by (simp add: framed_def)
  note m = unmarshal_chunk[where parse=parse and p="render c", OF p c(1) decode_choice(1), unfolded c(2)]
  note h = take_chunk(1)[where timeAt=timeAt and u="jsonText t" and fin=None, OF assms(3) v]
  have "simReadSSE parse jsonErr timeAt scanErr overdue (writeSSEData render (Chunk c) @ evs) r =
      simReadSSE parse jsonErr timeAt scanErr overdue evs (simTakeChunk timeAt ?k r)"
    using read_payload[OF assms(2) m] by (simp only: writeSSEData.simps append.simps read_skips(1))
  then show ?thesis using h by blast
qed

lemma read_front:
  assumes "list_all (partOf req) front" and "\<forall>c. Chunk c \<in> set front \<longrightarrow> framed parse render c"
    and "hasRead req u (rdResult r)" and "valid_utf8 (ReqID req)"
  shows "\<exists>r'. simReadSSE parse jsonErr timeAt scanErr overdue (concat (map (writeSSEData render) front) @ evs) r =
      simReadSSE parse jsonErr timeAt scanErr overdue evs r' \<and>
      hasRead req (u @ concat (map (jsonText \<circ> sentText) front)) (rdResult r')"
  using assms(1-3)
proof (induction front arbitrary: u r)
  case (Cons e front)
  let ?rest = "concat (map (writeSSEData render) front) @ evs"
  have "\<exists>r1. simReadSSE parse jsonErr timeAt scanErr overdue (writeSSEData render e @ ?rest) r =
      simReadSSE parse jsonErr timeAt scanErr overdue ?rest r1 \<and> hasRead req (u @ jsonText (sentText e)) (rdResult r1)"
  proof (cases "e = Comment '': waiting''")
    case True
    then show ?thesis using Cons.prems(3)
      by (auto simp: read_skips sentText_def jsonText_def runes_def string_of_runes_def simp del: simReadSSE.simps)
  next
    case False
    then obtain t c where c: "e = Chunk c" "contentChunk req t c" using Cons.prems(1) by (auto simp: partOf_def)
    have "sentText e = t" using c by (auto simp: sentText_def contentChunk_def streamChunk_def)
    then show ?thesis using read_content[OF c(2) _ Cons.prems(3) assms(4)] Cons.prems(2) c(1) by simp
  qed
  then obtain r1 where r1: "simReadSSE parse jsonErr timeAt scanErr overdue (writeSSEData render e @ ?rest) r =
      simReadSSE parse jsonErr timeAt scanErr overdue ?rest r1" "hasRead req (u @ jsonText (sentText e)) (rdResult r1)" by blast
  have "list_all (partOf req) front" "\<forall>c. Chunk c \<in> set front \<longrightarrow> framed parse render c" using Cons.prems by auto
  from Cons.IH[OF this r1(2)] show ?case using r1(1) by simp
qed auto


section \<open>A stream\<close>

definition demoRequest :: Request where
  "demoRequest = \<lparr>ReqID = ''q'', RequesterID = [], RequesterSessionID = ''s'', RequesterGuest = True,
     RequesterKind = KindHuman, AllowAIAnswers = True, Messages = [], Model = ''m'', Status = StatusStreaming,
     ResponderSessionID = ''r'', ResponderUserID = [], ResponderGuest = True, ResponderKind = KindHuman,
     ResponderDisplay = [], PreferredResponderSessionID = [], BoardEligible = False, FrozenPoints = 0,
     QuestionCharged = False, OutputLimit = 10, ReqFinish = FinishUnset, ReqReaction = ReactionNone,
     CreatedAt = 1, UpdatedAt = 1, CompletedAt = 0\<rparr>"

definition demoService :: service where
  "demoService = NewService\<lparr>streamChans :=
     [\<lparr>cbuf = [StreamEventFragment ''q'' ''hi'', StreamEventDone ''q'' FinishStop], ccap = 2, cclosed = False\<rparr>]\<rparr>"

definition demoWorld :: world where
  "demoWorld = alone (\<lambda>i j. NoEntropy (int i))"

definition chunk1 :: chatCompletionResponse where
  "chunk1 = streamChunk (clk demoWorld 1 0) demoRequest [(''content'', ''hi'')] None"

definition chunk2 :: chatCompletionResponse where
  "chunk2 = streamChunk (clk demoWorld 3 0) demoRequest [] (Some FinishStop)"

definition demoOut :: "sse list" where
  "demoOut = [Comment '': waiting'', Chunk chunk1, Chunk chunk2, DoneMark]"

definition demoRender :: "chatCompletionResponse \<Rightarrow> string" where
  "demoRender c = (if c = chunk1 then ''{1}'' else ''{2}'')"

definition demoParse :: "string \<Rightarrow> json option" where
  "demoParse p = (if p = ''{1}'' then Some (chunkJSON chunk1) else Some (chunkJSON chunk2))"

lemma demo_stream_out:
  "\<exists>s'. streamLoop demoWorld demoRequest [] [] 0 [Heartbeat, EventReady, EventReady] 0 [] demoService = Returned (s', EventStream demoOut)"
  by (simp add: demoWorld_def alone_def demoService_def recvEvent_def recv_def heap_get_def NewService_def Let_def
      stampKind_def RequestSnapshot_def mget_def persistAssistant_def leaveStream_def unsubscribe_def close_chan_def
      demoOut_def chunk1_def chunk2_def)

lemma demo_chunks: "chunk1 \<noteq> chunk2"
  by (simp add: chunk1_def chunk2_def streamChunk_def)

lemma demo_framed: "\<forall>c. Chunk c \<in> set demoOut \<longrightarrow> framed demoParse demoRender c"
proof -
  have "TrimSpace ''data: {1}'' = ''data: {1}''" "TrimSpace '' {1}'' = ''{1}''"
      "TrimSpace ''data: {2}'' = ''data: {2}''" "TrimSpace '' {2}'' = ''{2}''"
    by code_simp+
  then show ?thesis using demo_chunks by (auto simp: demoOut_def framed_def demoRender_def demoParse_def)
qed


end
