(* ===== verification/Spec2Isabelle.thy ===== *)
theory Spec2Isabelle
  imports CoreProps AnswerProps LifecycleProps PointsProps StoreProps Chunking RateLimit FrontendProps FallbackProps PersonaProps CoordProps PgProps PgFindings Engines ServerMain SimCheck SimStream
begin

text \<open>
  A verification library of the deeperseek backend, the Go program under \<open>src/backend\<close>. People ask
  questions over an OpenAI-compatible API, and other people answer them over a WebSocket, posing as a model;
  a fallback model and personas help out. Questions cost points and answers earn them.

  \<^bold>\<open>The parts of the program.\<close> The HTTP layer (\<open>internal/httpapi\<close>) serves requests, streams
  answers and speaks with responders. It calls a \<open>core.Backend\<close>, of which there are two: the
  in-memory \<open>core.Service\<close>, whose mutex makes every method one atomic step, and
  \<open>pgredis.Backend\<close>, many instances of which share one Postgres database and one Redis
  server. The fallback (\<open>httpapi/fallback.go\<close>) and the persona manager (\<open>internal/persona\<close>) are
  clients of the backend that ask an upstream model (\<open>internal/llm\<close>). \<open>cmd/server\<close> chooses the
  engine and reads the settings; \<open>cmd/simload\<close> is a load generator with a consistency checker.

  \<^bold>\<open>Language and library.\<close> \<open>GoBase\<close> (maps, channels, time, and the named collections of rules),
  \<open>GoStrings\<close> (strings as bytes, UTF-8 as Go decodes it, printing, identifiers), \<open>GoParse\<close>
  (\<open>strconv\<close>, paths), \<open>Json\<close> (what \<open>encoding/json\<close> stores in a struct, given the parsed
  document). Errors are values of a sum type; a result \<open>None\<close> is a panic or a lock that is never
  released, \<open>Running\<close> a loop that still waits.

  \<^bold>\<open>The in-memory engine\<close> (\<open>internal/core\<close>). \<open>CoreTypes\<close> has the data, \<open>CoreService\<close> the helpers
  that run under the lock, \<open>CoreOps\<close> the exported methods, \<open>Conversations\<close> the saved
  conversations. \<open>CoreInv\<close> splits the invariant and preserves it by each primitive transition, \<open>CoreFrames\<close>
  says what each leaves alone, \<open>CoreHistory\<close> what never changes back, \<open>CoreSafety\<close> and
  \<open>CoreAnswers\<close> put them together per method, and \<open>CoreTrans\<close> makes the service a transition system
  (\<open>svc_step\<close>), interpreting the locale \<open>transition_system\<close>. \<open>Scenario\<close> is a concrete run for
  the witnesses. \<open>CoreProps\<close>, \<open>AnswerProps\<close>, \<open>LifecycleProps\<close>, \<open>PointsProps\<close> and
  \<open>StoreProps\<close> hold the properties: every method returns, assignment is exclusive, matching is first come
  first served, answers are append-only and bounded, points are the history of the requests, timeouts
  leave nothing stale, conversations are private.

  \<^bold>\<open>The HTTP layer.\<close> \<open>World\<close> is the surroundings of a goroutine: \<open>ext w i s\<close> is what others have made
  of the state before its \<open>i\<close>-th call, \<open>rely\<close> that they act through methods only. \<open>HttpApi\<close> has the server
  and the handlers that answer at once, \<open>HttpStreams\<close> those that stay, \<open>AnswerSocket\<close> the responder's
  socket and the routes, \<open>RateLimit\<close> the token buckets, \<open>Chunking\<close> the splitting of answers.
  \<open>HttpSafety\<close>, \<open>HttpProps\<close> and \<open>FrontendProps\<close> show that the layer refines the service, that a refused
  request changes nothing, that tokens are checked and the static files stay inside their directory. \<open>Llm\<close>
  reads the upstream, \<open>Fallback\<close> and \<open>Persona\<close> are the two automatic responders; \<open>FallbackProps\<close> and
  \<open>PersonaProps\<close> show that they end, release what they hold, and stay within their numbers.

  \<^bold>\<open>The distributed engine\<close> (\<open>internal/pgredis\<close>). \<open>Redis\<close> states the documented effect of the Redis
  commands as the locale \<open>redis_server\<close>, interpreted on a store in memory; \<open>Coordinator\<close> has the queue, the
  presence set, the locks and the two Lua scripts; \<open>CoordProps\<close> shows the assignment script to agree with the
  in-memory matcher and the lease to have one owner. \<open>PgStore\<close> has the tables with their constraints and
  the calls: a transaction, a query, a command or a publication is one step, before which the other
  instances act (\<open>pext\<close>) and which may fail (\<open>pfail\<close>), with or without having taken effect
  (\<open>papplied\<close>). \<open>PgLifecycle\<close> has the bodies of the transactions, \<open>PgOps\<close> the operations around
  them, \<open>PgResponders\<close> presence, timeouts and streams, \<open>PgAuth\<close> accounts, board, conversations and
  migrations. \<open>PgRows\<close> and \<open>PgSteps\<close> define the abstract database: \<open>rowmove\<close> is what may happen to one
  request, \<open>dbstep\<close> a step of the tables, and every reachable table is well-formed. \<open>PgRefine\<close> shows
  each transaction to be such a step and what is never taken back; \<open>PgRuns\<close>, \<open>PgRunOps\<close> and \<open>PgRunAll\<close>
  carry this through every operation (\<open>pgop\<close>) and through runs (\<open>pgrun\<close>); \<open>PgStream\<close> treats the
  subscription. \<open>PgDemo\<close> is a concrete run, \<open>PgProps\<close> has the properties: operations are transactions,
  points move exactly once, committed answers are final, a stream is contiguous and delivered.
  \<open>PgFindings\<close> shows three runs the code does not guard against. \<open>Engines\<close> states one abstract store of
  questions and answers (\<open>specStep\<close>), the locale \<open>answer_engine\<close> with what holds of a reader, and interprets
  it on both engines.

  \<^bold>\<open>The programs.\<close> \<open>ServerMain\<close>: the settings from the environment (with \<open>time.ParseDuration\<close>) and the
  choice of the engine; whatever the environment, a process that starts is usable. \<open>Simload\<close>,
  \<open>SimActors\<close>, \<open>SimCheck\<close>, \<open>SimStream\<close>: the simulator's client, responder and checker; the checker is exact,
  and the client reads back what the server streams.

  \<^bold>\<open>Parameters.\<close> bcrypt, the file system, the upstream, Redis, JSON texts, randomness and the clock are
  arguments. Identifiers drawn are assumed new where the program relies on it. What is assumed of the others
  is that they act through the same methods (\<open>rely\<close>, \<open>steady\<close>).

  \<^bold>\<open>Bounds.\<close> Loops that wait have a list of wake-ups or a number of rounds; \<open>drainAssignments\<close> has a number
  of pairs, because it need not end: \<open>Running\<close> is such a run, and a property of an operation that drains says
  what holds whenever it returns, and of the tables what holds at every step. The assignment loop of the
  service is proved to end, the script's loop is a partial function whose value \<open>script_agrees\<close> shows to
  exist. The sweeper, the poller and the driver of a persona are proved to end when told to stop.

  \<^bold>\<open>Simplifications.\<close> Floating point numbers (token buckets, fractions of a duration, probabilities) are
  rationals or exact integers. Instants are exact, while Postgres keeps microseconds. Text that Postgres
  rejects (invalid UTF-8, the zero byte) is a call that fails. Transactions that lock the row of one request run
  as one step; the sums of \<open>freezePoints\<close> and \<open>balance\<close> are separate statements.

  \<^bold>\<open>Not modelled.\<close> Connecting to Postgres and Redis (\<open>pgredis.New\<close>, apart from its migrations),
  listening, signals and shutdown, logging, HTTP headers, the text of JSON documents, the socket protocol, the
  pauses and the goroutines of the simulator with its upstream mock, and the frontend.
\<close>

end
